(* ===== verification/Prelude.thy ===== *)
theory Prelude
  imports Main "HOL-Library.Word" "HOL-Library.Monad_Syntax"
begin

text \<open>
  What every component shares: the names of the machine integer types, the
  \<open>Result\<close> combinators that the code writes with \<open>?\<close>, \<open>ok_or\<close> and
  \<open>map_err\<close>, and the collections that the component theories fill.
\<close>

section \<open>Collections\<close>

named_theorems rust_str \<open>evaluation of the string primitives on known shapes\<close>
named_theorems token_intro \<open>introduction rules for strings without separators\<close>
named_theorems result_simps \<open>evaluation of the Result combinators\<close>

section \<open>Machine integers and bytes\<close>

type_synonym u8 = "8 word"
type_synonym u16 = "16 word"
type_synonym u32 = "32 word"
type_synonym u64 = "64 word"

text \<open>
  The code's \<open>usize\<close> is 64 bits wide on every platform the crate targets. A datagram
  (\<open>&[u8]\<close>) is a list of bytes, a Rust \<open>String\<close> the list of its UTF-8 bytes.
\<close>

type_synonym usize = "64 word"
type_synonym bytes = "u8 list"
type_synonym str = string

section \<open>Results\<close>

text \<open>\<open>Result<T, E>\<close> is \<open>'e + 'a\<close>; the operator \<open>?\<close> is \<open>try_res\<close>.\<close>

definition try_res :: "'e + 'a \<Rightarrow> ('a \<Rightarrow> 'e + 'b) \<Rightarrow> 'e + 'b" where
  "try_res r f = (case r of Inl e \<Rightarrow> Inl e | Inr x \<Rightarrow> f x)"

definition ok_or :: "'a option \<Rightarrow> 'e \<Rightarrow> 'e + 'a" where
  "ok_or x e = (case x of None \<Rightarrow> Inl e | Some y \<Rightarrow> Inr y)"

lemma try_res_simps [simp, result_simps]:
  "try_res (Inl e) f = Inl e"
  "try_res (Inr x) f = f x"
  by (simp_all add: try_res_def)

lemma ok_or_simps [simp, result_simps]:
  "ok_or None e = Inl e"
  "ok_or (Some x) e = Inr x"
  by (simp_all add: ok_or_def)

lemma try_res_Inr_iff: "try_res r f = Inr y \<longleftrightarrow> (\<exists>x. r = Inr x \<and> f x = Inr y)"
  by (cases r) auto

lemma try_res_Inl_iff: "try_res r f = Inl e \<longleftrightarrow> r = Inl e \<or> (\<exists>x. r = Inr x \<and> f x = Inl e)"
  by (cases r) auto

lemma ok_or_Inr_iff: "ok_or x e = Inr y \<longleftrightarrow> x = Some y"
  by (cases x) auto

lemma ok_or_Inl_iff: "ok_or x e = Inl e' \<longleftrightarrow> x = None \<and> e' = e"
  by (cases x) auto

lemmas result_iffs = try_res_Inr_iff try_res_Inl_iff ok_or_Inr_iff ok_or_Inl_iff

section \<open>Lists\<close>

lemma takeWhile_all_append:
  assumes "\<And>x. x \<in> set xs \<Longrightarrow> P x" and "ys = [] \<or> \<not> P (hd ys)"
  shows "takeWhile P (xs @ ys) = xs" and "dropWhile P (xs @ ys) = ys"
proof -
  have "takeWhile P ys = [] \<and> dropWhile P ys = ys"
    using assms(2) by (cases ys) auto
  with assms(1) show "takeWhile P (xs @ ys) = xs" and "dropWhile P (xs @ ys) = ys"
    by simp_all
qed

lemma takeWhile_all:
  "(\<And>x. x \<in> set xs \<Longrightarrow> P x) \<Longrightarrow> takeWhile P xs = xs"
  "(\<And>x. x \<in> set xs \<Longrightarrow> P x) \<Longrightarrow> dropWhile P xs = []"
  by simp_all

section \<open>The interface of a printer and its parser\<close>

text \<open>
  Numbers, addresses, fingerprints, candidates and descriptions are all printed by one
  function and read by another. The contract: on valid values, parsing what was printed
  succeeds and gives a normal form of the value, which prints the same.
\<close>

locale codec =
  fixes encode :: "'a \<Rightarrow> 'b"
    and decode :: "'b \<Rightarrow> 'a option"
    and valid :: "'a \<Rightarrow> bool"
    and norm :: "'a \<Rightarrow> 'a"
  assumes decode_encode: "valid x \<Longrightarrow> decode (encode x) = Some (norm x)"
    and encode_norm: "valid x \<Longrightarrow> encode (norm x) = encode x"
    and valid_norm: "valid x \<Longrightarrow> valid (norm x)"
begin

lemma encode_eq_iff: "valid x \<Longrightarrow> valid y \<Longrightarrow> encode x = encode y \<longleftrightarrow> norm x = norm y"
  by (metis decode_encode encode_norm option.inject)

lemma norm_idem: "valid x \<Longrightarrow> norm (norm x) = norm x"
  using encode_eq_iff encode_norm valid_norm by blast

lemma recode_stable: "valid x \<Longrightarrow> decode (encode x) = Some y \<Longrightarrow> encode y = encode x \<and> decode (encode y) = Some y"
  using decode_encode encode_norm by auto

end

text \<open>A codec that loses nothing.\<close>

locale exact_codec =
  fixes encode :: "'a \<Rightarrow> 'b"
    and decode :: "'b \<Rightarrow> 'a option"
    and valid :: "'a \<Rightarrow> bool"
  assumes decode_encode_exact: "valid x \<Longrightarrow> decode (encode x) = Some x"

sublocale exact_codec \<subseteq> codec encode decode valid "\<lambda>x. x"
  by unfold_locales (simp_all add: decode_encode_exact)

context exact_codec
begin

lemma encode_inj: "valid x \<Longrightarrow> valid y \<Longrightarrow> encode x = encode y \<longleftrightarrow> x = y"
  using encode_eq_iff by simp

end

text \<open>
  The weaker contract of a parser that completes what it reads: what it gives back is a
  normal form, and from then on printing and parsing change nothing.
\<close>

locale normalizing =
  fixes encode :: "'a \<Rightarrow> 'b"
    and decode :: "'b \<Rightarrow> 'a option"
    and valid :: "'a \<Rightarrow> bool"
    and norm :: "'a \<Rightarrow> 'a"
  assumes reread: "valid x \<Longrightarrow> decode (encode x) = Some (norm x)"
    and norm_valid: "valid x \<Longrightarrow> valid (norm x)"
    and norm_norm: "valid x \<Longrightarrow> norm (norm x) = norm x"
begin

lemma second_pass: "valid x \<Longrightarrow> decode (encode x) = Some y \<Longrightarrow> decode (encode y) = Some y"
  using reread norm_valid norm_norm by auto

lemma norm_fixed: "valid x \<Longrightarrow> decode (encode x) = Some x \<longleftrightarrow> norm x = x"
  using reread by auto

end

sublocale codec \<subseteq> normalizing
  by unfold_locales (simp_all add: decode_encode valid_norm norm_idem)

section \<open>Pushing what is not there yet\<close>

text \<open>
  \<open>if !v.iter().any(|e| e == &x) { v.push(x) }\<close>, with the equality of the element type
  as a parameter: \<open>Candidate\<close> has one of its own.
\<close>

definition push_new :: "('a \<Rightarrow> 'a \<Rightarrow> bool) \<Rightarrow> 'a list \<Rightarrow> 'a \<Rightarrow> 'a list" where
  "push_new eq xs x = (if list_ex (\<lambda>e. eq e x) xs then xs else xs @ [x])"

fun no_dup :: "('a \<Rightarrow> 'a \<Rightarrow> bool) \<Rightarrow> 'a list \<Rightarrow> bool" where
  "no_dup eq [] = True"
| "no_dup eq (x # xs) = (list_all (\<lambda>y. \<not> eq x y) xs \<and> no_dup eq xs)"

lemma no_dup_snoc: "no_dup eq (xs @ [x]) \<longleftrightarrow> no_dup eq xs \<and> list_all (\<lambda>y. \<not> eq y x) xs"
  by (induction xs) auto

lemma no_dup_prefix: "no_dup eq (xs @ ys) \<Longrightarrow> no_dup eq xs"
  by (induction xs) auto

lemma push_all_subset: "set (foldl (push_new eq) xs ys) \<subseteq> set xs \<union> set ys"
proof (induction ys arbitrary: xs)
  case (Cons y ys)
  from Cons [of "push_new eq xs y"] show ?case by (auto simp: push_new_def split: if_splits)
qed simp

locale equality =
  fixes eq :: "'a \<Rightarrow> 'a \<Rightarrow> bool"
  assumes eq_refl: "eq x x"
    and eq_sym: "eq x y \<Longrightarrow> eq y x"
    and eq_trans: "eq x y \<Longrightarrow> eq y z \<Longrightarrow> eq x z"
begin

lemma push_new_no_dup: "no_dup eq xs \<Longrightarrow> no_dup eq (push_new eq xs x)"
  by (auto simp: push_new_def no_dup_snoc list_ex_iff list_all_iff)

lemma push_new_member: "list_ex (\<lambda>e. eq e y) (push_new eq xs x) \<longleftrightarrow> list_ex (\<lambda>e. eq e y) xs \<or> eq x y"
  unfolding push_new_def list_ex_iff by (auto intro: eq_trans eq_sym)

lemma push_new_idem: "push_new eq (push_new eq xs x) x = push_new eq xs x"
  by (simp add: push_new_def eq_refl)

lemma push_all_no_dup: "no_dup eq xs \<Longrightarrow> no_dup eq (foldl (push_new eq) xs ys)"
  by (induction ys arbitrary: xs) (simp_all add: push_new_no_dup)

lemma push_all_keeps: "list_ex (\<lambda>e. eq e z) xs \<Longrightarrow> list_ex (\<lambda>e. eq e z) (foldl (push_new eq) xs ys)"
  by (induction ys arbitrary: xs) (simp_all add: push_new_member)

lemma push_all_member: "y \<in> set ys \<Longrightarrow> list_ex (\<lambda>e. eq e y) (foldl (push_new eq) xs ys)"
  by (induction ys arbitrary: xs) (auto simp: push_new_member eq_refl intro: push_all_keeps)

lemma push_all_known: "(\<And>y. y \<in> set ys \<Longrightarrow> list_ex (\<lambda>e. eq e y) xs) \<Longrightarrow> foldl (push_new eq) xs ys = xs"
  by (induction ys) (simp_all add: push_new_def)

lemma push_all_idem: "foldl (push_new eq) (foldl (push_new eq) xs ys) ys = foldl (push_new eq) xs ys"
  using push_all_member by (intro push_all_known)

lemma push_all_fresh: "no_dup eq (xs @ ys) \<Longrightarrow> foldl (push_new eq) xs ys = xs @ ys"
proof (induction ys arbitrary: xs)
  case (Cons y ys)
  have "no_dup eq (xs @ [y]) \<Longrightarrow> push_new eq xs y = xs @ [y]"
    by (auto simp: push_new_def no_dup_snoc list_ex_iff list_all_iff)
  moreover have "no_dup eq (xs @ [y])"
    using Cons.prems no_dup_prefix [of eq "xs @ [y]" ys] by simp
  ultimately show ?case using Cons.IH [of "xs @ [y]"] Cons.prems by simp
qed simp

end

interpretation hol_equality: equality "(=)"
  by unfold_locales auto

lemma push_new_eq: "push_new (=) xs x = (if x \<in> set xs then xs else xs @ [x])"
  by (auto simp: push_new_def list_ex_iff)

lemma no_dup_eq: "no_dup (=) xs \<longleftrightarrow> distinct xs"
  by (induction xs) (auto simp: list_all_iff)

section \<open>Transports as objects with operations\<close>

text \<open>A sequence of calls; \<open>None\<close> when one of them never returns.\<close>

primrec run_all :: "('op \<Rightarrow> 's \<Rightarrow> 's option) \<Rightarrow> 'op list \<Rightarrow> 's \<Rightarrow> 's option" where
  "run_all run [] s = Some s"
| "run_all run (op # ops) s = Option.bind (run op s) (run_all run ops)"

lemma run_all_append: "run_all run (ops @ ops') s = Option.bind (run_all run ops s) (run_all run ops')"
proof (induction ops arbitrary: s)
  case (Cons op ops)
  then show ?case by (cases "run op s") simp_all
qed simp

text \<open>
  What every transport of the stack promises of \<open>close\<close>: a closed transport stays closed, and
  none of its gated operations has an effect any more.
\<close>

locale closable =
  fixes run :: "'op \<Rightarrow> 's \<Rightarrow> 's option"
    and closed :: "'s \<Rightarrow> bool"
    and gated :: "'op \<Rightarrow> bool"
  assumes gated_stutter: "closed s \<Longrightarrow> gated op \<Longrightarrow> run op s = Some s"
begin

lemma closed_run_all: "closed s \<Longrightarrow> list_all gated ops \<Longrightarrow> run_all run ops s = Some s"
  by (induction ops) (simp_all add: gated_stutter)

lemma closed_then: "closed s \<Longrightarrow> list_all gated ops \<Longrightarrow> run_all run (ops @ ops') s = run_all run ops' s"
  by (simp add: run_all_append closed_run_all)

end

text \<open>An invariant that every operation keeps.\<close>

locale invariant =
  fixes run :: "'op \<Rightarrow> 's \<Rightarrow> 's option"
    and inv :: "'s \<Rightarrow> bool"
  assumes step_inv: "inv s \<Longrightarrow> run op s = Some s' \<Longrightarrow> inv s'"
begin

lemma run_all_inv: "inv s \<Longrightarrow> run_all run ops s = Some s' \<Longrightarrow> inv s'"
  by (induction ops arbitrary: s) (auto simp: bind_eq_Some_conv intro: step_inv)

end

end
