(* ===== verification/Rust_Str.thy ===== *)
theory Rust_Str
  imports Prelude
begin

text \<open>
  The operations of Rust's \<open>str\<close> that the sources use, on the UTF-8 bytes of the
  string: a HOL \<open>char\<close> is one byte. ASCII bytes never occur inside a longer UTF-8
  sequence, so searching and splitting at ASCII separators is the same on bytes as on
  characters. The second half has the shape lemmas the parsers and printers rest on.
\<close>

section \<open>Bytes and ASCII classes\<close>

definition code :: "char \<Rightarrow> nat" where
  "code c = of_char c"

definition chr :: "nat \<Rightarrow> char" where
  "chr n = char_of n"

abbreviation CR :: char where "CR \<equiv> CHR 0x0D"
abbreviation LF :: char where "LF \<equiv> CHR 0x0A"

definition crlf :: str where
  "crlf = [CR, LF]"

text \<open>\<open>u8::is_ascii_whitespace\<close>: tab, line feed, form feed, carriage return, space.\<close>

definition is_ascii_whitespace :: "char \<Rightarrow> bool" where
  "is_ascii_whitespace c \<longleftrightarrow> code c \<in> {9, 10, 12, 13, 32}"

definition is_ascii_digit :: "char \<Rightarrow> bool" where
  "is_ascii_digit c \<longleftrightarrow> 48 \<le> code c \<and> code c \<le> 57"

definition is_ascii_hexdigit :: "char \<Rightarrow> bool" where
  "is_ascii_hexdigit c \<longleftrightarrow>
     (48 \<le> code c \<and> code c \<le> 57) \<or> (65 \<le> code c \<and> code c \<le> 70) \<or> (97 \<le> code c \<and> code c \<le> 102)"

definition ascii_lower :: "char \<Rightarrow> char" where
  "ascii_lower c = (if 65 \<le> code c \<and> code c \<le> 90 then chr (code c + 32) else c)"

definition ascii_upper :: "char \<Rightarrow> char" where
  "ascii_upper c = (if 97 \<le> code c \<and> code c \<le> 122 then chr (code c - 32) else c)"

definition to_ascii_lowercase :: "str \<Rightarrow> str" where
  "to_ascii_lowercase s = map ascii_lower s"

definition to_ascii_uppercase :: "str \<Rightarrow> str" where
  "to_ascii_uppercase s = map ascii_upper s"

definition eq_ignore_ascii_case :: "str \<Rightarrow> str \<Rightarrow> bool" where
  "eq_ignore_ascii_case s t \<longleftrightarrow> to_ascii_lowercase s = to_ascii_lowercase t"

section \<open>Searching and splitting\<close>

fun strip_pre :: "str \<Rightarrow> str \<Rightarrow> str option" where
  "strip_pre [] s = Some s"
| "strip_pre (p # ps) [] = None"
| "strip_pre (p # ps) (c # cs) = (if p = c then strip_pre ps cs else None)"

fun str_find :: "(char \<Rightarrow> bool) \<Rightarrow> str \<Rightarrow> nat option" where
  "str_find p [] = None"
| "str_find p (c # cs) = (if p c then Some 0 else map_option Suc (str_find p cs))"

fun str_rfind :: "(char \<Rightarrow> bool) \<Rightarrow> str \<Rightarrow> nat option" where
  "str_rfind p [] = None"
| "str_rfind p (c # cs) =
     (case str_rfind p cs of Some i \<Rightarrow> Some (Suc i) | None \<Rightarrow> if p c then Some 0 else None)"

fun str_contains :: "str \<Rightarrow> str \<Rightarrow> bool" where
  "str_contains [] pat = (pat = [])"
| "str_contains (c # cs) pat = (strip_pre pat (c # cs) \<noteq> None \<or> str_contains cs pat)"

text \<open>\<open>str::split\<close> on a character class: all pieces, empty ones included.\<close>

fun split_on :: "(char \<Rightarrow> bool) \<Rightarrow> str \<Rightarrow> str list" where
  "split_on p [] = [[]]"
| "split_on p (c # cs) =
     (if p c then [] # split_on p cs
      else (case split_on p cs of [] \<Rightarrow> [[c]] | w # ws \<Rightarrow> (c # w) # ws))"

definition split_ascii_whitespace :: "str \<Rightarrow> str list" where
  "split_ascii_whitespace s = filter (\<lambda>w. w \<noteq> []) (split_on is_ascii_whitespace s)"

fun str_join :: "str \<Rightarrow> str list \<Rightarrow> str" where
  "str_join sep [] = []"
| "str_join sep [w] = w"
| "str_join sep (w # v # ws) = w @ sep @ str_join sep (v # ws)"

text \<open>\<open>str::lines\<close>: pieces between line feeds, one carriage return before a line feed
  dropped, no empty last line.\<close>

definition strip_cr :: "str \<Rightarrow> str" where
  "strip_cr s = (if s \<noteq> [] \<and> last s = CR then butlast s else s)"

definition str_lines :: "str \<Rightarrow> str list" where
  "str_lines s = (let ps = split_on (\<lambda>c. c = LF) s in
     map strip_cr (butlast ps) @ (if last ps = [] then [] else [last ps]))"

text \<open>\<open>trim_end_matches(['\r', '\n'])\<close>.\<close>

definition trim_end_crlf :: "str \<Rightarrow> str" where
  "trim_end_crlf s = rev (dropWhile (\<lambda>c. c = CR \<or> c = LF) (rev s))"

section \<open>Trimming Unicode white space\<close>

text \<open>
  \<open>str::trim\<close> removes characters of the Unicode property White_Space. In UTF-8 these
  are the six ASCII ones (VT included), U+0085 and U+00A0 (two bytes), and U+1680,
  U+2000 to U+200A, U+2028, U+2029, U+202F, U+205F, U+3000 (three bytes).
  \<open>ws_len\<close> is the number of bytes of a white space character at the head.
\<close>

definition ws3 :: "nat \<Rightarrow> nat \<Rightarrow> nat \<Rightarrow> bool" where
  "ws3 a b c \<longleftrightarrow>
     (a = 225 \<and> b = 154 \<and> c = 128) \<or>
     (a = 226 \<and> b = 128 \<and> (128 \<le> c \<and> c \<le> 138 \<or> c \<in> {168, 169, 175})) \<or>
     (a = 226 \<and> b = 129 \<and> c = 159) \<or>
     (a = 227 \<and> b = 128 \<and> c = 128)"

definition ws1 :: "nat \<Rightarrow> bool" where
  "ws1 a \<longleftrightarrow> (9 \<le> a \<and> a \<le> 13) \<or> a = 32"

definition ws2 :: "nat \<Rightarrow> nat \<Rightarrow> bool" where
  "ws2 a b \<longleftrightarrow> a = 194 \<and> b \<in> {133, 160}"

fun trim_start :: "str \<Rightarrow> str" where
  "trim_start [] = []"
| "trim_start [a] = (if ws1 (code a) then [] else [a])"
| "trim_start [a, b] =
     (if ws1 (code a) then trim_start [b] else if ws2 (code a) (code b) then [] else [a, b])"
| "trim_start (a # b # c # s) =
     (if ws1 (code a) then trim_start (b # c # s)
      else if ws2 (code a) (code b) then trim_start (c # s)
      else if ws3 (code a) (code b) (code c) then trim_start s
      else a # b # c # s)"

text \<open>The same from the end, on the reversed string.\<close>

fun trim_rev :: "str \<Rightarrow> str" where
  "trim_rev [] = []"
| "trim_rev [a] = (if ws1 (code a) then [] else [a])"
| "trim_rev [a, b] =
     (if ws1 (code a) then trim_rev [b] else if ws2 (code b) (code a) then [] else [a, b])"
| "trim_rev (a # b # c # s) =
     (if ws1 (code a) then trim_rev (b # c # s)
      else if ws2 (code b) (code a) then trim_rev (c # s)
      else if ws3 (code c) (code b) (code a) then trim_rev s
      else a # b # c # s)"

definition str_trim :: "str \<Rightarrow> str" where
  "str_trim s = rev (trim_rev (rev (trim_start s)))"

section \<open>UTF-8 validity\<close>

text \<open>What \<open>String::from_utf8\<close> accepts: no overlong forms, no surrogates, nothing above
  U+10FFFF.\<close>

definition utf8_cont :: "nat \<Rightarrow> bool" where
  "utf8_cont b \<longleftrightarrow> 128 \<le> b \<and> b \<le> 191"

definition utf8_second :: "nat \<Rightarrow> nat \<Rightarrow> bool" where
  "utf8_second a b \<longleftrightarrow>
     (if a = 224 then 160 \<le> b \<and> b \<le> 191
      else if a = 237 then 128 \<le> b \<and> b \<le> 159
      else if a = 240 then 144 \<le> b \<and> b \<le> 191
      else if a = 244 then 128 \<le> b \<and> b \<le> 143
      else utf8_cont b)"

definition utf8_width :: "nat \<Rightarrow> nat" where
  "utf8_width a = (if a < 128 then 1 else if 194 \<le> a \<and> a \<le> 223 then 2
     else if 224 \<le> a \<and> a \<le> 239 then 3 else if 240 \<le> a \<and> a \<le> 244 then 4 else 0)"

fun utf8_valid :: "str \<Rightarrow> bool" where
  "utf8_valid [] = True"
| "utf8_valid (a # s) =
     (if utf8_width (code a) = 1 then utf8_valid s
      else if utf8_width (code a) = 2 then
        (case s of b # t \<Rightarrow> utf8_cont (code b) \<and> utf8_valid t | _ \<Rightarrow> False)
      else if utf8_width (code a) = 3 then
        (case s of b # c # t \<Rightarrow> utf8_second (code a) (code b) \<and> utf8_cont (code c) \<and> utf8_valid t
         | _ \<Rightarrow> False)
      else if utf8_width (code a) = 4 then
        (case s of b # c # d # t \<Rightarrow> utf8_second (code a) (code b) \<and> utf8_cont (code c) \<and>
           utf8_cont (code d) \<and> utf8_valid t | _ \<Rightarrow> False)
      else False)"

section \<open>Lemmas: codes and classes\<close>

lemma code_lt [simp]: "code c < 256"
  by (simp add: code_def)

lemma code_chr [simp]: "n < 256 \<Longrightarrow> code (chr n) = n"
  by (simp add: code_def chr_def)

lemma chr_code [simp]: "chr (code c) = c"
  by (simp add: code_def chr_def)

lemma code_eq_iff: "code a = code b \<longleftrightarrow> a = b"
  by (metis chr_code)

text \<open>A token: non-empty, no ASCII white space. What \<open>split_ascii_whitespace\<close> yields.\<close>

definition is_token :: "str \<Rightarrow> bool" where
  "is_token w \<longleftrightarrow> w \<noteq> [] \<and> list_all (\<lambda>c. \<not> is_ascii_whitespace c) w"

text \<open>A line body: no line feed and no carriage return at all.\<close>

definition is_line :: "str \<Rightarrow> bool" where
  "is_line s \<longleftrightarrow> list_all (\<lambda>c. c \<noteq> LF \<and> c \<noteq> CR) s"

lemma is_ascii_whitespace_space [simp]: "is_ascii_whitespace (CHR '' '')"
  by (simp add: is_ascii_whitespace_def code_def)

lemma not_ws_CR_LF: "\<not> is_ascii_whitespace c \<Longrightarrow> c \<noteq> CR \<and> c \<noteq> LF \<and> c \<noteq> CHR '' ''"
  by (auto simp: is_ascii_whitespace_def code_def)

lemma is_token_not_Nil [simp]: "\<not> is_token []"
  by (simp add: is_token_def)

lemma is_token_is_line [token_intro]: "is_token w \<Longrightarrow> is_line w"
  by (auto simp: is_token_def is_line_def list_all_iff dest: not_ws_CR_LF)

lemma is_line_append [simp]: "is_line (a @ b) \<longleftrightarrow> is_line a \<and> is_line b"
  by (auto simp: is_line_def)

lemma is_line_Nil [simp]: "is_line []"
  by (simp add: is_line_def)

lemma is_line_Cons [simp]: "is_line (c # s) \<longleftrightarrow> c \<noteq> LF \<and> c \<noteq> CR \<and> is_line s"
  by (auto simp: is_line_def)

lemma is_token_append: "is_token a \<Longrightarrow> is_token b \<Longrightarrow> is_token (a @ b)"
  by (auto simp: is_token_def)

section \<open>Lemmas: prefixes and searching\<close>

lemma strip_pre_append [simp]: "strip_pre p (p @ s) = Some s"
  by (induction p) auto

lemma strip_pre_Some_iff: "strip_pre p s = Some r \<longleftrightarrow> s = p @ r"
  by (induction p s rule: strip_pre.induct) auto

lemma str_find_None_iff: "str_find p s = None \<longleftrightarrow> (\<forall>c \<in> set s. \<not> p c)"
  by (induction s) auto

lemma str_find_append:
  "\<forall>c \<in> set a. \<not> p c \<Longrightarrow> p x \<Longrightarrow> str_find p (a @ x # b) = Some (length a)"
  by (induction a) auto

lemma str_find_Some:
  "str_find p s = Some i \<Longrightarrow> i < length s \<and> p (s ! i) \<and> (\<forall>c \<in> set (take i s). \<not> p c)"
proof (induction s arbitrary: i)
  case (Cons c cs)
  then show ?case by (cases i) (auto split: if_splits)
qed simp

lemma str_rfind_None_iff: "str_rfind p s = None \<longleftrightarrow> (\<forall>c \<in> set s. \<not> p c)"
  by (induction s) (auto split: option.splits)

lemma str_rfind_append:
  "\<forall>c \<in> set b. \<not> p c \<Longrightarrow> p x \<Longrightarrow> str_rfind p (a @ x # b) = Some (length a)"
proof (induction a)
  case Nil
  then have "str_rfind p b = None" by (simp add: str_rfind_None_iff)
  with Nil show ?case by simp
qed auto

lemma str_rfind_Some:
  "str_rfind p s = Some i \<Longrightarrow> i < length s \<and> p (s ! i) \<and> (\<forall>c \<in> set (drop (Suc i) s). \<not> p c)"
proof (induction s arbitrary: i)
  case (Cons c cs)
  show ?case
  proof (cases "str_rfind p cs")
    case None
    then have "\<forall>c \<in> set cs. \<not> p c" by (simp add: str_rfind_None_iff)
    with Cons.prems None show ?thesis by (auto split: if_splits)
  next
    case (Some j)
    with Cons show ?thesis by auto
  qed
qed simp

section \<open>Lemmas: splitting and joining\<close>

lemma split_on_not_Nil [simp]: "split_on p s \<noteq> []"
  by (cases s) (auto split: list.splits)

lemma split_on_none: "\<forall>c \<in> set s. \<not> p c \<Longrightarrow> split_on p s = [s]"
  by (induction s) auto

lemma split_on_sep:
  "\<forall>c \<in> set a. \<not> p c \<Longrightarrow> p x \<Longrightarrow> split_on p (a @ x # b) = a # split_on p b"
  by (induction a) auto

lemma split_on_pieces: "w \<in> set (split_on p s) \<Longrightarrow> c \<in> set w \<Longrightarrow> \<not> p c \<and> c \<in> set s"
proof (induction s arbitrary: w c)
  case (Cons x s)
  obtain v vs where v: "split_on p s = v # vs" by (cases "split_on p s") auto
  from Cons.prems Cons.IH v show ?case
    by (auto split: if_splits) (metis list.set_intros(1) list.set_intros(2))+
qed simp

lemma split_ws_Nil [simp, rust_str]: "split_ascii_whitespace [] = []"
  by (simp add: split_ascii_whitespace_def)

lemma split_ws_token [rust_str]: "is_token w \<Longrightarrow> split_ascii_whitespace w = [w]"
  by (auto simp: split_ascii_whitespace_def is_token_def list_all_iff split_on_none)

lemma split_ws_token_sep [rust_str]:
  "is_token w \<Longrightarrow> is_ascii_whitespace x \<Longrightarrow>
   split_ascii_whitespace (w @ x # s) = w # split_ascii_whitespace s"
  by (auto simp: split_ascii_whitespace_def is_token_def list_all_iff split_on_sep)

lemma split_ws_sep [rust_str]:
  "is_ascii_whitespace x \<Longrightarrow> split_ascii_whitespace (x # s) = split_ascii_whitespace s"
  by (simp add: split_ascii_whitespace_def)

lemma split_ws_tokens: "list_all is_token (split_ascii_whitespace s)"
  by (auto simp: list_all_iff is_token_def split_ascii_whitespace_def dest: split_on_pieces)

lemma split_ws_token_mem: "w \<in> set (split_ascii_whitespace s) \<Longrightarrow> is_token w"
  using split_ws_tokens by (auto simp: list_all_iff)

lemma split_ws_join:
  "list_all is_token ws \<Longrightarrow> split_ascii_whitespace (str_join '' '' ws) = ws"
  by (induction "'' '' :: str" ws rule: str_join.induct) (auto simp: rust_str)

lemma str_join_Nil_iff: "list_all is_token ws \<Longrightarrow> str_join sep ws = [] \<longleftrightarrow> ws = []"
  by (induction sep ws rule: str_join.induct) auto

lemma is_line_join: "is_line sep \<Longrightarrow> list_all is_line ws \<Longrightarrow> is_line (str_join sep ws)"
  by (induction sep ws rule: str_join.induct) auto

lemma split_on_join:
  "ws \<noteq> [] \<Longrightarrow> p x \<Longrightarrow> \<forall>w \<in> set ws. \<forall>c \<in> set w. \<not> p c \<Longrightarrow> split_on p (str_join [x] ws) = ws"
  by (induction "[x]" ws rule: str_join.induct) (auto simp: split_on_none split_on_sep)

section \<open>Lemmas: lines\<close>

lemma strip_cr_snoc: "strip_cr (s @ [CR]) = s"
  by (simp add: strip_cr_def)

lemma str_lines_Nil [simp]: "str_lines [] = []"
  by (simp add: str_lines_def)

text \<open>What remains of a line when its terminator is gone: no line feed in it, no carriage
  return at its end.\<close>

definition line_ok :: "str \<Rightarrow> bool" where
  "line_ok s \<longleftrightarrow> LF \<notin> set s \<and> (s = [] \<or> last s \<noteq> CR)"

lemma line_ok_is_line [token_intro]: "is_line s \<Longrightarrow> line_ok s"
  by (cases s rule: rev_cases) (auto simp: line_ok_def is_line_def list_all_iff)

lemma line_ok_append: "line_ok a \<Longrightarrow> line_ok b \<Longrightarrow> line_ok (a @ b)"
  by (cases "b = []") (auto simp: line_ok_def)

lemma line_ok_suffix: "line_ok (a @ b) \<Longrightarrow> line_ok b"
  by (auto simp: line_ok_def split: if_splits)

lemma str_lines_line:
  assumes "LF \<notin> set s"
  shows "str_lines (s @ crlf @ t) = s # str_lines t"
proof -
  have "\<forall>c \<in> set (s @ [CR]). \<not> (c = LF)"
    using assms by auto
  then have "split_on (\<lambda>c. c = LF) ((s @ [CR]) @ LF # t) = (s @ [CR]) # split_on (\<lambda>c. c = LF) t"
    by (intro split_on_sep) auto
  then show ?thesis
    by (simp add: str_lines_def crlf_def strip_cr_snoc Let_def)
qed

lemma str_lines_concat:
  "list_all line_ok ls \<Longrightarrow> str_lines (concat (map (\<lambda>l. l @ crlf) ls) @ t) = ls @ str_lines t"
  by (induction ls) (auto simp: str_lines_line line_ok_def)

lemma trim_end_line: "line_ok s \<Longrightarrow> trim_end_crlf s = s"
proof -
  assume "line_ok s"
  then have "rev s = [] \<or> \<not> (hd (rev s) = CR \<or> hd (rev s) = LF)"
    by (cases s rule: rev_cases) (auto simp: line_ok_def)
  then have "dropWhile (\<lambda>c. c = CR \<or> c = LF) (rev s) = rev s"
    by (simp only: dropWhile_eq_self_iff)
  then show ?thesis
    by (simp add: trim_end_crlf_def)
qed

lemma str_lines_no_LF: "l \<in> set (str_lines s) \<Longrightarrow> LF \<notin> set l"
proof -
  assume "l \<in> set (str_lines s)"
  moreover have "LF \<notin> set p" if "p \<in> set (split_on (\<lambda>c. c = LF) s)" for p
    using that split_on_pieces [of p "\<lambda>c. c = LF" s LF] by auto
  ultimately show ?thesis
    by (auto simp: str_lines_def Let_def strip_cr_def split: if_splits
        dest: in_set_butlastD)
qed

lemma trim_end_line_ok: "LF \<notin> set l \<Longrightarrow> line_ok (trim_end_crlf l)"
proof -
  assume l: "LF \<notin> set l"
  let ?d = "dropWhile (\<lambda>c. c = CR \<or> c = LF) (rev l)"
  have "LF \<notin> set ?d" using l by (auto dest: set_dropWhileD)
  moreover have "?d = [] \<or> hd ?d \<noteq> CR"
    using hd_dropWhile [of "\<lambda>c. c = CR \<or> c = LF" "rev l"] by auto
  ultimately show ?thesis
    by (auto simp: line_ok_def trim_end_crlf_def last_rev)
qed

section \<open>Lemmas: trimming\<close>

text \<open>A character that \<open>trim\<close> stops at: ASCII and no white space.\<close>

definition ascii_solid :: "char \<Rightarrow> bool" where
  "ascii_solid c \<longleftrightarrow> code c < 128 \<and> \<not> ws1 (code c)"

lemma trim_start_solid: "ascii_solid a \<Longrightarrow> trim_start (a # s) = a # s"
  by (cases "a # s" rule: trim_start.cases) (auto simp: ascii_solid_def ws2_def ws3_def)

lemma trim_rev_solid: "ascii_solid a \<Longrightarrow> trim_rev (a # s) = a # s"
  by (cases "a # s" rule: trim_rev.cases) (auto simp: ascii_solid_def ws2_def ws3_def)

lemma str_trim_solid: "s \<noteq> [] \<Longrightarrow> ascii_solid (hd s) \<Longrightarrow> ascii_solid (last s) \<Longrightarrow> str_trim s = s"
proof -
  assume s: "s \<noteq> []" "ascii_solid (hd s)" "ascii_solid (last s)"
  then have "trim_start s = s" using trim_start_solid [of "hd s" "tl s"] by simp
  moreover have "trim_rev (rev s) = rev s"
    using s by (cases s rule: rev_cases) (auto simp: trim_rev_solid)
  ultimately show ?thesis by (simp add: str_trim_def)
qed

text \<open>A string that starts (or, reversed, ends) with a white space character.\<close>

fun ws_head :: "str \<Rightarrow> bool" where
  "ws_head [] = False"
| "ws_head [a] = ws1 (code a)"
| "ws_head [a, b] = (ws1 (code a) \<or> ws2 (code a) (code b))"
| "ws_head (a # b # c # s) = (ws1 (code a) \<or> ws2 (code a) (code b) \<or> ws3 (code a) (code b) (code c))"

lemma trim_start_id: "\<not> ws_head s \<Longrightarrow> trim_start s = s"
  by (cases s rule: ws_head.cases) auto

lemma trim_start_fixed: "\<not> ws_head (trim_start s)"
  by (induction s rule: trim_start.induct) auto

lemma ws_head_prefix: "\<not> ws_head (s @ t) \<Longrightarrow> \<not> ws_head s"
  by (cases s rule: ws_head.cases; cases t rule: ws_head.cases) auto

lemma trim_rev_suffix: "\<exists>p. s = p @ trim_rev s"
proof (induction s rule: trim_rev.induct)
  case (4 a b c s)
  then show ?case by (simp; metis append_Cons append_Nil)
qed auto

fun ws_last :: "str \<Rightarrow> bool" where
  "ws_last [] = False"
| "ws_last [a] = ws1 (code a)"
| "ws_last [a, b] = (ws1 (code a) \<or> ws2 (code b) (code a))"
| "ws_last (a # b # c # s) = (ws1 (code a) \<or> ws2 (code b) (code a) \<or> ws3 (code c) (code b) (code a))"

lemma trim_rev_id: "\<not> ws_last s \<Longrightarrow> trim_rev s = s"
  by (cases s rule: ws_last.cases) auto

lemma trim_rev_fixed: "\<not> ws_last (trim_rev s)"
  by (induction s rule: trim_rev.induct) auto

lemma str_trim_idem: "str_trim (str_trim s) = str_trim s"
proof -
  obtain p where p: "rev (trim_start s) = p @ trim_rev (rev (trim_start s))"
    using trim_rev_suffix by blast
  then have "trim_start s = str_trim s @ rev p"
    by (metis rev_append rev_rev_ident str_trim_def)
  then have "\<not> ws_head (str_trim s)"
    using trim_start_fixed ws_head_prefix by metis
  then show ?thesis
    by (simp add: str_trim_def trim_start_id trim_rev_id trim_rev_fixed)
qed

lemma trim_start_suffix: "\<exists>p. s = p @ trim_start s"
proof (induction s rule: trim_start.induct)
  case (4 a b c s)
  then show ?case by (simp; metis append_Cons append_Nil)
qed auto

lemma str_trim_subset: "set (str_trim s) \<subseteq> set s"
proof -
  obtain p q where "s = p @ trim_start s" "rev (trim_start s) = q @ trim_rev (rev (trim_start s))"
    using trim_start_suffix trim_rev_suffix by blast
  then show ?thesis
    by (metis Un_upper2 order_trans set_append set_rev str_trim_def)
qed

lemma str_trim_last: "str_trim s = [] \<or> \<not> ws1 (code (last (str_trim s)))"
proof -
  have "trim_rev t = [] \<or> \<not> ws1 (code (hd (trim_rev t)))" for t
    using trim_rev_fixed [of t] by (cases "trim_rev t" rule: ws_last.cases) auto
  then show ?thesis by (simp add: str_trim_def last_rev)
qed

lemma str_trim_line_ok: "LF \<notin> set s \<Longrightarrow> line_ok (str_trim s)"
  using str_trim_subset [of s] str_trim_last [of s]
  by (auto simp: line_ok_def ws1_def code_def)

section \<open>Lemmas: ASCII case\<close>

lemma ascii_upper_idem: "ascii_upper (ascii_upper c) = ascii_upper c"
  by (auto simp: ascii_upper_def)

lemma to_ascii_uppercase_idem [simp]: "to_ascii_uppercase (to_ascii_uppercase s) = to_ascii_uppercase s"
  by (simp add: to_ascii_uppercase_def ascii_upper_idem)

lemma ascii_upper_ws: "is_ascii_whitespace (ascii_upper c) = is_ascii_whitespace c"
  by (auto simp: ascii_upper_def is_ascii_whitespace_def)

lemma to_ascii_uppercase_token [simp]: "is_token (to_ascii_uppercase s) = is_token s"
  by (simp add: is_token_def to_ascii_uppercase_def list_all_iff ascii_upper_ws)

section \<open>Evaluation on literals\<close>

text \<open>Bundles for the witnesses: \<open>simp add:\<close> these evaluates the primitives in the kernel.\<close>

lemma ascii_case_letters:
  "ascii_upper (CHR ''a'') = CHR ''A''" "ascii_lower (CHR ''A'') = CHR ''a''"
  "ascii_upper (CHR ''b'') = CHR ''B''" "ascii_lower (CHR ''B'') = CHR ''b''"
  "ascii_upper (CHR ''c'') = CHR ''C''" "ascii_lower (CHR ''C'') = CHR ''c''"
  "ascii_upper (CHR ''d'') = CHR ''D''" "ascii_lower (CHR ''D'') = CHR ''d''"
  "ascii_upper (CHR ''e'') = CHR ''E''" "ascii_lower (CHR ''E'') = CHR ''e''"
  "ascii_upper (CHR ''f'') = CHR ''F''" "ascii_lower (CHR ''F'') = CHR ''f''"
  "ascii_upper (CHR ''g'') = CHR ''G''" "ascii_lower (CHR ''G'') = CHR ''g''"
  "ascii_upper (CHR ''h'') = CHR ''H''" "ascii_lower (CHR ''H'') = CHR ''h''"
  "ascii_upper (CHR ''i'') = CHR ''I''" "ascii_lower (CHR ''I'') = CHR ''i''"
  "ascii_upper (CHR ''j'') = CHR ''J''" "ascii_lower (CHR ''J'') = CHR ''j''"
  "ascii_upper (CHR ''k'') = CHR ''K''" "ascii_lower (CHR ''K'') = CHR ''k''"
  "ascii_upper (CHR ''l'') = CHR ''L''" "ascii_lower (CHR ''L'') = CHR ''l''"
  "ascii_upper (CHR ''m'') = CHR ''M''" "ascii_lower (CHR ''M'') = CHR ''m''"
  "ascii_upper (CHR ''n'') = CHR ''N''" "ascii_lower (CHR ''N'') = CHR ''n''"
  "ascii_upper (CHR ''o'') = CHR ''O''" "ascii_lower (CHR ''O'') = CHR ''o''"
  "ascii_upper (CHR ''p'') = CHR ''P''" "ascii_lower (CHR ''P'') = CHR ''p''"
  "ascii_upper (CHR ''q'') = CHR ''Q''" "ascii_lower (CHR ''Q'') = CHR ''q''"
  "ascii_upper (CHR ''r'') = CHR ''R''" "ascii_lower (CHR ''R'') = CHR ''r''"
  "ascii_upper (CHR ''s'') = CHR ''S''" "ascii_lower (CHR ''S'') = CHR ''s''"
  "ascii_upper (CHR ''t'') = CHR ''T''" "ascii_lower (CHR ''T'') = CHR ''t''"
  "ascii_upper (CHR ''u'') = CHR ''U''" "ascii_lower (CHR ''U'') = CHR ''u''"
  "ascii_upper (CHR ''v'') = CHR ''V''" "ascii_lower (CHR ''V'') = CHR ''v''"
  "ascii_upper (CHR ''w'') = CHR ''W''" "ascii_lower (CHR ''W'') = CHR ''w''"
  "ascii_upper (CHR ''x'') = CHR ''X''" "ascii_lower (CHR ''X'') = CHR ''x''"
  "ascii_upper (CHR ''y'') = CHR ''Y''" "ascii_lower (CHR ''Y'') = CHR ''y''"
  "ascii_upper (CHR ''z'') = CHR ''Z''" "ascii_lower (CHR ''Z'') = CHR ''z''"
  unfolding code_eq_iff [symmetric] ascii_upper_def ascii_lower_def
  by (simp_all add: code_def chr_def)

lemma ascii_case_other:
  "code c < 97 \<or> 122 < code c \<Longrightarrow> ascii_upper c = c"
  "code c < 65 \<or> 90 < code c \<Longrightarrow> ascii_lower c = c"
  by (auto simp: ascii_upper_def ascii_lower_def)

lemmas str_eval =
  split_ascii_whitespace_def is_ascii_whitespace_def is_ascii_digit_def is_ascii_hexdigit_def
  code_def to_ascii_lowercase_def to_ascii_uppercase_def eq_ignore_ascii_case_def
  ascii_case_letters ascii_case_other str_lines_def strip_cr_def trim_end_crlf_def
  str_trim_def ws1_def ws2_def ws3_def crlf_def Let_def is_token_def is_line_def
  utf8_width_def utf8_cont_def utf8_second_def

end
