(* ===== verification/Rust_Num.thy ===== *)
theory Rust_Num
  imports Rust_Str
begin

text \<open>
  Decimal and hexadecimal numbers the way Rust's standard library prints and parses
  them: \<open>to_string\<close> and \<open>{:x}\<close> on unsigned integers, and \<open>str::parse\<close> for the
  unsigned types, which takes one optional \<open>+\<close>, needs a digit, and fails on overflow.
\<close>

section \<open>Printing\<close>

definition digit_char :: "nat \<Rightarrow> char" where
  "digit_char d = chr (if d < 10 then 48 + d else 87 + d)"

fun radix_str :: "nat \<Rightarrow> nat \<Rightarrow> str" where
  "radix_str b n = (if b < 2 \<or> n < b then [digit_char n]
     else radix_str b (n div b) @ [digit_char (n mod b)])"

declare radix_str.simps [simp del]

definition dec_str :: "nat \<Rightarrow> str" where
  "dec_str n = radix_str 10 n"

definition hex_str :: "nat \<Rightarrow> str" where
  "hex_str n = radix_str 16 n"

text \<open>\<open>to_string\<close> of an unsigned word.\<close>

definition word_str :: "'a::len word \<Rightarrow> str" where
  "word_str w = dec_str (unat w)"

section \<open>Parsing\<close>

text \<open>\<open>char::to_digit\<close>.\<close>

definition to_digit :: "nat \<Rightarrow> char \<Rightarrow> nat option" where
  "to_digit radix c =
     (let n = code c;
          v = (if 48 \<le> n \<and> n \<le> 57 then Some (n - 48)
               else if 97 \<le> n \<and> n \<le> 122 then Some (n - 87)
               else if 65 \<le> n \<and> n \<le> 90 then Some (n - 55) else None)
      in case v of None \<Rightarrow> None | Some d \<Rightarrow> if d < radix then Some d else None)"

text \<open>The checked digit loop of \<open>from_str_radix\<close>: \<open>max + 1\<close> is the first value that
  does not fit.\<close>

fun parse_digits :: "nat \<Rightarrow> nat \<Rightarrow> nat \<Rightarrow> str \<Rightarrow> nat option" where
  "parse_digits radix bound acc [] = Some acc"
| "parse_digits radix bound acc (c # cs) =
     (case to_digit radix c of
        None \<Rightarrow> None
      | Some d \<Rightarrow> if acc * radix + d < bound then parse_digits radix bound (acc * radix + d) cs
                  else None)"

definition parse_unsigned :: "nat \<Rightarrow> str \<Rightarrow> nat option" where
  "parse_unsigned bound s =
     (case s of
        [] \<Rightarrow> None
      | c # cs \<Rightarrow>
          if cs = [] \<and> (c = CHR ''+'' \<or> c = CHR ''-'') then None
          else if c = CHR ''+'' then parse_digits 10 bound 0 cs
          else parse_digits 10 bound 0 s)"

definition parse_word :: "str \<Rightarrow> 'a::len word option" where
  "parse_word s = map_option of_nat (parse_unsigned (2 ^ LENGTH('a)) s)"

abbreviation parse_u16 :: "str \<Rightarrow> u16 option" where "parse_u16 \<equiv> parse_word"
abbreviation parse_u32 :: "str \<Rightarrow> u32 option" where "parse_u32 \<equiv> parse_word"
abbreviation parse_usize :: "str \<Rightarrow> usize option" where "parse_usize \<equiv> parse_word"

section \<open>Printing then parsing\<close>

lemma code_digit_char: "d < 16 \<Longrightarrow> code (digit_char d) = (if d < 10 then 48 + d else 87 + d)"
  by (simp add: digit_char_def)

lemma to_digit_digit_char [simp]: "d < r \<Longrightarrow> r \<le> 16 \<Longrightarrow> to_digit r (digit_char d) = Some d"
  by (auto simp: to_digit_def code_digit_char)

lemma parse_digits_append:
  "parse_digits r B a (s @ t) =
     (case parse_digits r B a s of None \<Rightarrow> None | Some b \<Rightarrow> parse_digits r B b t)"
  by (induction s arbitrary: a) (auto split: option.splits)

lemma parse_digits_radix_str:
  assumes "2 \<le> r" "r \<le> 16" "n < B"
  shows "parse_digits r B 0 (radix_str r n) = Some n"
  using assms
proof (induction r n rule: radix_str.induct)
  case (1 r n)
  show ?case
  proof (cases "n < r")
    case True
    with 1 show ?thesis by (simp add: radix_str.simps [of r n])
  next
    case False
    have "n div r \<le> n" by simp
    with 1 False have IH: "parse_digits r B 0 (radix_str r (n div r)) = Some (n div r)"
      by (simp add: order_le_less_trans)
    have "radix_str r n = radix_str r (n div r) @ [digit_char (n mod r)]"
      using False 1 by (simp add: radix_str.simps [of r n])
    with IH 1 show ?thesis
      by (simp add: parse_digits_append)
  qed
qed

lemma radix_str_not_Nil [simp]: "radix_str r n \<noteq> []"
  by (subst radix_str.simps) simp

text \<open>Every character of a printed number is a digit of its radix.\<close>

lemma radix_str_digits:
  assumes "2 \<le> r" "c \<in> set (radix_str r n)"
  shows "\<exists>d < r. c = digit_char d"
  using assms
proof (induction r n rule: radix_str.induct)
  case (1 r n)
  show ?case
  proof (cases "n < r")
    case True
    with 1 show ?thesis by (auto simp: radix_str.simps [of r n])
  next
    case False
    with 1 have "c \<in> set (radix_str r (n div r)) \<or> c = digit_char (n mod r)"
      by (auto simp: radix_str.simps [of r n])
    then show ?thesis
    proof
      assume "c \<in> set (radix_str r (n div r))"
      with 1 False show ?thesis by simp
    next
      assume "c = digit_char (n mod r)"
      moreover have "n mod r < r" using 1 by simp
      ultimately show ?thesis by blast
    qed
  qed
qed

lemma radix_str_length:
  assumes "2 \<le> r" "n < r ^ k" "0 < k"
  shows "length (radix_str r n) \<le> k"
  using assms
proof (induction r n arbitrary: k rule: radix_str.induct)
  case (1 r n)
  show ?case
  proof (cases "n < r")
    case True
    with 1 show ?thesis by (simp add: radix_str.simps [of r n])
  next
    case False
    with 1 have "k \<noteq> 1" by auto
    with 1 obtain j where k: "k = Suc j" "0 < j" by (cases k) auto
    with 1 have "n div r < r ^ j"
      by (simp add: less_mult_imp_div_less mult.commute)
    with 1 False k have "length (radix_str r (n div r)) \<le> j" by simp
    with False 1 k show ?thesis by (simp add: radix_str.simps [of r n])
  qed
qed

text \<open>No leading zero unless the number is zero.\<close>

lemma radix_str_hd:
  assumes "2 \<le> r" "r \<le> 16" "0 < n"
  shows "hd (radix_str r n) \<noteq> CHR ''0''"
  using assms
proof (induction r n rule: radix_str.induct)
  case (1 r n)
  show ?case
  proof (cases "n < r")
    case True
    have "code (digit_char n) \<noteq> code (CHR ''0'')"
      using True 1 by (simp add: code_digit_char) (simp add: code_def)
    then have "digit_char n \<noteq> CHR ''0''" by metis
    with True 1 show ?thesis by (simp add: radix_str.simps [of r n])
  next
    case False
    with 1 have "hd (radix_str r (n div r)) \<noteq> CHR ''0''" by (simp add: div_greater_zero_iff)
    with False 1 show ?thesis by (simp add: radix_str.simps [of r n])
  qed
qed

lemma digit_char_facts:
  assumes "d < 16"
  shows "\<not> is_ascii_whitespace (digit_char d)" "digit_char d \<noteq> CHR ''+''"
    "digit_char d \<noteq> CHR '':''" "digit_char d \<noteq> CHR ''.''" "digit_char d \<noteq> CHR ''-''"
proof -
  have c: "code (digit_char d) \<in> {48..57} \<union> {97..102}"
    using assms by (auto simp: code_digit_char)
  show "\<not> is_ascii_whitespace (digit_char d)"
    using c by (auto simp: is_ascii_whitespace_def)
  have "code (CHR ''+'') = 43" "code (CHR '':'') = 58" "code (CHR ''.'') = 46" "code (CHR ''-'') = 45"
    by (simp_all add: code_def)
  with c show "digit_char d \<noteq> CHR ''+''" "digit_char d \<noteq> CHR '':''" "digit_char d \<noteq> CHR ''.''"
    "digit_char d \<noteq> CHR ''-''"
    by fastforce+
qed

lemma dec_str_chars:
  "c \<in> set (dec_str n) \<Longrightarrow> \<exists>d < 10. c = digit_char d"
  unfolding dec_str_def by (rule radix_str_digits) auto

lemma hex_str_chars:
  "c \<in> set (hex_str n) \<Longrightarrow> \<exists>d < 16. c = digit_char d"
  unfolding hex_str_def by (rule radix_str_digits) auto

lemma dec_str_token [token_intro, simp]: "is_token (dec_str n)"
  by (auto simp: is_token_def list_all_iff dec_str_def digit_char_facts dest!: radix_str_digits [rotated])

lemma word_str_token [token_intro, simp]: "is_token (word_str w)"
  by (simp add: word_str_def)

lemma parse_unsigned_dec_str: "n < B \<Longrightarrow> parse_unsigned B (dec_str n) = Some n"
proof -
  assume n: "n < B"
  obtain c cs where s: "dec_str n = c # cs"
    by (cases "dec_str n") (auto simp: dec_str_def)
  then obtain d where "d < 10" "c = digit_char d"
    using dec_str_chars [of c n] by auto
  then have "c \<noteq> CHR ''+''" "c \<noteq> CHR ''-''"
    using digit_char_facts [of d] by auto
  moreover have "parse_digits 10 B 0 (dec_str n) = Some n"
    unfolding dec_str_def using n by (intro parse_digits_radix_str) auto
  ultimately show ?thesis
    by (simp add: parse_unsigned_def s)
qed

lemma parse_word_word_str [simp]: "parse_word (word_str (w :: 'a::len word)) = Some w"
  by (simp add: parse_word_def word_str_def parse_unsigned_dec_str)

lemma parse_digits_bound: "parse_digits r B a s = Some n \<Longrightarrow> a < B \<Longrightarrow> n < B"
  by (induction s arbitrary: a) (auto split: option.splits if_splits)

lemma parse_unsigned_bound: "parse_unsigned B s = Some n \<Longrightarrow> 0 < B \<Longrightarrow> n < B"
  by (auto simp: parse_unsigned_def simp del: parse_digits.simps
      dest: parse_digits_bound split: list.splits if_splits)

lemma dec_str_inj: "dec_str m = dec_str n \<longleftrightarrow> m = n"
proof
  assume eq: "dec_str m = dec_str n"
  have "parse_unsigned (Suc (m + n)) (dec_str m) = Some m"
    by (rule parse_unsigned_dec_str) simp
  moreover have "parse_unsigned (Suc (m + n)) (dec_str n) = Some n"
    by (rule parse_unsigned_dec_str) simp
  ultimately show "m = n" by (metis eq option.inject)
qed simp

interpretation word_codec: exact_codec word_str "parse_word :: str \<Rightarrow> 'a::len word option" "\<lambda>_. True"
  by unfold_locales simp

lemma digit_char_eval:
  "digit_char 0 = CHR ''0''" "digit_char (Suc 0) = CHR ''1''" "digit_char 1 = CHR ''1''"
  "digit_char 2 = CHR ''2''" "digit_char 3 = CHR ''3''" "digit_char 4 = CHR ''4''"
  "digit_char 5 = CHR ''5''" "digit_char 6 = CHR ''6''" "digit_char 7 = CHR ''7''"
  "digit_char 8 = CHR ''8''" "digit_char 9 = CHR ''9''" "digit_char 10 = CHR ''a''"
  "digit_char 11 = CHR ''b''" "digit_char 12 = CHR ''c''" "digit_char 13 = CHR ''d''"
  "digit_char 14 = CHR ''e''" "digit_char 15 = CHR ''f''"
  unfolding code_eq_iff [symmetric] by (simp_all add: code_digit_char) (simp_all add: code_def)

lemmas num_eval =
  str_eval parse_word_def parse_unsigned_def to_digit_def word_str_def dec_str_def hex_str_def
  radix_str.simps digit_char_eval

end
