(* ===== verification/Rust_Ip.thy ===== *)
theory Rust_Ip
  imports Rust_Num
begin

text \<open>
  \<open>std::net::IpAddr\<close>: the parser and the printer of the standard library. A parser
  takes the rest of the input and returns a value and the new rest, or \<open>None\<close> having
  consumed nothing (the library's \<open>read_atomically\<close>). The last section proves that a
  printed address parses back to itself.
\<close>

datatype ip_addr = IpAddr_V4 u8 u8 u8 u8 | IpAddr_V6 "u16 list"

text \<open>An IPv6 address has eight groups; the parser only builds such ones.\<close>

definition ip_wf :: "ip_addr \<Rightarrow> bool" where
  "ip_wf ip = (case ip of IpAddr_V4 a b c d \<Rightarrow> True | IpAddr_V6 gs \<Rightarrow> length gs = 8)"

section \<open>Parsing\<close>

definition read_given_char :: "char \<Rightarrow> str \<Rightarrow> str option" where
  "read_given_char c s = (case s of [] \<Rightarrow> None | x # r \<Rightarrow> if x = c then Some r else None)"

definition read_number :: "nat \<Rightarrow> nat \<Rightarrow> bool \<Rightarrow> nat \<Rightarrow> str \<Rightarrow> (nat \<times> str) option" where
  "read_number radix max_digits allow_zero_prefix bound s =
     (let ds = takeWhile (\<lambda>c. to_digit radix c \<noteq> None) s;
          rest = dropWhile (\<lambda>c. to_digit radix c \<noteq> None) s
      in if length ds > max_digits \<or> ds = [] then None
         else if \<not> allow_zero_prefix \<and> hd ds = CHR ''0'' \<and> length ds > 1 then None
         else map_option (\<lambda>n. (n, rest)) (parse_digits radix bound 0 ds))"

definition read_separator :: "char \<Rightarrow> nat \<Rightarrow> (str \<Rightarrow> 'a option) \<Rightarrow> str \<Rightarrow> 'a option" where
  "read_separator sep i inner s =
     (if 0 < i then Option.bind (read_given_char sep s) inner else inner s)"

definition read_octet :: "nat \<Rightarrow> str \<Rightarrow> (nat \<times> str) option" where
  "read_octet i = read_separator (CHR ''.'') i (read_number 10 3 False 256)"

definition read_ipv4_addr :: "str \<Rightarrow> ((nat \<times> nat \<times> nat \<times> nat) \<times> str) option" where
  "read_ipv4_addr s = do {
     (a, s) \<leftarrow> read_octet 0 s;
     (b, s) \<leftarrow> read_octet 1 s;
     (c, s) \<leftarrow> read_octet 2 s;
     (d, s) \<leftarrow> read_octet 3 s;
     Some ((a, b, c, d), s) }"

text \<open>
  \<open>read_groups k i s\<close>: up to \<open>k\<close> more groups, \<open>i\<close> of them read before. An embedded
  IPv4 address stands for two groups, so it is tried only where two are left.
\<close>

fun read_groups :: "nat \<Rightarrow> nat \<Rightarrow> str \<Rightarrow> nat list \<times> bool \<times> str" where
  "read_groups 0 i s = ([], False, s)"
| "read_groups (Suc k) i s =
     (case (if 0 < k then read_separator (CHR '':'') i read_ipv4_addr s else None) of
        Some ((a, b, c, d), r) \<Rightarrow> ([a * 256 + b, c * 256 + d], True, r)
      | None \<Rightarrow>
          (case read_separator (CHR '':'') i (read_number 16 4 True 65536) s of
             None \<Rightarrow> ([], False, s)
           | Some (g, r) \<Rightarrow>
               (case read_groups k (Suc i) r of (gs, v4, r') \<Rightarrow> (g # gs, v4, r'))))"

definition read_ipv6_addr :: "str \<Rightarrow> (nat list \<times> str) option" where
  "read_ipv6_addr s =
     (case read_groups 8 0 s of
        (head, head_v4, s1) \<Rightarrow>
          if length head = 8 then Some (head, s1)
          else if head_v4 then None
          else do {
            s2 \<leftarrow> read_given_char (CHR '':'') s1;
            s3 \<leftarrow> read_given_char (CHR '':'') s2;
            (case read_groups (8 - (length head + 1)) 0 s3 of
               (tail, _, s4) \<Rightarrow>
                 Some (head @ replicate (8 - length head - length tail) 0 @ tail, s4)) })"

definition read_ip_addr :: "str \<Rightarrow> (ip_addr \<times> str) option" where
  "read_ip_addr s =
     (case read_ipv4_addr s of
        Some ((a, b, c, d), r) \<Rightarrow> Some (IpAddr_V4 (of_nat a) (of_nat b) (of_nat c) (of_nat d), r)
      | None \<Rightarrow> map_option (\<lambda>(gs, r). (IpAddr_V6 (map of_nat gs), r)) (read_ipv6_addr s))"

definition parse_ip :: "str \<Rightarrow> ip_addr option" where
  "parse_ip s =
     (case read_ip_addr s of Some (ip, r) \<Rightarrow> if r = [] then Some ip else None | None \<Rightarrow> None)"

section \<open>Printing\<close>

definition ipv4_str :: "u8 \<Rightarrow> u8 \<Rightarrow> u8 \<Rightarrow> u8 \<Rightarrow> str" where
  "ipv4_str a b c d = str_join ''.'' [word_str a, word_str b, word_str c, word_str d]"

text \<open>The longest run of zero groups, the first one among equals.\<close>

fun zero_span :: "nat \<Rightarrow> nat \<times> nat \<Rightarrow> nat \<times> nat \<Rightarrow> u16 list \<Rightarrow> nat \<times> nat" where
  "zero_span i longest cur [] = longest"
| "zero_span i longest (cs, cl) (g # gs) =
     (if g = 0 then
        let c = (if cl = 0 then i else cs, Suc cl)
        in zero_span (Suc i) (if snd longest < snd c then c else longest) c gs
      else zero_span (Suc i) longest (0, 0) gs)"

definition groups_str :: "u16 list \<Rightarrow> str" where
  "groups_str gs = str_join '':'' (map (\<lambda>g. hex_str (unat g)) gs)"

text \<open>\<open>to_ipv4_mapped\<close>: the addresses \<open>::ffff:a.b.c.d\<close>.\<close>

definition to_ipv4_mapped :: "u16 list \<Rightarrow> (u8 \<times> u8 \<times> u8 \<times> u8) option" where
  "to_ipv4_mapped gs =
     (if length gs = 8 \<and> take 6 gs = [0, 0, 0, 0, 0, 0xffff] then
        Some (of_nat (unat (gs ! 6) div 256), of_nat (unat (gs ! 6) mod 256),
              of_nat (unat (gs ! 7) div 256), of_nat (unat (gs ! 7) mod 256))
      else None)"

definition ipv6_str :: "u16 list \<Rightarrow> str" where
  "ipv6_str gs =
     (case to_ipv4_mapped gs of
        Some (a, b, c, d) \<Rightarrow> ''::ffff:'' @ ipv4_str a b c d
      | None \<Rightarrow>
          (case zero_span 0 (0, 0) (0, 0) gs of
             (start, len) \<Rightarrow>
               if 1 < len then groups_str (take start gs) @ ''::'' @ groups_str (drop (start + len) gs)
               else groups_str gs))"

definition ip_str :: "ip_addr \<Rightarrow> str" where
  "ip_str ip = (case ip of IpAddr_V4 a b c d \<Rightarrow> ipv4_str a b c d | IpAddr_V6 gs \<Rightarrow> ipv6_str gs)"

section \<open>Numbers inside addresses\<close>

text \<open>What may follow a number: nothing, or a character that is no digit of the radix.\<close>

definition ends_number :: "nat \<Rightarrow> str \<Rightarrow> bool" where
  "ends_number r s \<longleftrightarrow> s = [] \<or> to_digit r (hd s) = None"

lemma ends_number_simps [simp]:
  "ends_number r []"
  "ends_number r (CHR '':'' # s)"
  "ends_number r (CHR ''.'' # s)"
  by (simp_all add: ends_number_def to_digit_def code_def)

lemma read_number_radix_str:
  assumes "2 \<le> r" "r \<le> 16" "n < B" "n < r ^ m" "0 < m" "ends_number r rest"
    and "z \<or> length (radix_str r n) = 1 \<or> hd (radix_str r n) \<noteq> CHR ''0''"
  shows "read_number r m z B (radix_str r n @ rest) = Some (n, rest)"
proof -
  have digits: "\<And>c. c \<in> set (radix_str r n) \<Longrightarrow> to_digit r c \<noteq> None"
  proof -
    fix c assume "c \<in> set (radix_str r n)"
    then obtain d where "d < r" "c = digit_char d"
      using assms(1) radix_str_digits by blast
    with assms(2) show "to_digit r c \<noteq> None" by simp
  qed
  have r: "rest = [] \<or> \<not> to_digit r (hd rest) \<noteq> None"
    using assms(6) by (auto simp: ends_number_def)
  have "takeWhile (\<lambda>c. to_digit r c \<noteq> None) (radix_str r n @ rest) = radix_str r n"
    by (rule takeWhile_all_append(1)) (use digits r in auto)
  moreover have "dropWhile (\<lambda>c. to_digit r c \<noteq> None) (radix_str r n @ rest) = rest"
    by (rule takeWhile_all_append(2)) (use digits r in auto)
  moreover have "length (radix_str r n) \<le> m"
    by (rule radix_str_length) (use assms in auto)
  moreover have "parse_digits r B 0 (radix_str r n) = Some n"
    by (rule parse_digits_radix_str) (use assms in auto)
  ultimately show ?thesis
    using assms(7) by (auto simp: read_number_def Let_def)
qed

lemma read_number_dec:
  assumes "n < 256" "ends_number 10 rest"
  shows "read_number 10 3 False 256 (dec_str n @ rest) = Some (n, rest)"
  unfolding dec_str_def
proof (rule read_number_radix_str)
  show "False \<or> length (radix_str 10 n) = 1 \<or> hd (radix_str 10 n) \<noteq> CHR ''0''"
  proof (cases "n = 0")
    case True
    then show ?thesis by (simp add: radix_str.simps [of 10 0])
  next
    case False
    then show ?thesis using radix_str_hd [of 10 n] by simp
  qed
qed (use assms in auto)

lemma read_number_hex:
  "g < 65536 \<Longrightarrow> ends_number 16 rest \<Longrightarrow>
   read_number 16 4 True 65536 (hex_str g @ rest) = Some (g, rest)"
  unfolding hex_str_def by (rule read_number_radix_str) auto

lemma read_number_none:
  "s = [] \<or> to_digit r (hd s) = None \<Longrightarrow> read_number r m z B s = None"
  by (cases s) (auto simp: read_number_def)

section \<open>IPv4: printing then parsing\<close>

lemma read_ipv4_addr_ipv4_str:
  assumes "ends_number 10 rest"
  shows "read_ipv4_addr (ipv4_str a b c d @ rest) = Some ((unat a, unat b, unat c, unat d), rest)"
proof -
  have lt: "unat x < 256" for x :: u8
    using unsigned_less [of x] by simp
  show ?thesis
    using assms
    by (simp add: read_ipv4_addr_def ipv4_str_def word_str_def read_octet_def read_separator_def
        read_given_char_def read_number_dec lt)
qed

lemma read_octet_dot: "read_octet (Suc i) s \<noteq> None \<Longrightarrow> CHR ''.'' \<in> set s"
  by (cases s) (auto simp: read_octet_def read_separator_def read_given_char_def split: if_splits)

lemma read_number_rest: "read_number r m z B s = Some (n, t) \<Longrightarrow> set t \<subseteq> set s"
  by (auto simp: read_number_def Let_def dest: set_dropWhileD split: if_splits)

text \<open>Input without a dot is no IPv4 address, nor the start of one.\<close>

lemma read_ipv4_addr_needs_dot: "CHR ''.'' \<notin> set s \<Longrightarrow> read_ipv4_addr s = None"
proof -
  assume dot: "CHR ''.'' \<notin> set s"
  show ?thesis
  proof (cases "read_octet 0 s")
    case None
    then show ?thesis by (simp add: read_ipv4_addr_def)
  next
    case (Some p)
    then obtain a t where t: "read_octet 0 s = Some (a, t)" by (cases p) auto
    then have "set t \<subseteq> set s"
      by (auto simp: read_octet_def read_separator_def dest!: read_number_rest)
    with dot have "read_octet 1 t = None" using read_octet_dot [of 0 t] by fastforce
    with t show ?thesis by (simp add: read_ipv4_addr_def)
  qed
qed

lemma read_separator_ipv4_needs_dot:
  "CHR ''.'' \<notin> set s \<Longrightarrow> read_separator sep i read_ipv4_addr s = None"
  by (cases s) (auto simp: read_separator_def read_given_char_def read_ipv4_addr_needs_dot)

section \<open>IPv6: printing then parsing\<close>

text \<open>The groups as \<open>read_groups\<close> sees them after \<open>i\<close> groups: a colon before each but
  the first.\<close>

fun sep_groups :: "nat \<Rightarrow> nat list \<Rightarrow> str" where
  "sep_groups i [] = []"
| "sep_groups i (g # gs) = (if 0 < i then '':'' else []) @ hex_str g @ sep_groups (Suc i) gs"

lemma groups_str_sep: "groups_str gs = sep_groups 0 (map unat gs)"
proof -
  have "gs \<noteq> [] \<Longrightarrow> '':'' @ groups_str gs = sep_groups (Suc i) (map unat gs)" for i gs
  proof (induction gs arbitrary: i)
    case (Cons g gs)
    then show ?case by (cases gs) (auto simp: groups_str_def)
  qed simp
  note rest = this
  show ?thesis
  proof (cases gs)
    case (Cons g hs)
    then show ?thesis
      using rest [of hs 0] by (cases hs) (auto simp: groups_str_def)
  qed (simp add: groups_str_def)
qed

lemma hex_str_no_dot: "CHR ''.'' \<notin> set (hex_str n)"
  using hex_str_chars [of "CHR ''.''" n] digit_char_facts(4) by metis

lemma sep_groups_no_dot: "CHR ''.'' \<notin> set (sep_groups i gs)"
  by (induction gs arbitrary: i) (auto simp: hex_str_no_dot)

lemma sep_groups_ends: "ends_number 16 rest \<Longrightarrow> ends_number 16 (sep_groups (Suc i) gs @ rest)"
  by (cases gs) auto

text \<open>
  The groups are read back whatever follows, as long as what follows is not taken for
  one more group: the end of the text, or the \<open>::\<close> of a compressed address.
\<close>

lemma read_groups_sep_groups:
  assumes "length gs \<le> k" "\<forall>g \<in> set gs. g < 65536"
    and "rest = [] \<or> (\<exists>t. rest = CHR '':'' # CHR '':'' # t \<and> CHR ''.'' \<notin> set t)"
  shows "read_groups k i (sep_groups i gs @ rest) = (gs, False, rest)"
  using assms
proof (induction gs arbitrary: i k)
  case Nil
  have dot: "CHR ''.'' \<notin> set rest" using Nil by auto
  have "read_separator (CHR '':'') i (read_number 16 4 True 65536) rest = None"
    using Nil by (auto simp: read_separator_def read_given_char_def read_number_none
        to_digit_def code_def)
  with dot show ?case
    by (cases k) (auto simp: read_separator_ipv4_needs_dot)
next
  case (Cons g gs)
  then obtain k' where k: "k = Suc k'" by (cases k) auto
  let ?s = "sep_groups i (g # gs) @ rest"
  have dot: "CHR ''.'' \<notin> set ?s" using Cons.prems sep_groups_no_dot [of i "g # gs"] by auto
  have ends: "ends_number 16 (sep_groups (Suc i) gs @ rest)"
    by (rule sep_groups_ends) (use Cons.prems in auto)
  have num: "read_separator (CHR '':'') i (read_number 16 4 True 65536) ?s
      = Some (g, sep_groups (Suc i) gs @ rest)"
    using Cons.prems ends
    by (cases i) (simp_all add: read_separator_def read_given_char_def read_number_hex)
  have IH: "read_groups k' (Suc i) (sep_groups (Suc i) gs @ rest) = (gs, False, rest)"
    by (rule Cons.IH) (use Cons.prems k in auto)
  show ?case
    unfolding k read_groups.simps read_separator_ipv4_needs_dot [OF dot] num
    by (simp add: IH)
qed

text \<open>The span that \<open>ipv6_str\<close> leaves out holds zeros only.\<close>

definition zero_run :: "u16 list \<Rightarrow> nat \<times> nat \<Rightarrow> bool" where
  "zero_run gs p \<longleftrightarrow> fst p + snd p \<le> length gs \<and> take (snd p) (drop (fst p) gs) = replicate (snd p) 0"

lemma zero_run_extend:
  "zero_run gs (st, n) \<Longrightarrow> st + n < length gs \<Longrightarrow> gs ! (st + n) = 0 \<Longrightarrow> zero_run gs (st, Suc n)"
  by (simp add: zero_run_def take_Suc_conv_app_nth replicate_append_same [symmetric])

lemma zero_span_run:
  assumes "zero_run gs longest" "zero_run gs cur" "i \<le> length gs"
    and "snd cur \<noteq> 0 \<Longrightarrow> fst cur + snd cur = i"
  shows "zero_run gs (zero_span i longest cur (drop i gs))"
  using assms
proof (induction "length gs - i" arbitrary: i longest cur)
  case 0
  then show ?case by simp
next
  case (Suc k)
  then have i: "i < length gs" by simp
  obtain cs cl where cur: "cur = (cs, cl)" by (cases cur)
  have drop: "drop i gs = gs ! i # drop (Suc i) gs" using i by (simp add: Cons_nth_drop_Suc)
  show ?case
  proof (cases "gs ! i = 0")
    case True
    define c where "c = (if cl = 0 then i else cs, Suc cl)"
    have run: "zero_run gs c"
    proof (cases "cl = 0")
      case True
      have "zero_run gs (i, 0)" using i by (simp add: zero_run_def)
      then have "zero_run gs (i, Suc 0)" by (rule zero_run_extend) (use i \<open>gs ! i = 0\<close> in auto)
      with True show ?thesis by (simp add: c_def)
    next
      case False
      with Suc.prems cur have "cs + cl = i" by simp
      then have "zero_run gs (cs, Suc cl)"
        using Suc.prems(2) cur i \<open>gs ! i = 0\<close> by (intro zero_run_extend) auto
      with False show ?thesis by (simp add: c_def)
    qed
    have "zero_run gs (zero_span (Suc i) (if snd longest < snd c then c else longest) c (drop (Suc i) gs))"
      by (rule Suc.hyps) (use Suc.hyps(2) Suc.prems run i cur in \<open>auto simp: c_def split: if_splits\<close>)
    then show ?thesis
      unfolding drop cur zero_span.simps Let_def c_def using True by simp
  next
    case False
    have "zero_run gs (zero_span (Suc i) longest (0, 0) (drop (Suc i) gs))"
      by (rule Suc.hyps) (use Suc.hyps(2) Suc.prems i in \<open>auto simp: zero_run_def\<close>)
    with False show ?thesis by (simp add: drop cur)
  qed
qed

lemma zero_run_split:
  assumes "zero_run gs (st, n)"
  shows "gs = take st gs @ replicate n 0 @ drop (st + n) gs"
proof -
  have "drop st gs = take n (drop st gs) @ drop n (drop st gs)"
    by (rule append_take_drop_id [symmetric])
  moreover have "take n (drop st gs) = replicate n 0" "drop n (drop st gs) = drop (st + n) gs"
    using assms by (simp_all add: zero_run_def add.commute)
  ultimately have "drop st gs = replicate n 0 @ drop (st + n) gs" by metis
  then show ?thesis by (metis append_take_drop_id)
qed

text \<open>A compressed address: head, \<open>::\<close>, tail.\<close>

lemma read_ipv6_addr_compressed:
  assumes "length h + n + length t = 8" "1 < n"
    and "\<forall>g \<in> set h. g < 65536" "\<forall>g \<in> set t. g < 65536"
  shows "read_ipv6_addr (sep_groups 0 h @ ''::'' @ sep_groups 0 t) = Some (h @ replicate n 0 @ t, [])"
proof -
  have head: "read_groups 8 0 (sep_groups 0 h @ ''::'' @ sep_groups 0 t) = (h, False, ''::'' @ sep_groups 0 t)"
    by (rule read_groups_sep_groups) (use assms sep_groups_no_dot [of 0 t] in auto)
  have tail: "read_groups (8 - (length h + 1)) 0 (sep_groups 0 t) = (t, False, [])"
    using read_groups_sep_groups [of t "8 - (length h + 1)" "[]" 0] assms by auto
  have "8 - length h - length t = n" "length h \<noteq> 8" using assms by auto
  with tail show ?thesis
    unfolding read_ipv6_addr_def head by (simp add: read_given_char_def)
qed

lemma read_ipv6_addr_full:
  "length gs = 8 \<Longrightarrow> \<forall>g \<in> set gs. g < 65536 \<Longrightarrow> read_ipv6_addr (sep_groups 0 gs) = Some (gs, [])"
  using read_groups_sep_groups [of gs 8 "[]" 0] by (simp add: read_ipv6_addr_def)

lemma hex_str_ffff: "hex_str 65535 = ''ffff''"
proof -
  have "digit_char 15 = CHR ''f''"
    unfolding code_eq_iff [symmetric] by (simp add: code_digit_char) (simp add: code_def)
  then show ?thesis by (simp add: hex_str_def radix_str.simps)
qed

lemma read_ipv6_addr_mapped:
  "read_ipv6_addr (''::ffff:'' @ ipv4_str a b c d)
     = Some ([0, 0, 0, 0, 0, 65535, unat a * 256 + unat b, unat c * 256 + unat d], [])"
proof -
  have v4: "read_ipv4_addr (ipv4_str a b c d) = Some ((unat a, unat b, unat c, unat d), [])"
    using read_ipv4_addr_ipv4_str [of "[]" a b c d] by simp
  have num: "read_number 16 4 True 65536 (''ffff'' @ '':'' @ r) = Some (65535, '':'' @ r)" for r
    unfolding hex_str_ffff [symmetric] by (rule read_number_hex) simp_all
  have no_octet: "read_ipv4_addr (CHR ''f'' # r) = None" for r
    by (simp add: read_ipv4_addr_def read_octet_def read_separator_def read_number_def
        to_digit_def code_def)
  have head: "read_groups (Suc 7) 0 (''::'' @ r) = ([], False, ''::'' @ r)" for r
    unfolding read_groups.simps
    by (simp add: read_separator_def read_ipv4_addr_def read_octet_def
        read_number_def to_digit_def code_def)
  have "read_groups (Suc (Suc 5)) 0 (''ffff:'' @ ipv4_str a b c d) =
     ([65535, unat a * 256 + unat b, unat c * 256 + unat d], True, [])"
    using num [of "ipv4_str a b c d"] no_octet v4
    unfolding read_groups.simps by (simp add: read_separator_def read_given_char_def)
  then have "read_groups 7 0 (''ffff:'' @ ipv4_str a b c d) =
     ([65535, unat a * 256 + unat b, unat c * 256 + unat d], True, [])" by simp
  moreover have "read_groups 8 0 (''::'' @ r) = ([], False, ''::'' @ r)" for r
    using head [of r] by simp
  moreover have "replicate 5 (0::nat) = [0, 0, 0, 0, 0]" by (simp add: numeral_eq_Suc)
  ultimately show ?thesis
    by (simp add: read_ipv6_addr_def read_given_char_def)
qed

lemma list_8_split:
  "length gs = 8 \<Longrightarrow> take 6 gs = ps \<Longrightarrow> gs = ps @ [gs ! 6, gs ! 7]"
  by (auto simp: numeral_eq_Suc length_Suc_conv)

lemma u16_split:
  fixes g :: u16
  shows "of_nat (unat (of_nat (unat g div 256) :: u8) * 256 + unat (of_nat (unat g mod 256) :: u8)) = g"
proof -
  have "unat g < 65536" using unsigned_less [of g] by simp
  then have "unat g div 256 < 256" by simp
  then have "unat (of_nat (unat g div 256) :: u8) = unat g div 256"
    "unat (of_nat (unat g mod 256) :: u8) = unat g mod 256"
    by (simp_all add: unat_of_nat)
  then show ?thesis by simp
qed

lemma read_ipv6_addr_ipv6_str:
  assumes "length gs = 8"
  shows "\<exists>ns. read_ipv6_addr (ipv6_str gs) = Some (ns, []) \<and> map of_nat ns = gs"
proof (cases "to_ipv4_mapped gs")
  case None
  have lt: "\<forall>n \<in> set (map unat (xs :: u16 list)). n < 65536" for xs
  proof -
    have "unat x < 65536" for x :: u16 using unsigned_less [of x] by simp
    then show ?thesis by auto
  qed
  obtain st n where span: "zero_span 0 (0, 0) (0, 0) gs = (st, n)"
    by (cases "zero_span 0 (0, 0) (0, 0) gs")
  have "zero_run gs (0, 0)" by (simp add: zero_run_def)
  then have run: "zero_run gs (st, n)"
    using zero_span_run [of gs "(0, 0)" "(0, 0)" 0] span by simp
  show ?thesis
  proof (cases "1 < n")
    case True
    let ?h = "map unat (take st gs)" and ?t = "map unat (drop (st + n) gs)"
    have "length ?h + n + length ?t = 8"
      using run assms by (simp add: zero_run_def)
    then have "read_ipv6_addr (ipv6_str gs) = Some (?h @ replicate n 0 @ ?t, [])"
      using read_ipv6_addr_compressed [of ?h n ?t] True lt
      by (simp add: ipv6_str_def None span groups_str_sep)
    moreover have "map of_nat (?h @ replicate n 0 @ ?t) = gs"
      using zero_run_split [OF run] by (simp add: comp_def map_replicate_const)
    ultimately show ?thesis by blast
  next
    case False
    have "read_ipv6_addr (ipv6_str gs) = Some (map unat gs, [])"
      using False read_ipv6_addr_full [of "map unat gs"] assms lt
      by (simp add: ipv6_str_def None span groups_str_sep)
    moreover have "map of_nat (map unat gs) = gs" by (simp add: comp_def)
    ultimately show ?thesis by blast
  qed
next
  case (Some p)
  let ?hi = "\<lambda>g :: u16. of_nat (unat g div 256) :: u8" and ?lo = "\<lambda>g :: u16. of_nat (unat g mod 256) :: u8"
  have pre: "take 6 gs = [0, 0, 0, 0, 0, 0xffff]" and p: "p = (?hi (gs ! 6), ?lo (gs ! 6), ?hi (gs ! 7), ?lo (gs ! 7))"
    using Some by (auto simp: to_ipv4_mapped_def split: if_splits)
  have gs: "gs = [0, 0, 0, 0, 0, 0xffff] @ [gs ! 6, gs ! 7]"
    by (rule list_8_split [OF assms pre])
  have "map of_nat [0, 0, 0, 0, 0, 65535, unat (?hi (gs ! 6)) * 256 + unat (?lo (gs ! 6)),
      unat (?hi (gs ! 7)) * 256 + unat (?lo (gs ! 7))] = [0, 0, 0, 0, 0, 0xffff] @ [gs ! 6, gs ! 7]"
    using u16_split [of "gs ! 6"] u16_split [of "gs ! 7"] by (simp del: of_nat_add of_nat_mult)
  then show ?thesis
    using read_ipv6_addr_mapped gs by (simp add: ipv6_str_def Some p)
qed

lemma read_ipv4_addr_ipv6_str: "length gs = 8 \<Longrightarrow> read_ipv4_addr (ipv6_str gs) = None"
proof (cases "to_ipv4_mapped gs")
  case None
  have "CHR ''.'' \<notin> set (groups_str xs)" for xs
    by (simp add: groups_str_sep sep_groups_no_dot)
  with None have "CHR ''.'' \<notin> set (ipv6_str gs)"
    by (auto simp: ipv6_str_def split: prod.splits)
  then show ?thesis by (rule read_ipv4_addr_needs_dot)
next
  case (Some p)
  then show ?thesis
    by (cases p) (simp add: ipv6_str_def read_ipv4_addr_def read_octet_def read_separator_def
        read_number_def to_digit_def code_def)
qed

lemma parse_ip_ip_str: "ip_wf ip \<Longrightarrow> parse_ip (ip_str ip) = Some ip"
proof (cases ip)
  case (IpAddr_V4 a b c d)
  then show ?thesis
    using read_ipv4_addr_ipv4_str [of "[]" a b c d]
    by (simp add: parse_ip_def read_ip_addr_def ip_str_def)
next
  case (IpAddr_V6 gs)
  assume "ip_wf ip"
  with IpAddr_V6 have len: "length gs = 8" by (simp add: ip_wf_def)
  from read_ipv6_addr_ipv6_str [OF len] obtain ns where
    "read_ipv6_addr (ipv6_str gs) = Some (ns, [])" "map of_nat ns = gs" by blast
  with IpAddr_V6 read_ipv4_addr_ipv6_str [OF len] show ?thesis
    by (simp add: parse_ip_def read_ip_addr_def ip_str_def)
qed

section \<open>What the parser yields\<close>

lemma read_groups_length: "read_groups k i s = (gs, v4, r) \<Longrightarrow> length gs \<le> k"
  by (induction k i s arbitrary: gs v4 r rule: read_groups.induct)
    (fastforce split: option.splits prod.splits if_splits)+

lemma read_ipv6_addr_length:
  assumes "read_ipv6_addr s = Some (gs, r)"
  shows "length gs = 8"
proof -
  obtain h v4 s1 where h: "read_groups 8 0 s = (h, v4, s1)" by (cases "read_groups 8 0 s") auto
  from read_groups_length [OF h] have "length h \<le> 8" .
  with assms h show ?thesis
    by (auto simp: read_ipv6_addr_def split: if_splits prod.splits bind_splits
        dest!: read_groups_length)
qed

lemma parse_ip_wf: "parse_ip s = Some ip \<Longrightarrow> ip_wf ip"
  by (auto simp: parse_ip_def read_ip_addr_def ip_wf_def dest: read_ipv6_addr_length
      split: option.splits prod.splits if_splits)

text \<open>A printed address is a token: no white space in it.\<close>

lemma is_token_join:
  "ws \<noteq> [] \<Longrightarrow> list_all is_token ws \<Longrightarrow> list_all (\<lambda>c. \<not> is_ascii_whitespace c) sep \<Longrightarrow> is_token (str_join sep ws)"
  by (induction sep ws rule: str_join.induct) (auto simp: is_token_def)

lemma sep_chars [simp]: "\<not> is_ascii_whitespace (CHR ''.'')" "\<not> is_ascii_whitespace (CHR '':'')"
  by (simp_all add: is_ascii_whitespace_def code_def)

lemma ipv4_str_token: "is_token (ipv4_str a b c d)"
  unfolding ipv4_str_def by (rule is_token_join) auto

lemma hex_str_token: "is_token (hex_str n)"
  by (auto simp: is_token_def list_all_iff hex_str_def digit_char_facts dest!: radix_str_digits [rotated])

lemma groups_str_nows: "list_all (\<lambda>c. \<not> is_ascii_whitespace c) (groups_str gs)"
proof (cases "gs = []")
  case False
  then have "is_token (groups_str gs)"
    unfolding groups_str_def by (intro is_token_join) (auto simp: list_all_iff hex_str_token)
  then show ?thesis by (simp add: is_token_def)
qed (simp add: groups_str_def)

lemma ip_str_token [token_intro]: "ip_wf ip \<Longrightarrow> is_token (ip_str ip)"
proof (cases ip)
  case (IpAddr_V6 gs)
  assume "ip_wf ip"
  with IpAddr_V6 have "gs \<noteq> []" by (auto simp: ip_wf_def)
  then have full: "is_token (groups_str gs)"
    unfolding groups_str_def by (intro is_token_join) (auto simp: list_all_iff hex_str_token)
  have mapped: "is_token (''::ffff:'' @ ipv4_str a b c d)" for a b c d
    using ipv4_str_token by (auto simp: is_token_def is_ascii_whitespace_def code_def)
  have "is_token (x @ ''::'' @ y)" if "list_all (\<lambda>c. \<not> is_ascii_whitespace c) x"
    "list_all (\<lambda>c. \<not> is_ascii_whitespace c) y" for x y
    using that by (simp add: is_token_def)
  then show ?thesis
    using IpAddr_V6 full mapped groups_str_nows
    by (auto simp: ip_str_def ipv6_str_def split: option.splits prod.splits)
qed (simp add: ip_str_def ipv4_str_token)

interpretation ip_codec: exact_codec ip_str parse_ip ip_wf
  by unfold_locales (rule parse_ip_ip_str)

section \<open>Evaluation on literals\<close>

lemma read_groups_numeral:
  "read_groups (numeral v) i s =
     (case (if 0 < pred_numeral v then read_separator (CHR '':'') i read_ipv4_addr s else None) of
        Some ((a, b, c, d), r) \<Rightarrow> ([a * 256 + b, c * 256 + d], True, r)
      | None \<Rightarrow>
          (case read_separator (CHR '':'') i (read_number 16 4 True 65536) s of
             None \<Rightarrow> ([], False, s)
           | Some (g, r) \<Rightarrow>
               (case read_groups (pred_numeral v) (Suc i) r of (gs, v4, r') \<Rightarrow> (g # gs, v4, r'))))"
  by (subst numeral_eq_Suc [of v]) (rule read_groups.simps(2))

lemma replicate_numeral: "replicate (numeral v) x = x # replicate (pred_numeral v) x"
  by (simp add: numeral_eq_Suc)

lemmas ip_eval =
  num_eval parse_ip_def read_ip_addr_def read_ipv4_addr_def read_ipv6_addr_def read_octet_def
  read_separator_def read_given_char_def read_number_def ip_str_def ipv4_str_def ipv6_str_def
  to_ipv4_mapped_def groups_str_def read_groups_numeral replicate_numeral ip_wf_def

end
