(* ===== verification/Candidate.thy ===== *)
theory Candidate
  imports Rust_Ip
begin

text \<open>
  \<open>src/candidate.rs\<close>: the SDP-bearing ICE candidate, its parser, its serializer and its
  (coarse) equality. The lemmas show what the parser accepts and rejects, field by
  field, that resolution is exactly "the address is an IP literal and the port a u16",
  and that parsing a serialized candidate gives the candidate back up to the canonical
  spelling of its address.
\<close>

section \<open>Data\<close>

datatype candidate_type =
    CandidateType_Unknown
  | CandidateType_Host
  | CandidateType_ServerReflexive
  | CandidateType_PeerReflexive
  | CandidateType_Relayed

fun CandidateType_as_sdp :: "candidate_type \<Rightarrow> str" where
  "CandidateType_as_sdp CandidateType_Host = ''host''"
| "CandidateType_as_sdp CandidateType_PeerReflexive = ''prflx''"
| "CandidateType_as_sdp CandidateType_ServerReflexive = ''srflx''"
| "CandidateType_as_sdp CandidateType_Relayed = ''relay''"
| "CandidateType_as_sdp CandidateType_Unknown = ''unknown''"

definition CandidateType_from_sdp :: "str \<Rightarrow> candidate_type" where
  "CandidateType_from_sdp s =
     (if s = ''host'' then CandidateType_Host
      else if s = ''prflx'' then CandidateType_PeerReflexive
      else if s = ''srflx'' then CandidateType_ServerReflexive
      else if s = ''relay'' then CandidateType_Relayed
      else CandidateType_Unknown)"

datatype transport_type =
    TransportType_Unknown
  | TransportType_Udp
  | TransportType_TcpActive
  | TransportType_TcpPassive
  | TransportType_TcpSo
  | TransportType_TcpUnknown

fun TransportType_as_sdp :: "transport_type \<Rightarrow> str" where
  "TransportType_as_sdp TransportType_Udp = ''UDP''"
| "TransportType_as_sdp TransportType_TcpActive = ''TCP_active''"
| "TransportType_as_sdp TransportType_TcpPassive = ''TCP_passive''"
| "TransportType_as_sdp TransportType_TcpSo = ''TCP_so''"
| "TransportType_as_sdp TransportType_TcpUnknown = ''TCP_unknown''"
| "TransportType_as_sdp TransportType_Unknown = ''unknown''"

datatype family = Family_Unresolved | Family_Ipv4 | Family_Ipv6

datatype candidate_parse_error =
    ParseError_MissingField str
  | ParseError_BadInteger str
  | ParseError_MissingTypMarker

record candidate =
  c_foundation :: str
  c_component :: u32
  c_priority :: u32
  c_transport_string :: str
  c_transport_type :: transport_type
  c_node :: str
  c_service :: str
  c_type_string :: str
  c_candidate_type :: candidate_type
  c_tail :: str
  c_mid :: "str option"
  c_family :: family
  c_address :: str
  c_port :: u16

section \<open>Operations\<close>

definition Candidate_default :: candidate where
  "Candidate_default =
     \<lparr>c_foundation = ''none'', c_component = 0, c_priority = 0, c_transport_string = ''unknown'',
      c_transport_type = TransportType_Unknown, c_node = ''0.0.0.0'', c_service = ''9'',
      c_type_string = ''unknown'', c_candidate_type = CandidateType_Unknown, c_tail = [],
      c_mid = None, c_family = Family_Unresolved, c_address = [], c_port = 0\<rparr>"

definition Candidate_new :: candidate where
  "Candidate_new = Candidate_default"

text \<open>Key/value pairs of the tail: a key is compared at every other token.\<close>

fun find_kv_tokens :: "str list \<Rightarrow> str \<Rightarrow> str option" where
  "find_kv_tokens [] key = None"
| "find_kv_tokens [k] key = None"
| "find_kv_tokens (k # v # it) key =
     (if eq_ignore_ascii_case k key then Some v else find_kv_tokens it key)"

definition find_kv :: "str \<Rightarrow> str \<Rightarrow> str option" where
  "find_kv tail key = find_kv_tokens (split_ascii_whitespace tail) key"

definition classify_transport :: "str \<Rightarrow> str \<Rightarrow> transport_type" where
  "classify_transport transport_string tail =
     (if eq_ignore_ascii_case transport_string ''udp'' then TransportType_Udp
      else if \<not> eq_ignore_ascii_case transport_string ''tcp'' then TransportType_Unknown
      else (let t = find_kv tail ''tcptype'' in
        if t = Some ''active'' then TransportType_TcpActive
        else if t = Some ''passive'' then TransportType_TcpPassive
        else if t = Some ''so'' then TransportType_TcpSo
        else TransportType_TcpUnknown))"

text \<open>\<open>it.next().ok_or(e)?\<close>: the next token and the rest of the iterator.\<close>

definition next_token :: "str list \<Rightarrow> 'e \<Rightarrow> 'e + (str \<times> str list)" where
  "next_token it e = (case it of [] \<Rightarrow> Inl e | t # r \<Rightarrow> Inr (t, r))"

definition strip_optional :: "str \<Rightarrow> str \<Rightarrow> str" where
  "strip_optional p s = (case strip_pre p s of Some rest \<Rightarrow> rest | None \<Rightarrow> s)"

definition Candidate_parse_in_place :: "candidate \<Rightarrow> str \<Rightarrow> candidate_parse_error + candidate" where
  "Candidate_parse_in_place self s0 =
     (let s = strip_optional ''candidate:'' (strip_optional ''a='' s0) in
      try_res (next_token (split_ascii_whitespace s) (ParseError_MissingField ''foundation''))
        (\<lambda>(foundation, it).
      try_res (next_token it (ParseError_MissingField ''component'')) (\<lambda>(comp_s, it).
      try_res (ok_or (parse_u32 comp_s) (ParseError_BadInteger ''component'')) (\<lambda>component.
      try_res (next_token it (ParseError_MissingField ''transport'')) (\<lambda>(transport_string, it).
      try_res (next_token it (ParseError_MissingField ''priority'')) (\<lambda>(prio_s, it).
      try_res (ok_or (parse_u32 prio_s) (ParseError_BadInteger ''priority'')) (\<lambda>priority.
      try_res (next_token it (ParseError_MissingField ''address'')) (\<lambda>(node, it).
      try_res (next_token it (ParseError_MissingField ''port'')) (\<lambda>(service, it).
      try_res (next_token it ParseError_MissingTypMarker) (\<lambda>(typ_marker, it).
      if typ_marker \<noteq> ''typ'' then Inl ParseError_MissingTypMarker
      else
      try_res (next_token it (ParseError_MissingField ''candidate type'')) (\<lambda>(type_string, it).
        let tail = str_join '' '' it in
        Inr (self\<lparr>c_foundation := foundation, c_component := component, c_priority := priority,
              c_node := node, c_service := service, c_type_string := type_string,
              c_candidate_type := CandidateType_from_sdp type_string,
              c_transport_string := transport_string,
              c_transport_type := classify_transport transport_string tail,
              c_tail := tail\<rparr>))))))))))))"

definition ip_family :: "ip_addr \<Rightarrow> family" where
  "ip_family ip = (case ip of IpAddr_V4 _ _ _ _ \<Rightarrow> Family_Ipv4 | IpAddr_V6 _ \<Rightarrow> Family_Ipv6)"

definition Candidate_try_resolve_numeric :: "candidate \<Rightarrow> candidate" where
  "Candidate_try_resolve_numeric self =
     (case parse_ip (c_node self) of
        None \<Rightarrow> self
      | Some ip \<Rightarrow>
          (case parse_u16 (c_service self) of
             None \<Rightarrow> self
           | Some port \<Rightarrow>
               self\<lparr>c_address := ip_str ip, c_port := port, c_family := ip_family ip\<rparr>))"

definition Candidate_parse :: "str \<Rightarrow> str \<Rightarrow> candidate_parse_error + candidate" where
  "Candidate_parse candidate mid =
     try_res (if candidate \<noteq> [] then Candidate_parse_in_place Candidate_new candidate
              else Inr Candidate_new)
       (\<lambda>c. let c = (if mid \<noteq> [] then c\<lparr>c_mid := Some mid\<rparr> else c)
            in Inr (Candidate_try_resolve_numeric c))"

definition Candidate_from_str :: "str \<Rightarrow> candidate_parse_error + candidate" where
  "Candidate_from_str s = Candidate_parse s []"

definition Candidate_hint_mid :: "candidate \<Rightarrow> str \<Rightarrow> candidate" where
  "Candidate_hint_mid self mid =
     (if c_mid self = None then self\<lparr>c_mid := Some mid\<rparr> else self)"

definition Candidate_is_resolved :: "candidate \<Rightarrow> bool" where
  "Candidate_is_resolved self \<longleftrightarrow> c_family self \<noteq> Family_Unresolved"

definition Candidate_to_sdp :: "candidate \<Rightarrow> str" where
  "Candidate_to_sdp self =
     ''candidate:'' @ c_foundation self @ '' '' @ word_str (c_component self) @ '' '' @
     c_transport_string self @ '' '' @ word_str (c_priority self) @ '' '' @
     (if Candidate_is_resolved self then c_address self @ '' '' @ word_str (c_port self)
      else c_node self @ '' '' @ c_service self) @ '' '' @
     ''typ'' @ '' '' @ c_type_string self @
     (if c_tail self \<noteq> [] then '' '' @ c_tail self else [])"

definition Candidate_fmt :: "candidate \<Rightarrow> str" where
  "Candidate_fmt self = ''a='' @ Candidate_to_sdp self"

definition Candidate_mid :: "candidate \<Rightarrow> str" where
  "Candidate_mid self = (case c_mid self of None \<Rightarrow> ''0'' | Some m \<Rightarrow> m)"

definition Candidate_has_mid :: "candidate \<Rightarrow> bool" where
  "Candidate_has_mid self \<longleftrightarrow> c_mid self \<noteq> None"

definition Candidate_address :: "candidate \<Rightarrow> str option" where
  "Candidate_address self = (if Candidate_is_resolved self then Some (c_address self) else None)"

definition Candidate_port :: "candidate \<Rightarrow> u16 option" where
  "Candidate_port self = (if Candidate_is_resolved self then Some (c_port self) else None)"

definition Candidate_related_address :: "candidate \<Rightarrow> str option" where
  "Candidate_related_address self = find_kv (c_tail self) ''raddr''"

definition Candidate_related_port :: "candidate \<Rightarrow> u16 option" where
  "Candidate_related_port self = Option.bind (find_kv (c_tail self) ''rport'') parse_u16"

definition Candidate_tcp_type :: "candidate \<Rightarrow> str option" where
  "Candidate_tcp_type self = find_kv (c_tail self) ''tcptype''"

definition Candidate_resolved :: "candidate \<Rightarrow> (ip_addr \<times> u16) option" where
  "Candidate_resolved self =
     (if \<not> Candidate_is_resolved self then None
      else map_option (\<lambda>ip. (ip, c_port self)) (parse_ip (c_address self)))"

text \<open>The accessors and the tokens that \<open>Display\<close> writes.\<close>

definition Candidate_candidate_type :: "candidate \<Rightarrow> candidate_type" where
  "Candidate_candidate_type self = c_candidate_type self"

definition Candidate_transport_type :: "candidate \<Rightarrow> transport_type" where
  "Candidate_transport_type self = c_transport_type self"

definition Candidate_priority :: "candidate \<Rightarrow> u32" where
  "Candidate_priority self = c_priority self"

definition Candidate_foundation :: "candidate \<Rightarrow> str" where
  "Candidate_foundation self = c_foundation self"

definition Candidate_component :: "candidate \<Rightarrow> u32" where
  "Candidate_component self = c_component self"

definition Candidate_family :: "candidate \<Rightarrow> family" where
  "Candidate_family self = c_family self"

definition CandidateType_fmt :: "candidate_type \<Rightarrow> str" where
  "CandidateType_fmt self = CandidateType_as_sdp self"

definition TransportType_fmt :: "transport_type \<Rightarrow> str" where
  "TransportType_fmt self = TransportType_as_sdp self"

text \<open>\<open>PartialEq\<close>: foundation, node and service only.\<close>

definition candidate_eq :: "candidate \<Rightarrow> candidate \<Rightarrow> bool" where
  "candidate_eq self other \<longleftrightarrow>
     c_foundation self = c_foundation other \<and> c_node self = c_node other \<and>
     c_service self = c_service other"

section \<open>What the parser accepts\<close>

definition candidate_tokens :: "str \<Rightarrow> str list" where
  "candidate_tokens s =
     split_ascii_whitespace (strip_optional ''candidate:'' (strip_optional ''a='' s))"

definition with_fields ::
    "candidate \<Rightarrow> str \<Rightarrow> u32 \<Rightarrow> str \<Rightarrow> u32 \<Rightarrow> str \<Rightarrow> str \<Rightarrow> str \<Rightarrow> str list \<Rightarrow> candidate" where
  "with_fields self f cmp tr prio nd sv ty exts =
     self\<lparr>c_foundation := f, c_component := cmp, c_priority := prio,
          c_node := nd, c_service := sv, c_type_string := ty,
          c_candidate_type := CandidateType_from_sdp ty, c_transport_string := tr,
          c_transport_type := classify_transport tr (str_join '' '' exts),
          c_tail := str_join '' '' exts\<rparr>"

lemma next_token_Inr_iff: "next_token it e = Inr (t, r) \<longleftrightarrow> it = t # r"
  by (cases it) (auto simp: next_token_def)

lemma next_token_simps [simp]:
  "next_token [] e = Inl e"
  "next_token (t # r) e = Inr (t, r)"
  by (simp_all add: next_token_def)

text \<open>The grammar, as one equivalence.\<close>

lemma parse_in_place_Inr_iff:
  "Candidate_parse_in_place self s = Inr c \<longleftrightarrow>
     (\<exists>f cs cmp tr ps prio nd sv ty exts.
        candidate_tokens s = f # cs # tr # ps # nd # sv # ''typ'' # ty # exts \<and>
        parse_u32 cs = Some cmp \<and> parse_u32 ps = Some prio \<and>
        c = with_fields self f cmp tr prio nd sv ty exts)"
  by (auto simp: Candidate_parse_in_place_def candidate_tokens_def with_fields_def Let_def
      result_iffs next_token_Inr_iff split: prod.splits if_splits)

text \<open>What holds of the value of every successful parse.\<close>

definition resolution_ok :: "candidate \<Rightarrow> bool" where
  "resolution_ok c \<longleftrightarrow>
     (case (parse_ip (c_node c), parse_u16 (c_service c)) of
        (Some ip, Some port) \<Rightarrow>
          c_address c = ip_str ip \<and> c_port c = port \<and> c_family c = ip_family ip
      | _ \<Rightarrow> c_address c = [] \<and> c_port c = 0 \<and> c_family c = Family_Unresolved)"

definition candidate_wf :: "candidate \<Rightarrow> bool" where
  "candidate_wf c \<longleftrightarrow>
     is_token (c_foundation c) \<and> is_token (c_transport_string c) \<and> is_token (c_node c) \<and>
     is_token (c_service c) \<and> is_token (c_type_string c) \<and>
     c_candidate_type c = CandidateType_from_sdp (c_type_string c) \<and>
     c_transport_type c = classify_transport (c_transport_string c) (c_tail c) \<and>
     str_join '' '' (split_ascii_whitespace (c_tail c)) = c_tail c \<and>
     resolution_ok c"

lemma ip_family_resolved [simp]: "ip_family ip \<noteq> Family_Unresolved"
  by (cases ip) (auto simp: ip_family_def)

lemma candidate_tokens_token: "t \<in> set (candidate_tokens s) \<Longrightarrow> is_token t"
  by (auto simp: candidate_tokens_def dest: split_ws_token_mem)

lemma try_resolve_keeps [simp]:
  "c_foundation (Candidate_try_resolve_numeric c) = c_foundation c"
  "c_component (Candidate_try_resolve_numeric c) = c_component c"
  "c_priority (Candidate_try_resolve_numeric c) = c_priority c"
  "c_transport_string (Candidate_try_resolve_numeric c) = c_transport_string c"
  "c_transport_type (Candidate_try_resolve_numeric c) = c_transport_type c"
  "c_node (Candidate_try_resolve_numeric c) = c_node c"
  "c_service (Candidate_try_resolve_numeric c) = c_service c"
  "c_type_string (Candidate_try_resolve_numeric c) = c_type_string c"
  "c_candidate_type (Candidate_try_resolve_numeric c) = c_candidate_type c"
  "c_tail (Candidate_try_resolve_numeric c) = c_tail c"
  "c_mid (Candidate_try_resolve_numeric c) = c_mid c"
  by (simp_all add: Candidate_try_resolve_numeric_def split: option.splits)

lemma try_resolve_ok:
  "c_address c = [] \<Longrightarrow> c_port c = 0 \<Longrightarrow> c_family c = Family_Unresolved \<Longrightarrow>
   resolution_ok (Candidate_try_resolve_numeric c)"
  by (simp add: resolution_ok_def Candidate_try_resolve_numeric_def split: option.splits)

lemma with_fields_simps [simp]:
  "c_address (with_fields c f cmp tr prio nd sv ty exts) = c_address c"
  "c_port (with_fields c f cmp tr prio nd sv ty exts) = c_port c"
  "c_family (with_fields c f cmp tr prio nd sv ty exts) = c_family c"
  "c_mid (with_fields c f cmp tr prio nd sv ty exts) = c_mid c"
  by (simp_all add: with_fields_def)

lemma str_eq_lit_token [token_intro, simp]:
  "is_token ''none''" "is_token ''unknown''" "is_token ''0.0.0.0''" "is_token ''9''" "is_token ''typ''"
  by (simp_all add: is_token_def is_ascii_whitespace_def code_def)

lemma classify_unknown: "classify_transport ''unknown'' [] = TransportType_Unknown"
  by (simp add: classify_transport_def eq_ignore_ascii_case_def to_ascii_lowercase_def)

definition set_mid :: "str \<Rightarrow> candidate \<Rightarrow> candidate" where
  "set_mid mid c = (if mid \<noteq> [] then c\<lparr>c_mid := Some mid\<rparr> else c)"

lemma Candidate_parse_eq:
  "Candidate_parse s mid =
     (if s = [] then Inr (Candidate_try_resolve_numeric (set_mid mid Candidate_new))
      else try_res (Candidate_parse_in_place Candidate_new s)
             (\<lambda>c. Inr (Candidate_try_resolve_numeric (set_mid mid c))))"
  by (simp add: Candidate_parse_def set_mid_def Let_def cong: if_cong)

lemma set_mid_keeps [simp]:
  "c_foundation (set_mid m c) = c_foundation c" "c_component (set_mid m c) = c_component c"
  "c_priority (set_mid m c) = c_priority c" "c_transport_string (set_mid m c) = c_transport_string c"
  "c_transport_type (set_mid m c) = c_transport_type c" "c_node (set_mid m c) = c_node c"
  "c_service (set_mid m c) = c_service c" "c_type_string (set_mid m c) = c_type_string c"
  "c_candidate_type (set_mid m c) = c_candidate_type c" "c_tail (set_mid m c) = c_tail c"
  "c_address (set_mid m c) = c_address c" "c_port (set_mid m c) = c_port c"
  "c_family (set_mid m c) = c_family c"
  by (simp_all add: set_mid_def)

lemma set_mid_mid [simp]: "c_mid (set_mid m c) = (if m \<noteq> [] then Some m else c_mid c)"
  by (simp add: set_mid_def)

lemma Candidate_new_unresolved [simp]:
  "c_address Candidate_new = []" "c_port Candidate_new = 0"
  "c_family Candidate_new = Family_Unresolved" "c_mid Candidate_new = None"
  by (simp_all add: Candidate_new_def Candidate_default_def)

lemma Candidate_parse_wf: "Candidate_parse s mid = Inr c \<Longrightarrow> candidate_wf c"
proof (cases "s = []")
  case True
  assume "Candidate_parse s mid = Inr c"
  with True have c: "c = Candidate_try_resolve_numeric (set_mid mid Candidate_new)"
    by (simp add: Candidate_parse_eq)
  have "resolution_ok c" unfolding c by (rule try_resolve_ok) simp_all
  then show ?thesis
    by (simp add: candidate_wf_def c Candidate_new_def Candidate_default_def
        CandidateType_from_sdp_def classify_unknown)
next
  case False
  assume "Candidate_parse s mid = Inr c"
  with False obtain c1 where c1: "Candidate_parse_in_place Candidate_new s = Inr c1"
    and c: "c = Candidate_try_resolve_numeric (set_mid mid c1)"
    by (auto simp: Candidate_parse_eq result_iffs)
  from c1 obtain f cs cmp tr ps prio nd sv ty exts where
    toks: "candidate_tokens s = f # cs # tr # ps # nd # sv # ''typ'' # ty # exts"
    and c1_eq: "c1 = with_fields Candidate_new f cmp tr prio nd sv ty exts"
    by (auto simp: parse_in_place_Inr_iff)
  have tok: "is_token t" if "t \<in> set (f # cs # tr # ps # nd # sv # ''typ'' # ty # exts)" for t
    using that candidate_tokens_token [of t s] toks by simp
  have "resolution_ok c" unfolding c c1_eq by (rule try_resolve_ok) simp_all
  moreover have "list_all is_token exts" using tok by (simp add: list_all_iff)
  ultimately show ?thesis
    using tok by (simp add: candidate_wf_def c c1_eq with_fields_def split_ws_join)
qed

section \<open>Round trip\<close>

text \<open>A resolved candidate is serialized with its canonical address and port.\<close>

definition canonical :: "candidate \<Rightarrow> candidate" where
  "canonical c =
     (if Candidate_is_resolved c then c\<lparr>c_node := c_address c, c_service := word_str (c_port c)\<rparr>
      else c)"

lemma canonical_simps [simp]:
  "c_address (canonical c) = c_address c" "c_port (canonical c) = c_port c"
  "c_family (canonical c) = c_family c" "c_mid (canonical c) = c_mid c"
  "c_foundation (canonical c) = c_foundation c" "c_tail (canonical c) = c_tail c"
  "c_component (canonical c) = c_component c" "c_priority (canonical c) = c_priority c"
  "c_transport_string (canonical c) = c_transport_string c"
  "c_type_string (canonical c) = c_type_string c"
  "Candidate_is_resolved (canonical c) = Candidate_is_resolved c"
  by (simp_all add: canonical_def Candidate_is_resolved_def)

lemma Candidate_to_sdp_canonical: "Candidate_to_sdp (canonical c) = Candidate_to_sdp c"
  by (simp add: Candidate_to_sdp_def canonical_def Candidate_is_resolved_def)

lemma resolved_canonical:
  assumes "candidate_wf c" "Candidate_is_resolved c"
  obtains ip where "parse_ip (c_node c) = Some ip" "c_address c = ip_str ip"
    "c_family c = ip_family ip" "ip_wf ip" "parse_ip (c_address c) = Some ip"
proof -
  from assms obtain ip p where ip: "parse_ip (c_node c) = Some ip" "parse_u16 (c_service c) = Some p"
    "c_address c = ip_str ip" "c_family c = ip_family ip"
    by (auto simp: candidate_wf_def resolution_ok_def Candidate_is_resolved_def split: option.splits)
  have "ip_wf ip" using ip(1) by (rule parse_ip_wf)
  with that [of ip] ip parse_ip_ip_str [of ip] show ?thesis by simp
qed

lemma candidate_wf_canonical: "candidate_wf c \<Longrightarrow> candidate_wf (canonical c)"
proof (cases "Candidate_is_resolved c")
  case True
  assume wf: "candidate_wf c"
  from resolved_canonical [OF wf True] obtain ip where ip: "c_address c = ip_str ip" "ip_wf ip"
    "c_family c = ip_family ip" "parse_ip (c_address c) = Some ip" by metis
  have "is_token (c_address c)" using ip ip_str_token by simp
  with wf ip True show ?thesis
    by (simp add: candidate_wf_def canonical_def resolution_ok_def)
qed (simp add: canonical_def)

lemma candidate_tokens_to_sdp:
  assumes "candidate_wf c"
  shows "candidate_tokens (Candidate_to_sdp c) =
    [c_foundation c, word_str (c_component c), c_transport_string c, word_str (c_priority c),
     c_node (canonical c), c_service (canonical c), ''typ'', c_type_string c]
    @ split_ascii_whitespace (c_tail c)"
proof -
  have strip: "strip_optional ''candidate:'' (strip_optional ''a='' (''candidate:'' @ r)) = r" for r
    by (simp add: strip_optional_def)
  have wf: "candidate_wf (canonical c)" using assms by (rule candidate_wf_canonical)
  have sdp: "Candidate_to_sdp c = ''candidate:'' @ c_foundation c @ '' '' @ word_str (c_component c)
     @ '' '' @ c_transport_string c @ '' '' @ word_str (c_priority c) @ '' '' @ c_node (canonical c)
     @ '' '' @ c_service (canonical c) @ '' '' @ ''typ'' @ '' '' @ c_type_string c
     @ (if c_tail c \<noteq> [] then '' '' @ c_tail c else [])"
    by (simp add: Candidate_to_sdp_def canonical_def)
  have typ_token: "is_token ''typ''" by simp
  show ?thesis
    unfolding candidate_tokens_def sdp strip
    using wf split_ws_token_sep [OF typ_token, of "CHR '' ''"]
    by (simp add: candidate_wf_def split_ws_token split_ws_token_sep)
qed

lemma try_resolve_again:
  "resolution_ok d \<Longrightarrow>
   Candidate_try_resolve_numeric (d\<lparr>c_address := [], c_port := 0, c_family := Family_Unresolved, c_mid := m\<rparr>)
     = d\<lparr>c_mid := m\<rparr>"
  by (rule candidate.equality)
    (simp_all add: resolution_ok_def Candidate_try_resolve_numeric_def split: option.splits)

lemma Candidate_parse_to_sdp:
  assumes "candidate_wf c"
  shows "Candidate_parse (Candidate_to_sdp c) mid =
    Inr ((canonical c)\<lparr>c_mid := (if mid \<noteq> [] then Some mid else None)\<rparr>)"
proof -
  let ?ws = "split_ascii_whitespace (c_tail c)"
  define c1 where "c1 = with_fields Candidate_new (c_foundation c) (c_component c)
    (c_transport_string c) (c_priority c) (c_node (canonical c)) (c_service (canonical c))
    (c_type_string c) ?ws"
  have "Candidate_parse_in_place Candidate_new (Candidate_to_sdp c) = Inr c1"
    unfolding parse_in_place_Inr_iff candidate_tokens_to_sdp [OF assms] c1_def
    by (auto intro!: exI)
  moreover have "Candidate_to_sdp c \<noteq> []" by (simp add: Candidate_to_sdp_def)
  ultimately have parse: "Candidate_parse (Candidate_to_sdp c) mid
      = Inr (Candidate_try_resolve_numeric (set_mid mid c1))"
    by (simp add: Candidate_parse_eq)
  have wf: "candidate_wf (canonical c)" using assms by (rule candidate_wf_canonical)
  then have "resolution_ok (canonical c)" by (simp add: candidate_wf_def)
  moreover have "set_mid mid c1 = (canonical c)\<lparr>c_address := [], c_port := 0,
      c_family := Family_Unresolved, c_mid := (if mid \<noteq> [] then Some mid else None)\<rparr>"
    using wf by (intro candidate.equality) (simp_all add: c1_def with_fields_def candidate_wf_def set_mid_def)
  ultimately show ?thesis
    using parse try_resolve_again by simp
qed

section \<open>The contracts of this component\<close>

definition Candidate_decode :: "str \<Rightarrow> candidate option" where
  "Candidate_decode s = (case Candidate_from_str s of Inl e \<Rightarrow> None | Inr c \<Rightarrow> Some c)"

lemma canonical_mid_None: "c_mid c = None \<Longrightarrow> (canonical c)\<lparr>c_mid := None\<rparr> = canonical c"
  by (rule candidate.equality) simp_all

interpretation candidate_codec:
  codec Candidate_to_sdp Candidate_decode "\<lambda>c. candidate_wf c \<and> c_mid c = None" canonical
  by unfold_locales
    (auto simp: Candidate_decode_def Candidate_from_str_def Candidate_parse_to_sdp
      canonical_mid_None Candidate_to_sdp_canonical candidate_wf_canonical)

interpretation candidate_equality: equality candidate_eq
  by unfold_locales (auto simp: candidate_eq_def)

section \<open>Properties\<close>

text \<open>C24: whatever candidate line the parser accepts, serializing and parsing it again gives
  the same candidate up to the canonical spelling of a resolved address and port, and a
  second serialization is byte for byte the first.\<close>

theorem candidate_roundtrip:
  assumes "Candidate_parse s mid = Inr c"
  shows "Candidate_parse (Candidate_to_sdp c) mid = Inr (canonical c) \<and>
    Candidate_to_sdp (canonical c) = Candidate_to_sdp c"
proof -
  have "c_mid c = (if mid \<noteq> [] then Some mid else None)"
    using assms by (auto simp: Candidate_parse_eq result_iffs parse_in_place_Inr_iff split: if_splits)
  then have "(canonical c)\<lparr>c_mid := (if mid \<noteq> [] then Some mid else None)\<rparr> = canonical c"
    by (intro candidate.equality) simp_all
  with Candidate_parse_to_sdp [OF Candidate_parse_wf [OF assms], of mid] show ?thesis
    by (simp add: Candidate_to_sdp_canonical)
qed

lemmas candidate_eval =
  ip_eval Candidate_parse_def Candidate_parse_in_place_def strip_optional_def
  Candidate_try_resolve_numeric_def CandidateType_from_sdp_def classify_transport_def find_kv_def
  ip_family_def Candidate_new_def Candidate_default_def

lemma sample_tcp:
  "Candidate_parse ''candidate:7 1 tcp 99 10.0.0.1 09 typ host tcptype active'' [] =
     Inr \<lparr>c_foundation = ''7'', c_component = 1, c_priority = 99, c_transport_string = ''tcp'',
      c_transport_type = TransportType_TcpActive, c_node = ''10.0.0.1'', c_service = ''09'',
      c_type_string = ''host'', c_candidate_type = CandidateType_Host, c_tail = ''tcptype active'',
      c_mid = None, c_family = Family_Ipv4, c_address = ''10.0.0.1'', c_port = 9\<rparr>"
  by (simp add: candidate_eval)

lemma sample_v6:
  "Candidate_parse ''candidate:1 1 UDP 5 2001:DB8::1 50001 typ host'' ''a'' =
     Inr \<lparr>c_foundation = ''1'', c_component = 1, c_priority = 5, c_transport_string = ''UDP'',
      c_transport_type = TransportType_Udp, c_node = ''2001:DB8::1'', c_service = ''50001'',
      c_type_string = ''host'', c_candidate_type = CandidateType_Host, c_tail = [],
      c_mid = Some ''a'', c_family = Family_Ipv6, c_address = ''2001:db8::1'', c_port = 50001\<rparr>"
  by (simp add: candidate_eval)

theorem candidate_roundtrip_witness:
  "\<exists>c. Candidate_parse ''candidate:7 1 tcp 99 10.0.0.1 09 typ host tcptype active'' [] = Inr c \<and>
     Candidate_parse (Candidate_to_sdp c) [] = Inr (canonical c) \<and> c_service (canonical c) = ''9''"
proof -
  note r = candidate_roundtrip [OF sample_tcp]
  show ?thesis
    by (rule exI, rule conjI [OF sample_tcp], rule conjI [OF conjunct1 [OF r]])
      (simp add: canonical_def Candidate_is_resolved_def num_eval)
qed

text \<open>C28: the parser accepts a line exactly when it is empty, or behind the optional prefixes it reads
  foundation, component, transport, priority, address, port, the word typ and a type, with
  component and priority in the range of u32; everything else is kept as the tail.\<close>

theorem candidate_accepts:
  "(\<exists>c. Candidate_parse s mid = Inr c) \<longleftrightarrow>
     s = [] \<or>
     (\<exists>f cs tr ps nd sv ty exts.
        candidate_tokens s = f # cs # tr # ps # nd # sv # ''typ'' # ty # exts \<and>
        parse_u32 cs \<noteq> None \<and> parse_u32 ps \<noteq> None)"
proof (cases "s = []")
  case False
  then have "(\<exists>c. Candidate_parse s mid = Inr c) \<longleftrightarrow> (\<exists>c. Candidate_parse_in_place Candidate_new s = Inr c)"
    by (auto simp: Candidate_parse_eq result_iffs)
  then show ?thesis
    using False by (auto simp: parse_in_place_Inr_iff)
qed (simp add: Candidate_parse_eq)

definition candidate_field_names :: "str list" where
  "candidate_field_names =
     [''foundation'', ''component'', ''transport'', ''priority'', ''address'', ''port'']"

text \<open>A line that stops before its k-th field is rejected with the error that names
  this field, as long as the integers before it are well formed.\<close>

theorem candidate_missing_field:
  assumes "s \<noteq> []" "length (candidate_tokens s) < 6"
    and "1 < length (candidate_tokens s) \<Longrightarrow> parse_u32 (candidate_tokens s ! 1) \<noteq> None"
    and "3 < length (candidate_tokens s) \<Longrightarrow> parse_u32 (candidate_tokens s ! 3) \<noteq> None"
  shows "Candidate_parse s mid =
    Inl (ParseError_MissingField (candidate_field_names ! length (candidate_tokens s)))"
proof -
  obtain ts where ts: "candidate_tokens s = ts" by simp
  from assms(2) consider "ts = []" | a where "ts = [a]" | a b where "ts = [a, b]"
    | a b c where "ts = [a, b, c]" | a b c d where "ts = [a, b, c, d]"
    | a b c d e where "ts = [a, b, c, d, e]"
    unfolding ts by (auto simp: length_Suc_conv less_Suc_eq numeral_eq_Suc)
  then have "Candidate_parse_in_place Candidate_new s =
      Inl (ParseError_MissingField (candidate_field_names ! length ts))"
    using assms(3,4) unfolding Candidate_parse_in_place_def Let_def candidate_tokens_def [symmetric] ts
    by cases (auto simp: candidate_field_names_def)
  with assms(1) show ?thesis by (simp add: Candidate_parse_eq ts)
qed

theorem candidate_missing_field_witness:
  "Candidate_parse ''candidate:1 1 UDP 2113937151 192.168.1.10'' [] =
     Inl (ParseError_MissingField ''port'')"
proof -
  have "candidate_tokens ''candidate:1 1 UDP 2113937151 192.168.1.10'' =
      [''1'', ''1'', ''UDP'', ''2113937151'', ''192.168.1.10'']"
    by (simp add: candidate_tokens_def strip_optional_def str_eval)
  then show ?thesis
    using candidate_missing_field [of "''candidate:1 1 UDP 2113937151 192.168.1.10''" "[]"]
    by (simp add: candidate_field_names_def num_eval)
qed

text \<open>C29: a parsed candidate counts as resolved exactly when its address token is an IP literal
  and its port token a u16; the resolved socket address is then that literal and port, and
  reading the stored text of the address back never fails.\<close>

theorem candidate_resolution:
  assumes "Candidate_parse s mid = Inr c"
  shows "Candidate_resolved c =
    (case (parse_ip (c_node c), parse_u16 (c_service c)) of
       (Some ip, Some port) \<Rightarrow> Some (ip, port) | _ \<Rightarrow> None)"
proof (cases "Candidate_is_resolved c")
  case True
  note wf = Candidate_parse_wf [OF assms]
  from resolved_canonical [OF wf True] obtain ip where ip: "parse_ip (c_node c) = Some ip"
    "c_address c = ip_str ip" "parse_ip (c_address c) = Some ip" by metis
  with wf True show ?thesis
    by (auto simp: Candidate_resolved_def Candidate_is_resolved_def candidate_wf_def
        resolution_ok_def split: option.splits)
next
  case False
  with Candidate_parse_wf [OF assms] show ?thesis
    by (auto simp: Candidate_resolved_def Candidate_is_resolved_def candidate_wf_def
        resolution_ok_def split: option.splits)
qed

theorem candidate_resolution_witness:
  "\<exists>c. Candidate_parse ''candidate:7 1 tcp 99 10.0.0.1 09 typ host tcptype active'' [] = Inr c \<and>
     Candidate_resolved c = Some (IpAddr_V4 10 0 0 1, 9)"
  by (rule exI, rule conjI [OF sample_tcp], subst candidate_resolution [OF sample_tcp])
    (simp add: ip_eval)

text \<open>Equality of candidates is an equivalence relation, but the round trip through SDP
  does not respect it: an IPv6 address written in upper case comes back in its canonical
  spelling, and the candidate no longer equals itself.\<close>

theorem candidate_eq_not_kept:
  "\<exists>s mid c c'. Candidate_parse s mid = Inr c \<and> Candidate_parse (Candidate_to_sdp c) mid = Inr c' \<and>
     candidate_eq c c \<and> \<not> candidate_eq c c'"
proof -
  show ?thesis
    by (intro exI conjI, rule sample_v6, subst Candidate_parse_to_sdp [OF Candidate_parse_wf [OF sample_v6]],
        rule refl) (simp_all add: candidate_eq_def canonical_def Candidate_is_resolved_def)
qed

text \<open>Hinting a mid fills in a missing one and never overwrites one.\<close>

theorem candidate_hint_mid:
  "Candidate_has_mid (Candidate_hint_mid c m) \<and>
   Candidate_mid (Candidate_hint_mid c m) = (if Candidate_has_mid c then Candidate_mid c else m) \<and>
   Candidate_to_sdp (Candidate_hint_mid c m) = Candidate_to_sdp c \<and>
   candidate_eq (Candidate_hint_mid c m) c"
  by (auto simp: Candidate_hint_mid_def Candidate_has_mid_def Candidate_mid_def Candidate_to_sdp_def
      Candidate_is_resolved_def candidate_eq_def)

end
