(* ===== verification/Configuration.thy ===== *)
theory Configuration
  imports Rust_Num
begin

text \<open>
  \<open>src/configuration.rs\<close>: ICE servers, proxies, the peer-connection configuration and
  the URL parser that \<open>IceServer::parse\<close> and \<open>ProxyServer::parse\<close> share.
\<close>

unbundle bit_operations_syntax

section \<open>Data\<close>

datatype certificate_type = CertificateType_Default | CertificateType_EcDsa | CertificateType_Rsa

datatype ice_transport_policy = IceTransportPolicy_All | IceTransportPolicy_Relay

datatype relay_type = RelayType_TurnUdp | RelayType_TurnTcp | RelayType_TurnTls

datatype proxy_type = ProxyType_Http | ProxyType_Socks5

datatype ice_server_type = IceServerType_Stun | IceServerType_Turn

datatype congestion_control =
    CongestionControl_Default | CongestionControl_GoogCc | CongestionControl_NewReno
  | CongestionControl_Cubic

datatype url_error =
    UrlError_Empty
  | UrlError_UnknownScheme str
  | UrlError_MissingHost
  | UrlError_InvalidPort str
  | UrlError_UnterminatedIpv6
  | UrlError_TurnMissingCredentials
  | UrlError_StunWithCredentials
  | UrlError_BadPercentEncoding

record ice_server =
  is_hostname :: str
  is_port :: u16
  is_typ :: ice_server_type
  is_username :: str
  is_password :: str
  is_relay_type :: relay_type

record proxy_server =
  ps_typ :: proxy_type
  ps_hostname :: str
  ps_port :: u16
  ps_username :: "str option"
  ps_password :: "str option"

record configuration =
  cfg_ice_servers :: "ice_server list"
  cfg_proxy_server :: "proxy_server option"
  cfg_bind_address :: "str option"
  cfg_certificate_type :: certificate_type
  cfg_ice_transport_policy :: ice_transport_policy
  cfg_enable_ice_tcp :: bool
  cfg_enable_ice_udp_mux :: bool
  cfg_disable_auto_negotiation :: bool
  cfg_disable_auto_gathering :: bool
  cfg_force_media_transport :: bool
  cfg_disable_fingerprint_verification :: bool
  cfg_port_range_begin :: u16
  cfg_port_range_end :: u16
  cfg_mtu :: "usize option"
  cfg_max_message_size :: "usize option"
  cfg_congestion_control_algorithm :: congestion_control

record parsed_url =
  pu_scheme :: str
  pu_user :: "str option"
  pu_password :: "str option"
  pu_host :: str
  pu_port :: "str option"
  pu_query :: "str option"

section \<open>Percent decoding\<close>

definition hex_value :: "char \<Rightarrow> u8 option" where
  "hex_value b =
     (if 48 \<le> code b \<and> code b \<le> 57 then Some (of_nat (code b - 48))
      else if 97 \<le> code b \<and> code b \<le> 102 then Some (of_nat (code b - 97 + 10))
      else if 65 \<le> code b \<and> code b \<le> 70 then Some (of_nat (code b - 65 + 10))
      else None)"

text \<open>The byte loop, on the bytes not read yet.\<close>

fun percent_decode_loop :: "str \<Rightarrow> str \<Rightarrow> url_error + str" where
  "percent_decode_loop [] out = Inr out"
| "percent_decode_loop (b # rest) out =
     (if b = CHR ''%'' then
        (case rest of
           h # l # rest' \<Rightarrow>
             (case hex_value h of
                None \<Rightarrow> Inl UrlError_BadPercentEncoding
              | Some hi \<Rightarrow>
                  (case hex_value l of
                     None \<Rightarrow> Inl UrlError_BadPercentEncoding
                   | Some lo \<Rightarrow> percent_decode_loop rest' (out @ [chr (unat (push_bit 4 hi OR lo))])))
         | _ \<Rightarrow> Inl UrlError_BadPercentEncoding)
      else percent_decode_loop rest (out @ [b]))"

definition percent_decode :: "str \<Rightarrow> url_error + str" where
  "percent_decode s =
     (if \<not> str_contains s ''%'' then Inr s
      else try_res (percent_decode_loop s [])
             (\<lambda>out. if utf8_valid out then Inr out else Inl UrlError_BadPercentEncoding))"

section \<open>URL splitting\<close>

definition split_host_port :: "str \<Rightarrow> url_error + (str \<times> str option)" where
  "split_host_port s =
     (case strip_pre ''['' s of
        Some rest \<Rightarrow>
          (case str_find (\<lambda>c. c = CHR '']'') rest of
             None \<Rightarrow> Inl UrlError_UnterminatedIpv6
           | Some close \<Rightarrow>
               let host = take close rest; after = drop (close + 1) rest in
               if after = [] then Inr (host, None)
               else (case strip_pre '':'' after of
                       None \<Rightarrow> Inl (UrlError_InvalidPort after)
                     | Some after \<Rightarrow> if after = [] then Inr (host, None) else Inr (host, Some after)))
      | None \<Rightarrow>
          (case str_rfind (\<lambda>c. c = CHR '':'') s of
             Some c \<Rightarrow>
               try_res (percent_decode (take c s)) (\<lambda>host.
                 let port = drop (c + 1) s in
                 if port = [] then Inr (host, None) else Inr (host, Some port))
           | None \<Rightarrow> try_res (percent_decode s) (\<lambda>host. Inr (host, None))))"

text \<open>\<open>while slashes < 2 && rest.starts_with('/')\<close>.\<close>

fun skip_slashes :: "nat \<Rightarrow> str \<Rightarrow> str" where
  "skip_slashes 0 s = s"
| "skip_slashes (Suc n) s =
     (case s of c # r \<Rightarrow> if c = CHR ''/'' then skip_slashes n r else s | [] \<Rightarrow> s)"

definition parse_userinfo :: "str \<Rightarrow> url_error + (str option \<times> str option)" where
  "parse_userinfo ui =
     (let (u, p) = (case str_find (\<lambda>c. c = CHR '':'') ui of
                      Some c \<Rightarrow> (take c ui, Some (drop (c + 1) ui)) | None \<Rightarrow> (ui, None))
      in try_res (if u = [] then Inr None else try_res (percent_decode u) (\<lambda>x. Inr (Some x)))
           (\<lambda>user. try_res (case p of None \<Rightarrow> Inr None
                                | Some pw \<Rightarrow> try_res (percent_decode pw) (\<lambda>x. Inr (Some x)))
           (\<lambda>password. Inr (user, password))))"

definition ParsedUrl_parse :: "str \<Rightarrow> url_error + parsed_url" where
  "ParsedUrl_parse url0 =
     (let url = str_trim url0 in
      if url = [] then Inl UrlError_Empty
      else
      try_res (ok_or (str_find (\<lambda>c. c \<in> {CHR '':'', CHR ''/'', CHR ''?'', CHR ''#'', CHR ''@''}) url)
                 (UrlError_UnknownScheme url)) (\<lambda>colon.
      if url ! colon \<noteq> CHR '':'' then Inl (UrlError_UnknownScheme url)
      else let scheme = take colon url in
      if scheme = [] then Inl (UrlError_UnknownScheme [])
      else
      let rest = skip_slashes 2 (drop (colon + 1) url);
          rest = (case str_find (\<lambda>c. c = CHR ''#'') rest of Some h \<Rightarrow> take h rest | None \<Rightarrow> rest);
          (authority, query) =
            (case str_find (\<lambda>c. c = CHR ''?'') rest of
               Some q \<Rightarrow> (take q rest, Some (drop (q + 1) rest)) | None \<Rightarrow> (rest, None));
          (userinfo, hostport) =
            (case str_rfind (\<lambda>c. c = CHR ''@'') authority of
               Some a \<Rightarrow> (Some (take a authority), drop (a + 1) authority) | None \<Rightarrow> (None, authority))
      in
      try_res (case userinfo of Some ui \<Rightarrow> parse_userinfo ui | None \<Rightarrow> Inr (None, None))
        (\<lambda>(user, password).
      try_res (split_host_port hostport) (\<lambda>(host, port).
      if host = [] then Inl UrlError_MissingHost
      else Inr \<lparr>pu_scheme = scheme, pu_user = user, pu_password = password, pu_host = host,
                pu_port = port, pu_query = query\<rparr>))))"

section \<open>ICE servers\<close>

definition IceServer_stun :: "str \<Rightarrow> u16 \<Rightarrow> ice_server" where
  "IceServer_stun hostname port =
     \<lparr>is_hostname = hostname, is_port = port, is_typ = IceServerType_Stun, is_username = [],
      is_password = [], is_relay_type = RelayType_TurnUdp\<rparr>"

definition IceServer_new :: "str \<Rightarrow> u16 \<Rightarrow> ice_server" where
  "IceServer_new hostname port = IceServer_stun hostname port"

definition IceServer_turn :: "str \<Rightarrow> u16 \<Rightarrow> str \<Rightarrow> str \<Rightarrow> relay_type \<Rightarrow> ice_server" where
  "IceServer_turn hostname port username password relay =
     \<lparr>is_hostname = hostname, is_port = port, is_typ = IceServerType_Turn, is_username = username,
      is_password = password, is_relay_type = relay\<rparr>"

definition parse_port :: "str option \<Rightarrow> u16 \<Rightarrow> url_error + u16" where
  "parse_port port default_port =
     (case port of
        Some p \<Rightarrow> ok_or (parse_u16 p) (UrlError_InvalidPort p)
      | None \<Rightarrow> Inr default_port)"

definition query_relay :: "relay_type \<Rightarrow> str option \<Rightarrow> relay_type" where
  "query_relay relay query =
     (case query of
        None \<Rightarrow> relay
      | Some q \<Rightarrow>
          if str_contains q ''transport=udp'' then RelayType_TurnUdp
          else if str_contains q ''transport=tcp'' then RelayType_TurnTcp
          else if str_contains q ''transport=tls'' then RelayType_TurnTls
          else relay)"

definition ice_scheme :: "str \<Rightarrow> url_error + (ice_server_type \<times> relay_type \<times> u16)" where
  "ice_scheme scheme =
     (if scheme = ''stun'' then Inr (IceServerType_Stun, RelayType_TurnUdp, 3478)
      else if scheme = ''turn'' then Inr (IceServerType_Turn, RelayType_TurnUdp, 3478)
      else if scheme = ''turns'' then Inr (IceServerType_Turn, RelayType_TurnTls, 5349)
      else Inl (UrlError_UnknownScheme scheme))"

definition unwrap_or_default :: "str option \<Rightarrow> str" where
  "unwrap_or_default x = (case x of None \<Rightarrow> [] | Some s \<Rightarrow> s)"

definition IceServer_parse :: "str \<Rightarrow> url_error + ice_server" where
  "IceServer_parse url =
     try_res (ParsedUrl_parse url) (\<lambda>parsed.
     try_res (ice_scheme (to_ascii_lowercase (pu_scheme parsed))) (\<lambda>(typ, relay0, default_port).
       let relay = (if typ = IceServerType_Turn \<and> relay0 \<noteq> RelayType_TurnTls
                    then query_relay relay0 (pu_query parsed) else relay0);
           has_userinfo = (pu_user parsed \<noteq> None \<or> pu_password parsed \<noteq> None)
       in if typ = IceServerType_Stun \<and> has_userinfo then Inl UrlError_StunWithCredentials
          else if typ = IceServerType_Turn \<and> \<not> has_userinfo then Inl UrlError_TurnMissingCredentials
          else try_res (parse_port (pu_port parsed) default_port) (\<lambda>port.
            Inr \<lparr>is_hostname = pu_host parsed, is_port = port, is_typ = typ,
                 is_username = unwrap_or_default (pu_user parsed),
                 is_password = unwrap_or_default (pu_password parsed), is_relay_type = relay\<rparr>)))"

definition IceServer_is_stun :: "ice_server \<Rightarrow> bool" where
  "IceServer_is_stun self \<longleftrightarrow> is_typ self = IceServerType_Stun"

definition IceServer_is_turn :: "ice_server \<Rightarrow> bool" where
  "IceServer_is_turn self \<longleftrightarrow> is_typ self = IceServerType_Turn"

section \<open>Proxy servers\<close>

definition ProxyServer_new :: "proxy_type \<Rightarrow> str \<Rightarrow> u16 \<Rightarrow> proxy_server" where
  "ProxyServer_new typ hostname port =
     \<lparr>ps_typ = typ, ps_hostname = hostname, ps_port = port, ps_username = None, ps_password = None\<rparr>"

definition ProxyServer_with_credentials :: "proxy_type \<Rightarrow> str \<Rightarrow> u16 \<Rightarrow> str \<Rightarrow> str \<Rightarrow> proxy_server" where
  "ProxyServer_with_credentials typ hostname port username password =
     \<lparr>ps_typ = typ, ps_hostname = hostname, ps_port = port, ps_username = Some username,
      ps_password = Some password\<rparr>"

definition ProxyServer_parse :: "str \<Rightarrow> url_error + proxy_server" where
  "ProxyServer_parse url =
     try_res (ParsedUrl_parse url) (\<lambda>parsed.
       let scheme = to_ascii_lowercase (pu_scheme parsed) in
     try_res (if scheme = ''http'' \<or> scheme = ''https'' then Inr (ProxyType_Http, 3128)
              else if scheme = ''socks5'' then Inr (ProxyType_Socks5, 1080)
              else Inl (UrlError_UnknownScheme scheme)) (\<lambda>(typ, default_port).
     try_res (parse_port (pu_port parsed) default_port) (\<lambda>port.
       Inr \<lparr>ps_typ = typ, ps_hostname = pu_host parsed, ps_port = port,
            ps_username = pu_user parsed, ps_password = pu_password parsed\<rparr>)))"

section \<open>Configuration\<close>

definition Configuration_new :: configuration where
  "Configuration_new =
     \<lparr>cfg_ice_servers = [], cfg_proxy_server = None, cfg_bind_address = None,
      cfg_certificate_type = CertificateType_Default,
      cfg_ice_transport_policy = IceTransportPolicy_All,
      cfg_enable_ice_tcp = False, cfg_enable_ice_udp_mux = False,
      cfg_disable_auto_negotiation = False, cfg_disable_auto_gathering = False,
      cfg_force_media_transport = False, cfg_disable_fingerprint_verification = False,
      cfg_port_range_begin = 1024, cfg_port_range_end = 65535, cfg_mtu = None,
      cfg_max_message_size = None, cfg_congestion_control_algorithm = CongestionControl_Default\<rparr>"

text \<open>Methods on \<open>&mut self\<close> return the result and the new state.\<close>

definition Configuration_add_ice_server ::
    "configuration \<Rightarrow> str \<Rightarrow> (url_error + unit) \<times> configuration" where
  "Configuration_add_ice_server self url =
     (case IceServer_parse url of
        Inl e \<Rightarrow> (Inl e, self)
      | Inr parsed \<Rightarrow> (Inr (), self\<lparr>cfg_ice_servers := cfg_ice_servers self @ [parsed]\<rparr>))"

definition Configuration_add_ice_server_parsed :: "configuration \<Rightarrow> ice_server \<Rightarrow> configuration" where
  "Configuration_add_ice_server_parsed self server =
     self\<lparr>cfg_ice_servers := cfg_ice_servers self @ [server]\<rparr>"

text \<open>The instances of \<open>FromStr\<close> and \<open>Default\<close>.\<close>

definition IceServer_from_str :: "str \<Rightarrow> url_error + ice_server" where
  "IceServer_from_str s = IceServer_parse s"

definition ProxyServer_from_str :: "str \<Rightarrow> url_error + proxy_server" where
  "ProxyServer_from_str s = ProxyServer_parse s"

definition Configuration_default :: "configuration" where
  "Configuration_default = Configuration_new"

section \<open>Encoding and decoding\<close>

text \<open>
  The code has no encoder. The one here is the reference the decoder is measured against:
  RFC 3986 percent encoding of every byte that is not unreserved.
\<close>

definition url_safe :: "char \<Rightarrow> bool" where
  "url_safe c \<longleftrightarrow> (48 \<le> code c \<and> code c \<le> 57) \<or> (65 \<le> code c \<and> code c \<le> 90) \<or>
     (97 \<le> code c \<and> code c \<le> 122) \<or> code c \<in> {45, 46, 95, 126}"

definition hex_digit_up :: "nat \<Rightarrow> char" where
  "hex_digit_up n = chr (if n < 10 then 48 + n else 55 + n)"

definition percent_encode :: "str \<Rightarrow> str" where
  "percent_encode s = concat (map (\<lambda>c. if url_safe c then [c]
     else [CHR ''%'', hex_digit_up (code c div 16), hex_digit_up (code c mod 16)]) s)"

lemma hex_value_hex_digit_up: "n < 16 \<Longrightarrow> hex_value (hex_digit_up n) = Some (of_nat n)"
  by (auto simp: hex_value_def hex_digit_up_def)

lemma nibbles: 
  assumes "h < 16" "l < 16" shows "unat (push_bit 4 (of_nat h) OR of_nat l :: u8) = 16 * h + l"
proof -
  have l: "l = take_bit 4 l" using assms by (simp add: take_bit_nat_eq_self)
  have "push_bit 4 (of_nat h) OR of_nat l = (push_bit 4 (of_nat h) + of_nat l :: u8)"
    by (rule disjunctive_add [symmetric], subst l) (auto simp: bit_simps)
  also have "\<dots> = of_nat (16 * h + l)" by (simp add: push_bit_eq_mult)
  finally have eq: "push_bit 4 (of_nat h) OR of_nat l = (of_nat (16 * h + l) :: u8)" .
  have "16 * h + l < 256" using assms by simp
  then show ?thesis unfolding eq unat_of_nat by simp
qed

lemma url_safe_not_percent: "url_safe c \<Longrightarrow> c \<noteq> CHR ''%''"
  by (auto simp: url_safe_def code_def)

lemma percent_decode_loop_encode:
  "percent_decode_loop (percent_encode s @ t) out = percent_decode_loop t (out @ s)"
proof (induction s arbitrary: out)
  case Nil
  then show ?case by (simp add: percent_encode_def)
next
  case (Cons c s)
  have "code c div 16 < 16" "code c mod 16 < 16" using code_lt [of c] by (simp_all add: less_mult_imp_div_less)
  then show ?case
    using Cons.IH by (simp add: percent_encode_def hex_value_hex_digit_up nibbles url_safe_not_percent)
qed

lemma strip_pre_single: "strip_pre [c] s \<noteq> None \<longleftrightarrow> s \<noteq> [] \<and> hd s = c"
  by (cases s) auto

lemma str_contains_single: "str_contains s [c] \<longleftrightarrow> c \<in> set s"
  by (induction s) (auto simp: strip_pre_single)

lemma percent_encode_safe: "CHR ''%'' \<notin> set (percent_encode s) \<Longrightarrow> percent_encode s = s"
  by (induction s) (auto simp: percent_encode_def split: if_splits)

lemma percent_decode_encode: "utf8_valid s \<Longrightarrow> percent_decode (percent_encode s) = Inr s"
  using percent_decode_loop_encode [of s "[]" "[]"] percent_encode_safe [of s]
  by (auto simp: percent_decode_def str_contains_single)

definition enc_char :: "char \<Rightarrow> bool" where
  "enc_char c \<longleftrightarrow> url_safe c \<or> c = CHR ''%''"

lemma hex_digit_up_enc: "n < 16 \<Longrightarrow> url_safe (hex_digit_up n)"
  by (auto simp: url_safe_def hex_digit_up_def)

lemma percent_encode_chars: "c \<in> set (percent_encode s) \<Longrightarrow> enc_char c"
proof -
  have "code x div 16 < 16" for x using code_lt [of x] by (simp add: less_mult_imp_div_less)
  then show "c \<in> set (percent_encode s) \<Longrightarrow> enc_char c"
    by (auto simp: percent_encode_def enc_char_def hex_digit_up_enc split: if_splits)
qed

lemma enc_char_seps: "enc_char c \<Longrightarrow> c \<notin> {CHR '':'', CHR ''/'', CHR ''?'', CHR ''#'', CHR ''@'', CHR ''['', CHR '']''}"
  by (auto simp: enc_char_def url_safe_def code_def)

section \<open>Rendering a server as a URL\<close>

text \<open>
  A reference renderer: IPv6 literals in brackets, everything else percent-encoded, the
  port always written, the relay as a transport query.
\<close>

definition ipv6_literal :: "str \<Rightarrow> bool" where
  "ipv6_literal h \<longleftrightarrow> CHR '':'' \<in> set h \<and> list_all (\<lambda>c. is_ascii_hexdigit c \<or> c = CHR '':'' \<or> c = CHR ''.'') h"

definition render_host :: "str \<Rightarrow> str" where
  "render_host h = (if ipv6_literal h then ''['' @ h @ '']'' else percent_encode h)"

fun relay_query :: "relay_type \<Rightarrow> str" where
  "relay_query RelayType_TurnUdp = ''transport=udp''"
| "relay_query RelayType_TurnTcp = ''transport=tcp''"
| "relay_query RelayType_TurnTls = ''transport=tls''"

definition render_ice_server :: "ice_server \<Rightarrow> str" where
  "render_ice_server s =
     (if is_typ s = IceServerType_Stun
      then ''stun:'' @ render_host (is_hostname s) @ '':'' @ word_str (is_port s)
      else ''turn:'' @ percent_encode (is_username s) @ '':'' @ percent_encode (is_password s) @ ''@'' @
        render_host (is_hostname s) @ '':'' @ word_str (is_port s) @ ''?'' @ relay_query (is_relay_type s))"

definition ice_server_wf :: "ice_server \<Rightarrow> bool" where
  "ice_server_wf s \<longleftrightarrow> is_hostname s \<noteq> [] \<and> utf8_valid (is_hostname s) \<and>
     utf8_valid (is_username s) \<and> utf8_valid (is_password s) \<and>
     (is_typ s = IceServerType_Stun \<longrightarrow>
        is_username s = [] \<and> is_password s = [] \<and> is_relay_type s = RelayType_TurnUdp)"

text \<open>None of the characters that structure a URL behind its scheme.\<close>

definition plain :: "str \<Rightarrow> bool" where
  "plain s \<longleftrightarrow> set s \<inter> {CHR ''/'', CHR ''?'', CHR ''#'', CHR ''@''} = {}"

lemma plain_append [simp]: "plain (a @ b) \<longleftrightarrow> plain a \<and> plain b"
  by (auto simp: plain_def)

lemma plain_Cons [simp]: "plain (c # b) \<longleftrightarrow> c \<notin> {CHR ''/'', CHR ''?'', CHR ''#'', CHR ''@''} \<and> plain b"
  by (auto simp: plain_def)

lemma plain_Nil [simp]: "plain []" by (simp add: plain_def)

lemma plain_percent_encode [simp]: "plain (percent_encode s)"
  using percent_encode_chars [of _ s] enc_char_seps by (fastforce simp: plain_def)

lemma digit_char_url_safe: "d < 10 \<Longrightarrow> url_safe (digit_char d)"
  by (simp add: url_safe_def code_digit_char)

lemma word_str_url_safe: "c \<in> set (word_str w) \<Longrightarrow> url_safe c"
  unfolding word_str_def using dec_str_chars digit_char_url_safe by blast

lemma plain_word_str [simp]: "plain (word_str w)"
  using word_str_url_safe [of _ w] enc_char_seps by (fastforce simp: plain_def enc_char_def)

lemma ipv6_literal_chars:
  assumes "ipv6_literal h" "c \<in> set h"
  shows "c \<notin> {CHR ''/'', CHR ''?'', CHR ''#'', CHR ''@'', CHR '']'', CHR ''[''}"
proof -
  have "is_ascii_hexdigit c \<or> c = CHR '':'' \<or> c = CHR ''.''"
    using assms by (auto simp: ipv6_literal_def list_all_iff)
  then show ?thesis by (auto simp: is_ascii_hexdigit_def code_def)
qed

lemma plain_render_host [simp]: "plain (render_host h)"
proof -
  have "ipv6_literal h \<Longrightarrow> plain h" using ipv6_literal_chars [of h] by (auto simp: plain_def)
  then show ?thesis by (simp add: render_host_def)
qed

lemma word_str_no_colon: "CHR '':'' \<notin> set (word_str w)"
  using word_str_url_safe [of "CHR '':''" w] enc_char_seps [of "CHR '':''"] by (auto simp: enc_char_def)

lemma word_str_not_Nil [simp]: "word_str w \<noteq> []"
  using word_str_token [of w] by (auto simp: is_token_def)

lemma split_host_port_render:
  assumes "h \<noteq> []" "utf8_valid h"
  shows "split_host_port (render_host h @ '':'' @ word_str p) = Inr (h, Some (word_str p))"
proof (cases "ipv6_literal h")
  case True
  then have "str_find (\<lambda>c. c = CHR '']'') (h @ CHR '']'' # CHR '':'' # word_str p) = Some (length h)"
    using ipv6_literal_chars [OF True] by (intro str_find_append) auto
  then show ?thesis
    using True by (simp add: split_host_port_def render_host_def Let_def)
next
  case False
  have "percent_encode h \<noteq> []" using assms(1) by (cases h) (auto simp: percent_encode_def)
  then obtain x xs where e: "percent_encode h = x # xs" by (cases "percent_encode h") auto
  then have "x \<noteq> CHR ''[''" using percent_encode_chars [of x h] enc_char_seps by force
  moreover have "str_rfind (\<lambda>c. c = CHR '':'') (percent_encode h @ CHR '':'' # word_str p) = Some (length (percent_encode h))"
    using word_str_no_colon by (intro str_rfind_append) auto
  ultimately show ?thesis
    using False e percent_decode_encode [OF assms(2)]
    by (simp add: split_host_port_def render_host_def Let_def)
qed

lemma parse_userinfo_render:
  assumes "utf8_valid u" "utf8_valid p"
  shows "parse_userinfo (percent_encode u @ '':'' @ percent_encode p) = Inr (if u = [] then None else Some u, Some p)"
proof -
  have "str_find (\<lambda>c. c = CHR '':'') (percent_encode u @ CHR '':'' # percent_encode p) = Some (length (percent_encode u))"
    using percent_encode_chars [of _ u] enc_char_seps by (intro str_find_append) force+
  moreover have "percent_encode u = [] \<longleftrightarrow> u = []"
    by (cases u) (auto simp: percent_encode_def)
  ultimately show ?thesis
    using assms by (simp add: parse_userinfo_def percent_decode_encode)
qed

lemma str_find_plain: "plain s \<Longrightarrow> sep \<in> {CHR ''/'', CHR ''?'', CHR ''#'', CHR ''@''} \<Longrightarrow> str_find (\<lambda>c. c = sep) s = None"
  by (auto simp: str_find_None_iff plain_def)


definition authority :: "str option \<Rightarrow> str \<Rightarrow> str" where
  "authority ui hp = (case ui of None \<Rightarrow> hp | Some u \<Rightarrow> u @ CHR ''@'' # hp)"

definition query_part :: "str option \<Rightarrow> str" where
  "query_part q = (case q of None \<Rightarrow> [] | Some x \<Rightarrow> CHR ''?'' # x)"

lemma skip_slashes_plain: "hd s \<noteq> CHR ''/'' \<Longrightarrow> skip_slashes n s = s"
  by (cases n) (auto split: list.splits)

lemma ParsedUrl_parse_render:
  assumes sch: "sch \<noteq> []" "\<forall>c \<in> set sch. url_safe c"
    and hp: "hp \<noteq> []" "plain hp"
    and ui: "\<forall>u. ui = Some u \<longrightarrow> plain u"
    and q: "\<forall>x. query = Some x \<longrightarrow> CHR ''#'' \<notin> set x"
    and solid: "ascii_solid (last (hp @ query_part query))"
  shows "ParsedUrl_parse (sch @ '':'' @ authority ui hp @ query_part query) =
    try_res (case ui of Some u \<Rightarrow> parse_userinfo u | None \<Rightarrow> Inr (None, None)) (\<lambda>(user, password).
    try_res (split_host_port hp) (\<lambda>(host, port).
      if host = [] then Inl UrlError_MissingHost
      else Inr \<lparr>pu_scheme = sch, pu_user = user, pu_password = password, pu_host = host,
                pu_port = port, pu_query = query\<rparr>))"
proof -
  let ?rest = "authority ui hp @ query_part query"
  let ?url = "sch @ '':'' @ ?rest"
  have hd: "ascii_solid (hd ?url)"
    using sch by (cases sch) (auto simp: ascii_solid_def url_safe_def ws1_def)
  have last: "ascii_solid (last ?url)"
    using solid hp(1) by (auto simp: authority_def split: option.splits)
  have trim: "str_trim ?url = ?url"
    by (rule str_trim_solid) (use hd last in auto)
  have find: "str_find (\<lambda>c. c \<in> {CHR '':'', CHR ''/'', CHR ''?'', CHR ''#'', CHR ''@''}) ?url = Some (length sch)"
    using sch(2) enc_char_seps by (simp add: enc_char_def) (intro str_find_append; force)
  have plain_auth: "set (authority ui hp) \<inter> {CHR ''/'', CHR ''?'', CHR ''#''} = {}"
    using hp ui by (auto simp: authority_def plain_def split: option.splits)
  have "hd ?rest \<noteq> CHR ''/''"
    using plain_auth hp(1) by (cases "authority ui hp") (auto simp: authority_def split: option.splits)
  then have slashes: "skip_slashes 2 ?rest = ?rest" by (rule skip_slashes_plain)
  have hash: "str_find (\<lambda>c. c = CHR ''#'') ?rest = None"
    using plain_auth q by (auto simp: str_find_None_iff query_part_def split: option.splits)
  have qm: "(case str_find (\<lambda>c. c = CHR ''?'') ?rest of
      Some i \<Rightarrow> (take i ?rest, Some (drop (i + 1) ?rest)) | None \<Rightarrow> (?rest, None)) = (authority ui hp, query)"
  proof (cases query)
    case None
    then have "str_find (\<lambda>c. c = CHR ''?'') ?rest = None"
      using plain_auth by (auto simp: str_find_None_iff query_part_def)
    with None show ?thesis by (simp add: query_part_def)
  next
    case (Some x)
    then have "str_find (\<lambda>c. c = CHR ''?'') ?rest = Some (length (authority ui hp))"
      using plain_auth by (simp add: query_part_def) (intro str_find_append; auto)
    with Some show ?thesis by (simp add: query_part_def)
  qed
  have at_sign: "(case str_rfind (\<lambda>c. c = CHR ''@'') (authority ui hp) of
      Some a \<Rightarrow> (Some (take a (authority ui hp)), drop (a + 1) (authority ui hp))
    | None \<Rightarrow> (None, authority ui hp)) = (ui, hp)"
  proof (cases ui)
    case None
    then have "str_rfind (\<lambda>c. c = CHR ''@'') (authority ui hp) = None"
      using hp by (auto simp: str_rfind_None_iff authority_def plain_def)
    with None show ?thesis by (simp add: authority_def)
  next
    case (Some u)
    then have "str_rfind (\<lambda>c. c = CHR ''@'') (authority ui hp) = Some (length u)"
      using hp by (simp add: authority_def plain_def) (intro str_rfind_append; auto)
    with Some show ?thesis by (simp add: authority_def)
  qed
  have parts: "take (length sch) ?url = sch" "drop (length sch + 1) ?url = ?rest"
    "?url ! length sch = CHR '':''" "?url \<noteq> []"
    by simp_all
  show ?thesis
    unfolding ParsedUrl_parse_def trim Let_def find ok_or_simps try_res_simps parts slashes hash
      option.case qm prod.case at_sign
    using sch(1) by simp
qed


lemma url_safe_solid: "url_safe c \<Longrightarrow> ascii_solid c"
  by (auto simp: url_safe_def ascii_solid_def ws1_def)

lemma last_word_str_solid: "ascii_solid (last (word_str w))"
  by (rule url_safe_solid, rule word_str_url_safe, rule last_in_set) simp

lemma parse_port_word_str: "parse_port (Some (word_str p)) d = Inr p"
  by (simp add: parse_port_def)

lemma relay_query_facts:
  "CHR ''#'' \<notin> set (relay_query r)" "relay_query r \<noteq> []" "ascii_solid (last (relay_query r))"
  "query_relay d (Some (relay_query r)) = r"
  by (cases r; simp add: query_relay_def ascii_solid_def code_def ws1_def)+

lemma ParsedUrl_parse_stun:
  assumes "h \<noteq> []" "utf8_valid h"
  shows "ParsedUrl_parse (''stun:'' @ render_host h @ '':'' @ word_str p) =
    Inr \<lparr>pu_scheme = ''stun'', pu_user = None, pu_password = None, pu_host = h,
         pu_port = Some (word_str p), pu_query = None\<rparr>"
proof -
  have "ParsedUrl_parse (''stun'' @ '':'' @ authority None (render_host h @ '':'' @ word_str p) @ query_part None) =
    Inr \<lparr>pu_scheme = ''stun'', pu_user = None, pu_password = None, pu_host = h,
         pu_port = Some (word_str p), pu_query = None\<rparr>"
    by (subst ParsedUrl_parse_render)
      (use assms split_host_port_render [OF assms, of p] last_word_str_solid [of p]
        in \<open>simp_all add: query_part_def url_safe_def code_def\<close>)
  then show ?thesis by (simp add: authority_def query_part_def)
qed

lemma ParsedUrl_parse_turn:
  assumes "h \<noteq> []" "utf8_valid h" "utf8_valid u" "utf8_valid pw"
  shows "ParsedUrl_parse (''turn:'' @ percent_encode u @ '':'' @ percent_encode pw @ ''@'' @
      render_host h @ '':'' @ word_str p @ ''?'' @ relay_query r) =
    Inr \<lparr>pu_scheme = ''turn'', pu_user = (if u = [] then None else Some u), pu_password = Some pw,
         pu_host = h, pu_port = Some (word_str p), pu_query = Some (relay_query r)\<rparr>"
proof -
  have "ParsedUrl_parse (''turn'' @ '':'' @
      authority (Some (percent_encode u @ '':'' @ percent_encode pw)) (render_host h @ '':'' @ word_str p)
      @ query_part (Some (relay_query r))) =
    Inr \<lparr>pu_scheme = ''turn'', pu_user = (if u = [] then None else Some u), pu_password = Some pw,
         pu_host = h, pu_port = Some (word_str p), pu_query = Some (relay_query r)\<rparr>"
    by (subst ParsedUrl_parse_render)
      (use assms split_host_port_render [OF assms(1,2), of p] relay_query_facts [of r]
         parse_userinfo_render [OF assms(3,4)]
        in \<open>simp_all add: query_part_def url_safe_def code_def\<close>)
  then show ?thesis by (simp add: authority_def query_part_def)
qed

lemma lower_schemes: "to_ascii_lowercase ''stun'' = ''stun''" "to_ascii_lowercase ''turn'' = ''turn''"
  by (simp_all add: str_eval)

text \<open>What every accepted URL gives.\<close>

lemma split_host_port_port: "split_host_port s = Inr (h, Some p) \<Longrightarrow> p \<noteq> []"
  by (auto simp: split_host_port_def Let_def result_iffs split: option.splits if_splits)

lemma ParsedUrl_parse_host: "ParsedUrl_parse url = Inr p \<Longrightarrow> pu_host p \<noteq> [] \<and> pu_scheme p \<noteq> []"
  by (auto simp: ParsedUrl_parse_def Let_def result_iffs split: prod.splits if_splits)

text \<open>Decoding always yields UTF-8.\<close>

lemma percent_decode_utf8: "utf8_valid s \<Longrightarrow> percent_decode s = Inr t \<Longrightarrow> utf8_valid t"
  by (auto simp: percent_decode_def result_iffs split: if_splits)

lemma decode_sum: "(case r of Inl e \<Rightarrow> None | Inr x \<Rightarrow> Some x) = Some y \<longleftrightarrow> r = Inr y"
  by (cases r) auto

definition IceServer_decode :: "str \<Rightarrow> ice_server option" where
  "IceServer_decode url = (case IceServer_parse url of Inl e \<Rightarrow> None | Inr s \<Rightarrow> Some s)"

lemma IceServer_parse_render:
  assumes "ice_server_wf s"
  shows "IceServer_parse (render_ice_server s) = Inr s"
proof (cases "is_typ s")
  case IceServerType_Stun
  then show ?thesis
    using assms ParsedUrl_parse_stun [of "is_hostname s" "is_port s"]
    by (simp add: render_ice_server_def IceServer_parse_def lower_schemes ice_scheme_def
        parse_port_word_str ice_server_wf_def unwrap_or_default_def)
next
  case IceServerType_Turn
  then show ?thesis
    using assms ParsedUrl_parse_turn [of "is_hostname s" "is_username s" "is_password s" "is_port s" "is_relay_type s"]
    by (simp add: render_ice_server_def IceServer_parse_def lower_schemes ice_scheme_def Let_def
        parse_port_word_str ice_server_wf_def unwrap_or_default_def relay_query_facts)
qed

interpretation ice_url_codec: exact_codec render_ice_server IceServer_decode ice_server_wf
  by unfold_locales (simp add: IceServer_decode_def IceServer_parse_render)

section \<open>Properties\<close>

text \<open>C25: the URL parser inverts the reference renderer: for every server with a host, text
  fields in UTF-8 and, if it is a STUN server, no credentials, parsing its URL gives back
  host, port, credentials and relay type, whatever characters they hold.\<close>

theorem ice_server_url_roundtrip:
  assumes "ice_server_wf s"
  shows "IceServer_parse (render_ice_server s) = Inr s"
  using ice_url_codec.decode_encode_exact [OF assms]
  unfolding IceServer_decode_def decode_sum .

theorem ice_server_url_roundtrip_witness:
  "IceServer_parse (render_ice_server (IceServer_turn ''::1'' 3478 ''us@er'' ''p:ss'' RelayType_TurnTcp))
     = Inr (IceServer_turn ''::1'' 3478 ''us@er'' ''p:ss'' RelayType_TurnTcp)"
  by (rule ice_server_url_roundtrip)
    (simp add: ice_server_wf_def IceServer_turn_def utf8_width_def code_def)

text \<open>C31: percent decoding inverts percent encoding on every UTF-8 string, and whatever it
  accepts decodes to UTF-8 again.\<close>

theorem percent_decode_inverts:
  assumes "utf8_valid s"
  shows "percent_decode (percent_encode s) = Inr s \<and>
    (\<forall>t. percent_decode s = Inr t \<longrightarrow> utf8_valid t)"
  using assms percent_decode_encode percent_decode_utf8 by blast

theorem percent_decode_inverts_witness:
  "utf8_valid ''us@er%'' \<and> percent_decode (percent_encode ''us@er%'') = Inr ''us@er%''"
proof -
  have v: "utf8_valid ''us@er%''" by (simp add: utf8_width_def code_def)
  then show ?thesis using percent_decode_inverts [OF v] by simp
qed

text \<open>C40: every accepted URL names a host; a STUN server never carries credentials and a TURN
  server is only accepted with some; the scheme fixes the kind of server, and a turns URL
  keeps TLS whatever its query says.\<close>

theorem ice_server_parse_sound:
  assumes "IceServer_parse url = Inr s"
  shows "\<exists>p. ParsedUrl_parse url = Inr p \<and> is_hostname s = pu_host p \<and> is_hostname s \<noteq> [] \<and>
    (IceServer_is_turn s \<longleftrightarrow> pu_user p \<noteq> None \<or> pu_password p \<noteq> None) \<and>
    (IceServer_is_stun s \<longrightarrow>
       is_username s = [] \<and> is_password s = [] \<and> is_relay_type s = RelayType_TurnUdp) \<and>
    (IceServer_is_stun s \<longleftrightarrow> to_ascii_lowercase (pu_scheme p) = ''stun'') \<and>
    (to_ascii_lowercase (pu_scheme p) = ''turns'' \<longrightarrow> is_relay_type s = RelayType_TurnTls)"
proof -
  from assms obtain p where p: "ParsedUrl_parse url = Inr p"
    by (auto simp: IceServer_parse_def result_iffs)
  show ?thesis
    by (rule exI [of _ p])
      (use assms p ParsedUrl_parse_host [OF p] in \<open>auto simp: IceServer_parse_def ice_scheme_def
        IceServer_is_stun_def IceServer_is_turn_def unwrap_or_default_def result_iffs Let_def
        split: if_splits\<close>)
qed

lemmas url_eval = num_eval IceServer_parse_def ParsedUrl_parse_def parse_userinfo_def split_host_port_def
  percent_decode_def ice_scheme_def parse_port_def query_relay_def unwrap_or_default_def numeral_2_eq_2

lemma sample_turns:
  "IceServer_parse ''turns:u:p@turn.example.com?transport=udp'' =
     Inr (IceServer_turn ''turn.example.com'' 5349 ''u'' ''p'' RelayType_TurnTls)"
  by (simp add: url_eval IceServer_turn_def)

theorem ice_server_parse_sound_witness:
  "\<exists>p. ParsedUrl_parse ''turns:u:p@turn.example.com?transport=udp'' = Inr p \<and>
     is_hostname (IceServer_turn ''turn.example.com'' 5349 ''u'' ''p'' RelayType_TurnTls) = pu_host p"
  using ice_server_parse_sound [OF sample_turns] by blast

text \<open>The scheme stuns is never accepted, although the documentation of the parser lists it.\<close>

theorem stuns_rejected:
  assumes "ParsedUrl_parse url = Inr p" "to_ascii_lowercase (pu_scheme p) = ''stuns''"
  shows "IceServer_parse url = Inl (UrlError_UnknownScheme ''stuns'')"
  using assms by (simp add: IceServer_parse_def ice_scheme_def)

theorem stuns_rejected_witness:
  "IceServer_parse ''stuns:stun.example.com'' = Inl (UrlError_UnknownScheme ''stuns'')"
proof (rule stuns_rejected)
  show "ParsedUrl_parse ''stuns:stun.example.com'' = Inr \<lparr>pu_scheme = ''stuns'', pu_user = None,
      pu_password = None, pu_host = ''stun.example.com'', pu_port = None, pu_query = None\<rparr>"
    by (simp add: url_eval)
qed (simp add: str_eval)

text \<open>An IPv6 literal without brackets is not rejected: its last group is taken for the
  port, and the server is added with a truncated host name.\<close>

theorem unbracketed_ipv6_accepted:
  "IceServer_parse ''stun:2001:db8::1'' = Inr (IceServer_stun ''2001:db8:'' 1)"
proof -
  have "ParsedUrl_parse ''stun:2001:db8::1'' = Inr \<lparr>pu_scheme = ''stun'', pu_user = None,
      pu_password = None, pu_host = ''2001:db8:'', pu_port = Some ''1'', pu_query = None\<rparr>"
    by (simp add: ParsedUrl_parse_def parse_userinfo_def split_host_port_def percent_decode_def
        str_eval numeral_2_eq_2)
  moreover have "parse_port (Some ''1'') x = Inr 1" for x
    by (simp add: parse_port_def num_eval)
  ultimately show ?thesis
    by (simp add: IceServer_parse_def ice_scheme_def lower_schemes Let_def unwrap_or_default_def
        IceServer_stun_def)
qed

text \<open>Adding a server by URL is atomic: on an error the configuration is the old one, on
  success exactly the parsed server is appended and no other field changes.\<close>

theorem add_ice_server_atomic:
  "Configuration_add_ice_server self url =
     (case IceServer_parse url of
        Inl e \<Rightarrow> (Inl e, self)
      | Inr s \<Rightarrow> (Inr (), Configuration_add_ice_server_parsed self s))"
  by (simp add: Configuration_add_ice_server_def Configuration_add_ice_server_parsed_def split: sum.splits)

end
