(* ===== verification/Reliability.thy ===== *)
theory Reliability
  imports Prelude
begin

text \<open>
  \<open>src/reliability.rs\<close>: the reliability parameters of a data channel, and
  \<open>src/error.rs\<close>: the crate's error enumeration with its two conversions (the message of
  the standard library error is the argument).
\<close>

datatype reliability_type =
    ReliabilityType_Reliable
  | ReliabilityType_Rexmit
  | ReliabilityType_Timed

fun ReliabilityType_as_str :: "reliability_type \<Rightarrow> str" where
  "ReliabilityType_as_str ReliabilityType_Reliable = ''reliable''"
| "ReliabilityType_as_str ReliabilityType_Rexmit = ''rexmit''"
| "ReliabilityType_as_str ReliabilityType_Timed = ''timed''"

record reliability =
  r_unordered :: bool
  r_typ :: reliability_type
  r_rexmit :: u32

definition Reliability_new :: reliability where
  "Reliability_new = \<lparr>r_unordered = False, r_typ = ReliabilityType_Reliable, r_rexmit = 0\<rparr>"

definition Reliability_reliable :: reliability where
  "Reliability_reliable = Reliability_new"

definition Reliability_unreliable_retransmits :: "u32 \<Rightarrow> reliability" where
  "Reliability_unreliable_retransmits max_retransmits =
     \<lparr>r_unordered = False, r_typ = ReliabilityType_Rexmit, r_rexmit = max_retransmits\<rparr>"

definition Reliability_unreliable_timed :: "u32 \<Rightarrow> reliability" where
  "Reliability_unreliable_timed max_lifetime_ms =
     \<lparr>r_unordered = False, r_typ = ReliabilityType_Timed, r_rexmit = max_lifetime_ms\<rparr>"

definition Reliability_default :: reliability where
  "Reliability_default = Reliability_new"

datatype error =
    Error_InvalidArg
  | Error_Runtime
  | Error_NotAvailable
  | Error_TooSmall
  | Error_Unknown
  | Error_BadString str

definition Error_from_nul_error :: "str \<Rightarrow> error" where
  "Error_from_nul_error message = Error_BadString message"

definition Error_from_utf8_error :: "str \<Rightarrow> error" where
  "Error_from_utf8_error message = Error_BadString message"

end
