(* ===== verification/Description.thy ===== *)
theory Description
  imports Candidate
begin

text \<open>
  \<open>src/description.rs\<close>, the data type: the SDP description, its \<open>Application\<close> media
  section and its certificate fingerprint, with every getter, setter and the serializer.
  The parser is in \<open>Sdp_Parser\<close>.
\<close>

section \<open>Session-level enumerations\<close>

datatype sdp_type = Type_Unspec | Type_Offer | Type_Answer | Type_Pranswer | Type_Rollback

fun Type_as_str :: "sdp_type \<Rightarrow> str" where
  "Type_as_str Type_Unspec = ''unspec''"
| "Type_as_str Type_Offer = ''offer''"
| "Type_as_str Type_Answer = ''answer''"
| "Type_as_str Type_Pranswer = ''pranswer''"
| "Type_as_str Type_Rollback = ''rollback''"

definition Type_from_string :: "str \<Rightarrow> sdp_type" where
  "Type_from_string s =
     (if s = ''offer'' then Type_Offer
      else if s = ''answer'' then Type_Answer
      else if s = ''pranswer'' then Type_Pranswer
      else if s = ''rollback'' then Type_Rollback
      else Type_Unspec)"

datatype role = Role_ActPass | Role_Passive | Role_Active

fun Role_as_sdp :: "role \<Rightarrow> str" where
  "Role_as_sdp Role_Active = ''active''"
| "Role_as_sdp Role_Passive = ''passive''"
| "Role_as_sdp Role_ActPass = ''actpass''"

datatype direction =
    Direction_Unknown
  | Direction_SendOnly
  | Direction_RecvOnly
  | Direction_SendRecv
  | Direction_Inactive

fun Direction_as_sdp :: "direction \<Rightarrow> str" where
  "Direction_as_sdp Direction_RecvOnly = ''recvonly''"
| "Direction_as_sdp Direction_SendOnly = ''sendonly''"
| "Direction_as_sdp Direction_SendRecv = ''sendrecv''"
| "Direction_as_sdp Direction_Inactive = ''inactive''"
| "Direction_as_sdp Direction_Unknown = ''unknown''"

section \<open>Fingerprints\<close>

datatype fingerprint_algorithm =
    FingerprintAlgorithm_Sha1
  | FingerprintAlgorithm_Sha224
  | FingerprintAlgorithm_Sha256
  | FingerprintAlgorithm_Sha384
  | FingerprintAlgorithm_Sha512

fun FingerprintAlgorithm_as_sdp :: "fingerprint_algorithm \<Rightarrow> str" where
  "FingerprintAlgorithm_as_sdp FingerprintAlgorithm_Sha1 = ''sha-1''"
| "FingerprintAlgorithm_as_sdp FingerprintAlgorithm_Sha224 = ''sha-224''"
| "FingerprintAlgorithm_as_sdp FingerprintAlgorithm_Sha256 = ''sha-256''"
| "FingerprintAlgorithm_as_sdp FingerprintAlgorithm_Sha384 = ''sha-384''"
| "FingerprintAlgorithm_as_sdp FingerprintAlgorithm_Sha512 = ''sha-512''"

fun FingerprintAlgorithm_size :: "fingerprint_algorithm \<Rightarrow> nat" where
  "FingerprintAlgorithm_size FingerprintAlgorithm_Sha1 = 20"
| "FingerprintAlgorithm_size FingerprintAlgorithm_Sha224 = 28"
| "FingerprintAlgorithm_size FingerprintAlgorithm_Sha256 = 32"
| "FingerprintAlgorithm_size FingerprintAlgorithm_Sha384 = 48"
| "FingerprintAlgorithm_size FingerprintAlgorithm_Sha512 = 64"

definition FingerprintAlgorithm_from_sdp :: "str \<Rightarrow> fingerprint_algorithm option" where
  "FingerprintAlgorithm_from_sdp s =
     (if s = ''sha-1'' then Some FingerprintAlgorithm_Sha1
      else if s = ''sha-224'' then Some FingerprintAlgorithm_Sha224
      else if s = ''sha-256'' then Some FingerprintAlgorithm_Sha256
      else if s = ''sha-384'' then Some FingerprintAlgorithm_Sha384
      else if s = ''sha-512'' then Some FingerprintAlgorithm_Sha512
      else None)"

record fingerprint =
  fp_algorithm :: fingerprint_algorithm
  fp_value :: str

definition Fingerprint_is_valid :: "fingerprint \<Rightarrow> bool" where
  "Fingerprint_is_valid self =
     (let expected = FingerprintAlgorithm_size (fp_algorithm self) in
      if expected = 0 \<or> length (fp_value self) \<noteq> expected * 3 - 1 then False
      else list_all (\<lambda>(i, ch). if i mod 3 = 2 then ch = CHR '':'' else is_ascii_hexdigit ch)
             (enumerate 0 (fp_value self)))"

section \<open>The application section\<close>

record application =
  app_mid :: str
  app_sctp_port :: "u16 option"
  app_max_message_size :: "usize option"
  app_extra_attrs :: "str list"
  app_direction :: direction

definition Application_new :: "str \<Rightarrow> application" where
  "Application_new mid =
     \<lparr>app_mid = mid, app_sctp_port = None, app_max_message_size = None, app_extra_attrs = [],
      app_direction = Direction_SendRecv\<rparr>"

definition Application_set_mid :: "application \<Rightarrow> str \<Rightarrow> application" where
  "Application_set_mid self mid = self\<lparr>app_mid := mid\<rparr>"

definition Application_set_sctp_port :: "application \<Rightarrow> u16 \<Rightarrow> application" where
  "Application_set_sctp_port self port = self\<lparr>app_sctp_port := Some port\<rparr>"

definition Application_set_max_message_size :: "application \<Rightarrow> usize \<Rightarrow> application" where
  "Application_set_max_message_size self size' = self\<lparr>app_max_message_size := Some size'\<rparr>"

definition Application_set_direction :: "application \<Rightarrow> direction \<Rightarrow> application" where
  "Application_set_direction self dir = self\<lparr>app_direction := dir\<rparr>"

section \<open>The description\<close>

datatype description_parse_error =
    DescriptionParseError_MissingVersion
  | DescriptionParseError_InvalidMedia str
  | DescriptionParseError_BadInteger str
  | DescriptionParseError_BadCandidate candidate_parse_error

record description =
  d_typ :: sdp_type
  d_role :: role
  d_username :: str
  d_session_id :: str
  d_session_version :: str
  d_bundle_mids :: "str list"
  d_ice_ufrag :: "str option"
  d_ice_pwd :: "str option"
  d_ice_options :: "str list"
  d_fingerprint :: "fingerprint option"
  d_extmap_allow_mixed :: bool
  d_extra_attrs :: "str list"
  d_application :: "application option"
  d_other_sections :: "str list"
  d_candidates :: "candidate list"
  d_ended :: bool

text \<open>
  The session id comes from the clock: \<open>now\<close> is what \<open>duration_since(UNIX_EPOCH)\<close>
  returns, seconds and nanoseconds, or \<open>None\<close> for a clock before the epoch.
\<close>

type_synonym clock = "(u64 \<times> u32) option"

definition random_session_id :: "clock \<Rightarrow> str" where
  "random_session_id now =
     (let nanos = (case now of Some (secs, subsec_nanos) \<Rightarrow> Bit_Operations.xor (ucast subsec_nanos) secs | None \<Rightarrow> 0);
          v = Bit_Operations.xor (ucast nanos :: u32) 0x9E3779B1
      in word_str v)"

definition Description_new :: "clock \<Rightarrow> sdp_type \<Rightarrow> role \<Rightarrow> description" where
  "Description_new now typ rl =
     \<lparr>d_typ = typ, d_role = rl, d_username = ''rtc'', d_session_id = random_session_id now,
      d_session_version = ''0'', d_bundle_mids = [], d_ice_ufrag = None, d_ice_pwd = None,
      d_ice_options = [], d_fingerprint = None, d_extmap_allow_mixed = False, d_extra_attrs = [],
      d_application = None, d_other_sections = [], d_candidates = [], d_ended = False\<rparr>"

definition Description_type_string :: "description \<Rightarrow> str" where
  "Description_type_string self = Type_as_str (d_typ self)"

definition Description_hint_type :: "description \<Rightarrow> sdp_type \<Rightarrow> description" where
  "Description_hint_type self typ = (if d_typ self = Type_Unspec then self\<lparr>d_typ := typ\<rparr> else self)"

definition Description_set_role :: "description \<Rightarrow> role \<Rightarrow> description" where
  "Description_set_role self rl = self\<lparr>d_role := rl\<rparr>"

definition Description_ice_ufrag :: "description \<Rightarrow> str" where
  "Description_ice_ufrag self = (case d_ice_ufrag self of None \<Rightarrow> [] | Some u \<Rightarrow> u)"

definition Description_ice_pwd :: "description \<Rightarrow> str" where
  "Description_ice_pwd self = (case d_ice_pwd self of None \<Rightarrow> [] | Some p \<Rightarrow> p)"

definition Description_set_ice_ufrag :: "description \<Rightarrow> str \<Rightarrow> description" where
  "Description_set_ice_ufrag self ufrag = self\<lparr>d_ice_ufrag := Some ufrag\<rparr>"

definition Description_set_ice_pwd :: "description \<Rightarrow> str \<Rightarrow> description" where
  "Description_set_ice_pwd self pwd = self\<lparr>d_ice_pwd := Some pwd\<rparr>"

definition Description_set_ice_attribute :: "description \<Rightarrow> str \<Rightarrow> str \<Rightarrow> description" where
  "Description_set_ice_attribute self ufrag pwd = self\<lparr>d_ice_ufrag := Some ufrag, d_ice_pwd := Some pwd\<rparr>"

definition Description_add_ice_option :: "description \<Rightarrow> str \<Rightarrow> description" where
  "Description_add_ice_option self option =
     self\<lparr>d_ice_options := push_new (=) (d_ice_options self) option\<rparr>"

definition Description_set_fingerprint :: "description \<Rightarrow> fingerprint \<Rightarrow> description" where
  "Description_set_fingerprint self fp =
     self\<lparr>d_fingerprint := Some (fp\<lparr>fp_value := to_ascii_uppercase (fp_value fp)\<rparr>)\<rparr>"

definition Description_set_extmap_allow_mixed :: "description \<Rightarrow> bool \<Rightarrow> description" where
  "Description_set_extmap_allow_mixed self on = self\<lparr>d_extmap_allow_mixed := on\<rparr>"

definition Description_bundle_mid :: "description \<Rightarrow> str" where
  "Description_bundle_mid self =
     (case d_application self of
        Some app \<Rightarrow> app_mid app
      | None \<Rightarrow> (case d_bundle_mids self of m # _ \<Rightarrow> m | [] \<Rightarrow> ''0''))"

definition Description_set_application :: "description \<Rightarrow> application \<Rightarrow> description" where
  "Description_set_application self app =
     (let mids = (case d_application self of
                    Some old \<Rightarrow> filter (\<lambda>m. m \<noteq> app_mid old) (d_bundle_mids self)
                  | None \<Rightarrow> d_bundle_mids self);
          mid = app_mid app;
          mids = (if \<not> list_ex (\<lambda>m. m = mid) mids then mid # mids else mids)
      in self\<lparr>d_bundle_mids := mids, d_application := Some app\<rparr>)"

text \<open>\<open>application_or_create\<close> returns a mutable borrow of the section it ensures.\<close>

definition Description_application_or_create :: "description \<Rightarrow> str \<Rightarrow> description" where
  "Description_application_or_create self mid =
     (if d_application self = None then Description_set_application self (Application_new mid) else self)"

definition Description_has_application :: "description \<Rightarrow> bool" where
  "Description_has_application self \<longleftrightarrow> d_application self \<noteq> None"

definition Description_add_candidate :: "description \<Rightarrow> candidate \<Rightarrow> description" where
  "Description_add_candidate self c =
     (let default_mid = Description_bundle_mid self;
          c = Candidate_hint_mid c default_mid
      in self\<lparr>d_candidates := push_new candidate_eq (d_candidates self) c\<rparr>)"

definition Description_end_candidates :: "description \<Rightarrow> description" where
  "Description_end_candidates self = self\<lparr>d_ended := True\<rparr>"

text \<open>The accessors and the tokens that \<open>Display\<close> writes.\<close>

definition Type_fmt :: "sdp_type \<Rightarrow> str" where
  "Type_fmt self = Type_as_str self"

definition Role_fmt :: "role \<Rightarrow> str" where
  "Role_fmt self = Role_as_sdp self"

definition Direction_fmt :: "direction \<Rightarrow> str" where
  "Direction_fmt self = Direction_as_sdp self"

definition FingerprintAlgorithm_fmt :: "fingerprint_algorithm \<Rightarrow> str" where
  "FingerprintAlgorithm_fmt self = FingerprintAlgorithm_as_sdp self"

definition Application_mid :: "application \<Rightarrow> str" where
  "Application_mid self = app_mid self"

definition Application_sctp_port :: "application \<Rightarrow> u16 option" where
  "Application_sctp_port self = app_sctp_port self"

definition Application_max_message_size :: "application \<Rightarrow> usize option" where
  "Application_max_message_size self = app_max_message_size self"

definition Application_direction :: "application \<Rightarrow> direction" where
  "Application_direction self = app_direction self"

definition Application_extra_attrs :: "application \<Rightarrow> str list" where
  "Application_extra_attrs self = app_extra_attrs self"

definition Description_type :: "description \<Rightarrow> sdp_type" where
  "Description_type self = d_typ self"

definition Description_role :: "description \<Rightarrow> role" where
  "Description_role self = d_role self"

definition Description_ice_options :: "description \<Rightarrow> str list" where
  "Description_ice_options self = d_ice_options self"

definition Description_fingerprint :: "description \<Rightarrow> fingerprint option" where
  "Description_fingerprint self = d_fingerprint self"

definition Description_extmap_allow_mixed :: "description \<Rightarrow> bool" where
  "Description_extmap_allow_mixed self = d_extmap_allow_mixed self"

definition Description_bundle_mids :: "description \<Rightarrow> str list" where
  "Description_bundle_mids self = d_bundle_mids self"

definition Description_username :: "description \<Rightarrow> str" where
  "Description_username self = d_username self"

definition Description_session_id :: "description \<Rightarrow> str" where
  "Description_session_id self = d_session_id self"

definition Description_session_version :: "description \<Rightarrow> str" where
  "Description_session_version self = d_session_version self"

definition Description_application :: "description \<Rightarrow> application option" where
  "Description_application self = d_application self"

definition Description_candidates :: "description \<Rightarrow> candidate list" where
  "Description_candidates self = d_candidates self"

definition Description_end_of_candidates :: "description \<Rightarrow> bool" where
  "Description_end_of_candidates self = d_ended self"

section \<open>Serialization\<close>

definition fingerprint_line :: "fingerprint \<Rightarrow> str" where
  "fingerprint_line fp =
     ''a=fingerprint:'' @ FingerprintAlgorithm_as_sdp (fp_algorithm fp) @ '' '' @ fp_value fp"

definition Description_write_application :: "description \<Rightarrow> application \<Rightarrow> str \<Rightarrow> str" where
  "Description_write_application self app eol =
     ''m=application 9 UDP/DTLS/SCTP webrtc-datachannel'' @ eol @
     ''c=IN IP4 0.0.0.0'' @ eol @
     ''a=mid:'' @ app_mid app @ eol @
     (if app_direction app \<noteq> Direction_Unknown
      then ''a='' @ Direction_as_sdp (app_direction app) @ eol else []) @
     ''a=setup:'' @ Role_as_sdp (d_role self) @ eol @
     (case d_ice_ufrag self of Some u \<Rightarrow> ''a=ice-ufrag:'' @ u @ eol | None \<Rightarrow> []) @
     (case d_ice_pwd self of Some p \<Rightarrow> ''a=ice-pwd:'' @ p @ eol | None \<Rightarrow> []) @
     (case d_fingerprint self of Some fp \<Rightarrow> fingerprint_line fp @ eol | None \<Rightarrow> []) @
     (case app_sctp_port app of Some port \<Rightarrow> ''a=sctp-port:'' @ word_str port @ eol | None \<Rightarrow> []) @
     (case app_max_message_size app of
        Some sz \<Rightarrow> ''a=max-message-size:'' @ word_str sz @ eol | None \<Rightarrow> []) @
     concat (map (\<lambda>attr. ''a='' @ attr @ eol) (app_extra_attrs app)) @
     concat (map (\<lambda>c. if Candidate_mid c = app_mid app then ''a='' @ Candidate_to_sdp c @ eol else [])
       (d_candidates self)) @
     (if d_ended self then ''a=end-of-candidates'' @ eol else [])"

definition Description_generate_sdp :: "description \<Rightarrow> str \<Rightarrow> str" where
  "Description_generate_sdp self eol =
     ''v=0'' @ eol @
     ''o='' @ d_username self @ '' '' @ d_session_id self @ '' '' @ d_session_version self @
       '' IN IP4 127.0.0.1'' @ eol @
     ''s=-'' @ eol @
     ''t=0 0'' @ eol @
     (if d_bundle_mids self \<noteq> []
      then ''a=group:BUNDLE'' @ concat (map (\<lambda>mid. '' '' @ mid) (d_bundle_mids self)) @ eol else []) @
     ''a=msid-semantic:WMS *'' @ eol @
     (if d_ice_options self \<noteq> []
      then ''a=ice-options:'' @ str_join '','' (d_ice_options self) @ eol else []) @
     (if d_extmap_allow_mixed self then ''a=extmap-allow-mixed'' @ eol else []) @
     (case d_fingerprint self of Some fp \<Rightarrow> fingerprint_line fp @ eol | None \<Rightarrow> []) @
     concat (map (\<lambda>attr. ''a='' @ attr @ eol) (d_extra_attrs self)) @
     (case d_application self of
        Some app \<Rightarrow> Description_write_application self app eol | None \<Rightarrow> []) @
     concat (d_other_sections self)"

definition Description_to_sdp :: "description \<Rightarrow> str" where
  "Description_to_sdp self = Description_generate_sdp self crlf"

definition Description_fmt :: "description \<Rightarrow> str" where
  "Description_fmt self = Description_to_sdp self"

section \<open>Laws of the operations\<close>

lemma Type_from_as_str: "Type_from_string (Type_as_str t) = t"
  by (cases t) (simp_all add: Type_from_string_def)

lemma FingerprintAlgorithm_from_as_sdp:
  "FingerprintAlgorithm_from_sdp (FingerprintAlgorithm_as_sdp a) = Some a"
  by (cases a) (simp_all add: FingerprintAlgorithm_from_sdp_def)

interpretation algorithm_codec: exact_codec FingerprintAlgorithm_as_sdp FingerprintAlgorithm_from_sdp
    "\<lambda>_. True"
  by unfold_locales (rule FingerprintAlgorithm_from_as_sdp)

interpretation type_codec: exact_codec Type_as_str "\<lambda>s. Some (Type_from_string s)" "\<lambda>_. True"
  by unfold_locales (simp add: Type_from_as_str)

lemma candidates_no_dup:
  "no_dup candidate_eq (d_candidates d) \<Longrightarrow> no_dup candidate_eq (d_candidates (Description_add_candidate d c))"
  by (simp add: Description_add_candidate_def candidate_equality.push_new_no_dup)

text \<open>The mid of the application section is among the bundled ones.\<close>

definition bundle_ok :: "description \<Rightarrow> bool" where
  "bundle_ok d \<longleftrightarrow> distinct (d_bundle_mids d) \<and>
     (case d_application d of Some app \<Rightarrow> app_mid app \<in> set (d_bundle_mids d) | None \<Rightarrow> True)"

lemma bundle_ok_new: "bundle_ok (Description_new now typ rl)"
  by (simp add: bundle_ok_def Description_new_def)

lemma bundle_ok_set_application: "bundle_ok d \<Longrightarrow> bundle_ok (Description_set_application d app)"
  by (auto simp: bundle_ok_def Description_set_application_def Let_def list_ex_iff split: option.splits)

end
