(* ===== verification/Sdp_Parser.thy ===== *)
theory Sdp_Parser
  imports Description
begin

text \<open>
  \<open>src/description.rs\<close>, the parser: \<open>parse_into\<close> is a fold of \<open>parse_line\<close> over the
  lines of the SDP, its local variables are the record \<open>parser_state\<close>, and
  \<open>flush_section\<close> closes a media section. The invariant of the loop and what the parser
  guarantees of its result are proved here; the round trip is in \<open>Sdp_Roundtrip\<close>.
\<close>

section \<open>The parser\<close>

datatype section_kind = SectionKind_Application | SectionKind_Other

text \<open>
  The locals of \<open>parse_into\<close> beside the description it fills in. \<open>section_index\<close> is an
  \<open>i32\<close> that starts at -1 and is incremented once per \<open>m=\<close> line; it is kept as an
  integer, which is the same for inputs with fewer than \<open>2 ^ 31\<close> media lines.
\<close>

record parser_state =
  ps_d :: description
  ps_kind :: "section_kind option"
  ps_app :: "application option"
  ps_other :: str
  ps_other_mid :: "str option"
  ps_index :: int

definition int_str :: "int \<Rightarrow> str" where
  "int_str i = (if i < 0 then ''-'' @ dec_str (nat (- i)) else dec_str (nat i))"

definition push_bundle_mid :: "description \<Rightarrow> str \<Rightarrow> description" where
  "push_bundle_mid d mid = d\<lparr>d_bundle_mids := push_new (=) (d_bundle_mids d) mid\<rparr>"

definition flush_section :: "parser_state \<Rightarrow> parser_state" where
  "flush_section st =
     (let kind = ps_kind st; st = st\<lparr>ps_kind := None\<rparr>; d = ps_d st in
      case kind of
        Some SectionKind_Application \<Rightarrow>
          (case ps_app st of
             Some a \<Rightarrow> st\<lparr>ps_app := None, ps_d := push_bundle_mid (d\<lparr>d_application := Some a\<rparr>) (app_mid a)\<rparr>
           | None \<Rightarrow> st)
      | Some SectionKind_Other \<Rightarrow>
          (let st = (if ps_other st \<noteq> []
                     then st\<lparr>ps_d := d\<lparr>d_other_sections := d_other_sections d @ [ps_other st]\<rparr>,
                             ps_other := []\<rparr>
                     else st)
           in case ps_other_mid st of
                Some mid \<Rightarrow> st\<lparr>ps_other_mid := None, ps_d := push_bundle_mid (ps_d st) mid\<rparr>
              | None \<Rightarrow> st)
      | None \<Rightarrow> st)"

definition parse_pair :: "str \<Rightarrow> str \<times> str" where
  "parse_pair attr =
     (case str_find (\<lambda>c. c = CHR '':'') attr of
        Some i \<Rightarrow> (take i attr, drop (i + 1) attr)
      | None \<Rightarrow> (attr, []))"

definition parse_fingerprint :: "str \<Rightarrow> fingerprint option" where
  "parse_fingerprint value =
     (case split_ascii_whitespace value of
        algo # val # _ \<Rightarrow>
          (case FingerprintAlgorithm_from_sdp (to_ascii_lowercase algo) of
             Some a \<Rightarrow> Some \<lparr>fp_algorithm = a, fp_value = to_ascii_uppercase val\<rparr>
           | None \<Rightarrow> None)
      | _ \<Rightarrow> None)"

definition parse_role :: "str \<Rightarrow> role" where
  "parse_role value =
     (if value = ''active'' then Role_Active
      else if value = ''passive'' then Role_Passive
      else Role_ActPass)"

text \<open>The mid a candidate line is filed under.\<close>

definition default_candidate_mid :: "parser_state \<Rightarrow> str" where
  "default_candidate_mid st =
     (case ps_app st of
        Some app \<Rightarrow> app_mid app
      | None \<Rightarrow>
          (case ps_other_mid st of
             Some m \<Rightarrow> m
           | None \<Rightarrow>
               (case d_bundle_mids (ps_d st) of
                  first # _ \<Rightarrow> first
                | [] \<Rightarrow> int_str (max (ps_index st) 0))))"

text \<open>
  The first \<open>match key\<close>: the keys recognised wherever they stand. \<open>None\<close> is the
  fall-through arm.
\<close>

definition parse_session_attr ::
    "parser_state \<Rightarrow> str \<Rightarrow> str \<Rightarrow> str \<Rightarrow> (description_parse_error + parser_state) option" where
  "parse_session_attr st attr key value =
     (let d = ps_d st in
      if key = ''group'' then
        Some (Inr (case strip_pre ''BUNDLE'' value of
                     Some rest \<Rightarrow> st\<lparr>ps_d := d\<lparr>d_bundle_mids := split_ascii_whitespace rest\<rparr>\<rparr>
                   | None \<Rightarrow> st))
      else if key = ''extmap-allow-mixed'' then
        Some (Inr (st\<lparr>ps_d := d\<lparr>d_extmap_allow_mixed := True\<rparr>\<rparr>))
      else if key = ''ice-options'' then
        Some (Inr (if d_ice_options d = []
                   then st\<lparr>ps_d := d\<lparr>d_ice_options := map str_trim (split_on (\<lambda>c. c = CHR '','') value)\<rparr>\<rparr>
                   else st))
      else if key = ''fingerprint'' then
        Some (Inr (if d_fingerprint d = None \<or> ps_index st = 0
                   then (case parse_fingerprint value of
                           Some fp \<Rightarrow> st\<lparr>ps_d := d\<lparr>d_fingerprint := Some fp\<rparr>\<rparr>
                         | None \<Rightarrow> st)
                   else st))
      else if key = ''ice-ufrag'' then
        Some (Inr (if d_ice_ufrag d = None \<or> ps_index st = 0
                   then st\<lparr>ps_d := d\<lparr>d_ice_ufrag := Some value\<rparr>\<rparr> else st))
      else if key = ''ice-pwd'' then
        Some (Inr (if d_ice_pwd d = None \<or> ps_index st = 0
                   then st\<lparr>ps_d := d\<lparr>d_ice_pwd := Some value\<rparr>\<rparr> else st))
      else if key = ''setup'' then
        Some (Inr (st\<lparr>ps_d := d\<lparr>d_role := parse_role value\<rparr>\<rparr>))
      else if key = ''candidate'' then
        Some (case Candidate_parse attr (default_candidate_mid st) of
                Inl e \<Rightarrow> Inl (DescriptionParseError_BadCandidate e)
              | Inr cand \<Rightarrow>
                  Inr (st\<lparr>ps_d := d\<lparr>d_candidates := push_new candidate_eq (d_candidates d) cand\<rparr>\<rparr>))
      else if key = ''end-of-candidates'' then
        Some (Inr (st\<lparr>ps_d := d\<lparr>d_ended := True\<rparr>\<rparr>))
      else if key = ''msid-semantic'' then Some (Inr st)
      else None)"

text \<open>The second \<open>match key\<close>: attributes of the application section.\<close>

definition parse_app_attr ::
    "application \<Rightarrow> str \<Rightarrow> str \<Rightarrow> str \<Rightarrow> description_parse_error + application" where
  "parse_app_attr app attr key value =
     (if key = ''mid'' then Inr (Application_set_mid app value)
      else if key = ''sctp-port'' then
        try_res (ok_or (parse_u16 value) (DescriptionParseError_BadInteger ''sctp-port''))
          (\<lambda>v. Inr (Application_set_sctp_port app v))
      else if key = ''max-message-size'' then
        try_res (ok_or (parse_usize value) (DescriptionParseError_BadInteger ''max-message-size''))
          (\<lambda>v. Inr (Application_set_max_message_size app v))
      else if key = ''sendonly'' then Inr (Application_set_direction app Direction_SendOnly)
      else if key = ''recvonly'' then Inr (Application_set_direction app Direction_RecvOnly)
      else if key = ''sendrecv'' then Inr (Application_set_direction app Direction_SendRecv)
      else if key = ''inactive'' then Inr (Application_set_direction app Direction_Inactive)
      else Inr (app\<lparr>app_extra_attrs := app_extra_attrs app @ [attr]\<rparr>))"

definition copy_line :: "parser_state \<Rightarrow> str \<Rightarrow> parser_state" where
  "copy_line st line = st\<lparr>ps_other := ps_other st @ line @ crlf\<rparr>"

definition parse_attr :: "parser_state \<Rightarrow> str \<Rightarrow> str \<Rightarrow> description_parse_error + parser_state" where
  "parse_attr st line attr =
     (if ps_kind st = Some SectionKind_Other then
        (let st = (case strip_pre ''mid:'' attr of
                     Some val \<Rightarrow> st\<lparr>ps_other_mid := Some (str_trim val)\<rparr>
                   | None \<Rightarrow> st)
         in Inr (copy_line st line))
      else
        (let (key, value) = parse_pair attr in
         case parse_session_attr st attr key value of
           Some r \<Rightarrow> r
         | None \<Rightarrow>
             (case ps_app st of
                Some app \<Rightarrow>
                  try_res (parse_app_attr app attr key value) (\<lambda>app. Inr (st\<lparr>ps_app := Some app\<rparr>))
              | None \<Rightarrow>
                  (let d = ps_d st in
                   Inr (st\<lparr>ps_d := d\<lparr>d_extra_attrs := d_extra_attrs d @ [attr]\<rparr>\<rparr>)))))"

definition parse_media :: "parser_state \<Rightarrow> str \<Rightarrow> str \<Rightarrow> parser_state" where
  "parse_media st line rest =
     (let st = flush_section st;
          st = st\<lparr>ps_index := ps_index st + 1\<rparr>;
          mtype = (case split_ascii_whitespace rest of t # _ \<Rightarrow> t | [] \<Rightarrow> [])
      in if mtype = ''application''
         then st\<lparr>ps_kind := Some SectionKind_Application,
                 ps_app := Some (Application_new (int_str (ps_index st)))\<rparr>
         else st\<lparr>ps_kind := Some SectionKind_Other, ps_other := line @ crlf, ps_other_mid := None\<rparr>)"

definition parse_origin :: "description \<Rightarrow> str \<Rightarrow> description" where
  "parse_origin d rest =
     (case split_ascii_whitespace rest of
        [] \<Rightarrow> d
      | [u] \<Rightarrow> d\<lparr>d_username := u\<rparr>
      | [u, sid] \<Rightarrow> d\<lparr>d_username := u, d_session_id := sid\<rparr>
      | u # sid # sver # _ \<Rightarrow> d\<lparr>d_username := u, d_session_id := sid, d_session_version := sver\<rparr>)"

definition parse_line :: "parser_state \<Rightarrow> str \<Rightarrow> description_parse_error + parser_state" where
  "parse_line st line =
     (case strip_pre ''m='' line of
        Some rest \<Rightarrow> Inr (parse_media st line rest)
      | None \<Rightarrow>
     (case strip_pre ''o='' line of
        Some rest \<Rightarrow> Inr (st\<lparr>ps_d := parse_origin (ps_d st) rest\<rparr>)
      | None \<Rightarrow>
     (case strip_pre ''a='' line of
        Some attr \<Rightarrow> parse_attr st line attr
      | None \<Rightarrow>
          Inr (if ps_kind st = Some SectionKind_Other then copy_line st line else st))))"

text \<open>The \<open>for\<close> loop; \<open>?\<close> leaves it.\<close>

fun parse_lines :: "parser_state \<Rightarrow> str list \<Rightarrow> description_parse_error + parser_state" where
  "parse_lines st [] = Inr st"
| "parse_lines st (raw # raws) =
     (let line = trim_end_crlf raw in
      if line = [] then parse_lines st raws
      else try_res (parse_line st line) (\<lambda>st. parse_lines st raws))"

definition parser_init :: "description \<Rightarrow> parser_state" where
  "parser_init d =
     \<lparr>ps_d = d, ps_kind = None, ps_app = None, ps_other = [], ps_other_mid = None, ps_index = -1\<rparr>"

definition parse_into :: "description \<Rightarrow> str \<Rightarrow> description_parse_error + description" where
  "parse_into d sdp =
     try_res (parse_lines (parser_init d) (str_lines sdp)) (\<lambda>st. Inr (ps_d (flush_section st)))"

definition Description_parse :: "clock \<Rightarrow> str \<Rightarrow> description_parse_error + description" where
  "Description_parse now sdp = parse_into (Description_new now Type_Unspec Role_ActPass) sdp"

definition Description_from_str :: "clock \<Rightarrow> str \<Rightarrow> description_parse_error + description" where
  "Description_from_str now s = Description_parse now s"

section \<open>What a parsed description satisfies\<close>

definition session_keys :: "str list" where
  "session_keys =
     [''group'', ''extmap-allow-mixed'', ''ice-options'', ''fingerprint'', ''ice-ufrag'', ''ice-pwd'',
      ''setup'', ''candidate'', ''end-of-candidates'', ''msid-semantic'']"

definition app_keys :: "str list" where
  "app_keys = [''mid'', ''sctp-port'', ''max-message-size'', ''sendonly'', ''recvonly'', ''sendrecv'', ''inactive'']"

definition session_attr_ok :: "str \<Rightarrow> bool" where
  "session_attr_ok attr \<longleftrightarrow> line_ok attr \<and> fst (parse_pair attr) \<notin> set session_keys"

definition app_attr_ok :: "str \<Rightarrow> bool" where
  "app_attr_ok attr \<longleftrightarrow> session_attr_ok attr \<and> fst (parse_pair attr) \<notin> set app_keys"

definition media_type :: "str \<Rightarrow> str" where
  "media_type rest = (case split_ascii_whitespace rest of t # _ \<Rightarrow> t | [] \<Rightarrow> [])"

definition copied_line :: "str \<Rightarrow> bool" where
  "copied_line l \<longleftrightarrow> l \<noteq> [] \<and> line_ok l \<and> strip_pre ''m='' l = None \<and> strip_pre ''o='' l = None"

definition media_line :: "str \<Rightarrow> bool" where
  "media_line l \<longleftrightarrow> line_ok l \<and>
     (case strip_pre ''m='' l of Some rest \<Rightarrow> media_type rest \<noteq> ''application'' | None \<Rightarrow> False)"

definition render_lines :: "str list \<Rightarrow> str" where
  "render_lines ls = concat (map (\<lambda>l. l @ crlf) ls)"

definition section_ok :: "str \<Rightarrow> bool" where
  "section_ok s \<longleftrightarrow> s = render_lines (str_lines s) \<and>
     (case str_lines s of l # ls \<Rightarrow> media_line l \<and> list_all copied_line ls | [] \<Rightarrow> False)"

definition application_ok :: "application \<Rightarrow> bool" where
  "application_ok a \<longleftrightarrow> line_ok (app_mid a) \<and> list_all app_attr_ok (app_extra_attrs a)"

definition option_ok :: "str \<Rightarrow> bool" where
  "option_ok s \<longleftrightarrow> str_trim s = s \<and> line_ok s \<and> CHR '','' \<notin> set s"

definition fingerprint_ok :: "fingerprint \<Rightarrow> bool" where
  "fingerprint_ok fp \<longleftrightarrow> is_token (fp_value fp) \<and> to_ascii_uppercase (fp_value fp) = fp_value fp"

definition description_ok :: "description \<Rightarrow> bool" where
  "description_ok d \<longleftrightarrow>
     is_token (d_username d) \<and> is_token (d_session_id d) \<and> is_token (d_session_version d) \<and>
     list_all line_ok (d_bundle_mids d) \<and>
     pred_option line_ok (d_ice_ufrag d) \<and> pred_option line_ok (d_ice_pwd d) \<and>
     list_all option_ok (d_ice_options d) \<and> pred_option fingerprint_ok (d_fingerprint d) \<and>
     list_all session_attr_ok (d_extra_attrs d) \<and> pred_option application_ok (d_application d) \<and>
     list_all section_ok (d_other_sections d) \<and> list_all candidate_wf (d_candidates d)"

definition parser_inv :: "parser_state \<Rightarrow> bool" where
  "parser_inv st \<longleftrightarrow>
     description_ok (ps_d st) \<and> no_dup candidate_eq (d_candidates (ps_d st)) \<and>
     d_typ (ps_d st) = Type_Unspec \<and>
     (ps_app st \<noteq> None \<longleftrightarrow> ps_kind st = Some SectionKind_Application) \<and>
     pred_option application_ok (ps_app st) \<and>
     (ps_other_mid st \<noteq> None \<longrightarrow> ps_kind st = Some SectionKind_Other) \<and>
     pred_option line_ok (ps_other_mid st) \<and>
     (if ps_kind st = Some SectionKind_Other then section_ok (ps_other st) else ps_other st = []) \<and>
     -1 \<le> ps_index st \<and> (ps_kind st \<noteq> None \<longrightarrow> 0 \<le> ps_index st)"

section \<open>Lemmas on lines and keys\<close>

lemma render_lines_simps [simp]:
  "render_lines [] = []" "render_lines (l # ls) = l @ crlf @ render_lines ls"
  "render_lines (ls @ ms) = render_lines ls @ render_lines ms"
  by (simp_all add: render_lines_def)

lemma str_lines_render: "list_all line_ok ls \<Longrightarrow> str_lines (render_lines ls @ t) = ls @ str_lines t"
  by (simp add: render_lines_def str_lines_concat)

lemma str_lines_render': "list_all line_ok ls \<Longrightarrow> str_lines (render_lines ls) = ls"
  using str_lines_render [of ls "[]"] by simp

lemma section_ok_start: "media_line l \<Longrightarrow> section_ok (l @ crlf)"
  using str_lines_render' [of "[l]"] by (simp add: section_ok_def media_line_def)

lemma section_ok_copy:
  assumes "section_ok s" "copied_line l"
  shows "section_ok (s @ l @ crlf)"
proof -
  from assms(1) obtain m ms where ls: "str_lines s = m # ms" "media_line m" "list_all copied_line ms"
    "s = render_lines (m # ms)"
    by (auto simp: section_ok_def split: list.splits)
  have "list_all line_ok (m # ms @ [l])"
    using ls assms(2) by (auto simp: media_line_def copied_line_def list_all_iff)
  then have "str_lines (s @ l @ crlf) = m # ms @ [l]"
    using str_lines_render' [of "m # ms @ [l]"] ls(4) by simp
  with ls assms(2) show ?thesis
    by (simp add: section_ok_def)
qed

lemma section_ok_not_Nil: "section_ok s \<Longrightarrow> s \<noteq> []"
  by (auto simp: section_ok_def)

lemma parse_session_attr_None_iff:
  "parse_session_attr st attr key value = None \<longleftrightarrow> key \<notin> set session_keys"
  by (simp add: parse_session_attr_def session_keys_def Let_def)

lemma parse_pair_simp [simp]:
  assumes "CHR '':'' \<notin> set key"
  shows "parse_pair (key @ CHR '':'' # value) = (key, value)"
proof -
  have "\<forall>c \<in> set key. c \<noteq> CHR '':''" using assms by auto
  then have "str_find (\<lambda>c. c = CHR '':'') (key @ CHR '':'' # value) = Some (length key)"
    by (rule str_find_append) simp
  then show ?thesis by (simp add: parse_pair_def)
qed

lemma parse_pair_line_ok:
  assumes "line_ok attr" "parse_pair attr = (key, value)"
  shows "line_ok value"
proof (cases "str_find (\<lambda>c. c = CHR '':'') attr")
  case None
  with assms(2) show ?thesis by (auto simp: parse_pair_def line_ok_def)
next
  case (Some i)
  with assms line_ok_suffix [of "take (i + 1) attr" "drop (i + 1) attr"] show ?thesis
    by (auto simp: parse_pair_def)
qed

lemma parse_fingerprint_ok: "parse_fingerprint value = Some fp \<Longrightarrow> fingerprint_ok fp"
  using split_ws_token_mem [of _ "value"]
  by (auto simp: parse_fingerprint_def fingerprint_ok_def split: list.splits option.splits)

lemma split_comma_ok:
  assumes "line_ok value" "x \<in> set (split_on (\<lambda>c. c = CHR '','') value)"
  shows "option_ok (str_trim x)"
proof -
  from assms(2) split_on_pieces [OF assms(2)] have "LF \<notin> set x" "CHR '','' \<notin> set x"
    using assms(1) by (auto simp: line_ok_def)
  then show ?thesis
    using str_trim_subset [of x] by (auto simp: option_ok_def str_trim_idem str_trim_line_ok)
qed

lemma dec_str_line_ok [simp]: "line_ok (dec_str n)"
  by (intro line_ok_is_line is_token_is_line dec_str_token)

lemma int_str_line_ok [simp]: "line_ok (int_str i)"
  using line_ok_append [of "''-''" "dec_str (nat (- i))"] by (simp add: int_str_def line_ok_def [of "''-''"])

section \<open>The invariant of the loop\<close>

lemma description_ok_new: "description_ok (Description_new now typ rl)"
  by (simp add: description_ok_def Description_new_def random_session_id_def Let_def)
    (simp add: is_token_def is_ascii_whitespace_def code_def)

lemma parser_inv_init: "parser_inv (parser_init (Description_new now Type_Unspec rl))"
  using description_ok_new [of now Type_Unspec rl]
  by (simp add: parser_inv_def parser_init_def Description_new_def)

text \<open>What each update of a description asks of the invariant.\<close>

lemma description_ok_updates [simp]:
  "description_ok d \<Longrightarrow> description_ok (d\<lparr>d_bundle_mids := ms\<rparr>) = list_all line_ok ms"
  "description_ok (d\<lparr>d_extmap_allow_mixed := x2\<rparr>) = description_ok d"
  "description_ok (d\<lparr>d_role := x3\<rparr>) = description_ok d"
  "description_ok (d\<lparr>d_ended := x4\<rparr>) = description_ok d"
  "description_ok d \<Longrightarrow> description_ok (d\<lparr>d_fingerprint := Some fp\<rparr>) = fingerprint_ok fp"
  "description_ok d \<Longrightarrow> description_ok (d\<lparr>d_ice_ufrag := Some u\<rparr>) = line_ok u"
  "description_ok d \<Longrightarrow> description_ok (d\<lparr>d_ice_pwd := Some u\<rparr>) = line_ok u"
  "description_ok d \<Longrightarrow> description_ok (d\<lparr>d_ice_options := os\<rparr>) = list_all option_ok os"
  "description_ok d \<Longrightarrow> description_ok (d\<lparr>d_application := Some a\<rparr>) = application_ok a"
  "description_ok d \<Longrightarrow> description_ok (d\<lparr>d_extra_attrs := d_extra_attrs d @ [attr]\<rparr>) = session_attr_ok attr"
  "description_ok d \<Longrightarrow> description_ok (d\<lparr>d_other_sections := d_other_sections d @ [s]\<rparr>) = section_ok s"
  "description_ok d \<Longrightarrow> candidate_wf c \<Longrightarrow>
     description_ok (d\<lparr>d_candidates := push_new candidate_eq (d_candidates d) c\<rparr>)"
  by (simp_all add: description_ok_def push_new_def)

lemma push_bundle_mid_simps [simp]:
  "description_ok d \<Longrightarrow> line_ok m \<Longrightarrow> description_ok (push_bundle_mid d m)"
  "d_candidates (push_bundle_mid d m) = d_candidates d"
  "d_typ (push_bundle_mid d m) = d_typ d"
  by (simp_all add: push_bundle_mid_def push_new_def description_ok_def)

lemma flush_inv:
  "parser_inv st \<Longrightarrow> parser_inv (flush_section st) \<and> ps_kind (flush_section st) = None \<and>
     ps_app (flush_section st) = None \<and> ps_other_mid (flush_section st) = None \<and>
     ps_other (flush_section st) = [] \<and> ps_index (flush_section st) = ps_index st"
  by (cases "ps_kind st"; cases "the (ps_kind st)"; cases "ps_app st"; cases "ps_other_mid st")
    (simp_all add: parser_inv_def flush_section_def Let_def section_ok_not_Nil application_ok_def)

lemma application_ok_new: "application_ok (Application_new (int_str i))"
  by (simp add: application_ok_def Application_new_def)

lemma parse_media_inv:
  assumes "parser_inv st" "line_ok line" "strip_pre ''m='' line = Some rest"
  shows "parser_inv (parse_media st line rest)"
  using flush_inv [OF assms(1)] assms(2,3)
  by (auto simp: parser_inv_def parse_media_def Let_def application_ok_new media_type_def [symmetric]
      media_line_def intro!: section_ok_start)

lemma parse_origin_keeps:
  "description_ok d \<Longrightarrow> description_ok (parse_origin d rest)"
  "d_candidates (parse_origin d rest) = d_candidates d"
  "d_typ (parse_origin d rest) = d_typ d"
  using split_ws_token_mem [of _ rest]
  by (auto simp: description_ok_def parse_origin_def split: list.splits)

text \<open>The first match only touches the description.\<close>

definition description_inv :: "description \<Rightarrow> bool" where
  "description_inv d \<longleftrightarrow> description_ok d \<and> no_dup candidate_eq (d_candidates d) \<and> d_typ d = Type_Unspec"

lemma parser_inv_d: "parser_inv st \<Longrightarrow> description_inv d \<Longrightarrow> parser_inv (st\<lparr>ps_d := d\<rparr>)"
  by (simp add: parser_inv_def description_inv_def)

lemma parser_inv_description: "parser_inv st \<Longrightarrow> description_inv (ps_d st)"
  by (simp add: parser_inv_def description_inv_def)

lemma parse_session_attr_inv:
  assumes "parser_inv st" "line_ok value" "parse_session_attr st attr key value = Some (Inr st')"
  shows "parser_inv st'"
proof -
  have "description_ok (ps_d st)" "no_dup candidate_eq (d_candidates (ps_d st))" "d_typ (ps_d st) = Type_Unspec"
    using assms(1) by (simp_all add: parser_inv_def)
  note d = this
  have mids: "list_all line_ok (split_ascii_whitespace v)" for v
    using split_ws_tokens [of v] by (auto simp: list_all_iff intro: line_ok_is_line is_token_is_line)
  have opts: "list_all option_ok (map str_trim (split_on (\<lambda>c. c = CHR '','') value))"
    using assms(2) by (auto simp: list_all_iff split_comma_ok)
  show ?thesis
    using assms(3) assms(1)
    unfolding parse_session_attr_def Let_def
    by (simp split: if_splits option.splits sum.splits)
      (auto intro!: parser_inv_d simp: description_inv_def d mids opts assms(2) parse_fingerprint_ok
        candidate_equality.push_new_no_dup Candidate_parse_wf)
qed

lemma parse_app_attr_ok:
  assumes "application_ok app" "line_ok attr" "parse_pair attr = (key, value)"
    "key \<notin> set session_keys" "parse_app_attr app attr key value = Inr app'"
  shows "application_ok app'"
proof (cases "key \<in> set app_keys")
  case True
  then show ?thesis
    using assms(1,5) parse_pair_line_ok [OF assms(2,3)]
    unfolding app_keys_def parse_app_attr_def
    by (auto simp: application_ok_def Application_set_mid_def Application_set_sctp_port_def
        Application_set_max_message_size_def Application_set_direction_def result_iffs)
next
  case False
  then have "app' = app\<lparr>app_extra_attrs := app_extra_attrs app @ [attr]\<rparr>"
    using assms(5) by (simp add: parse_app_attr_def app_keys_def)
  with False assms show ?thesis
    by (simp add: application_ok_def app_attr_ok_def session_attr_ok_def)
qed

lemma copy_line_inv:
  "parser_inv st \<Longrightarrow> ps_kind st = Some SectionKind_Other \<Longrightarrow> copied_line line \<Longrightarrow>
   parser_inv (copy_line st line)"
  by (simp add: parser_inv_def copy_line_def section_ok_copy)

lemma parser_inv_other_mid:
  "parser_inv st \<Longrightarrow> ps_kind st = Some SectionKind_Other \<Longrightarrow> line_ok m \<Longrightarrow>
   parser_inv (st\<lparr>ps_other_mid := Some m\<rparr>)"
  by (simp add: parser_inv_def)

lemma parse_attr_inv:
  assumes "parser_inv st" "copied_line line" "line_ok attr" "parse_attr st line attr = Inr st'"
  shows "parser_inv st'"
proof (cases "ps_kind st = Some SectionKind_Other")
  case True
  have "line_ok (str_trim v)" if "strip_pre ''mid:'' attr = Some v" for v
    using that assms(3) by (intro str_trim_line_ok) (auto simp: strip_pre_Some_iff line_ok_def)
  with True assms show ?thesis
    by (auto simp: parse_attr_def Let_def intro!: copy_line_inv parser_inv_other_mid split: option.splits)
next
  case False
  obtain key "value" where kv: "parse_pair attr = (key, value)" by force
  show ?thesis
  proof (cases "key \<in> set session_keys")
    case True
    then obtain r where "parse_session_attr st attr key value = Some r"
      using parse_session_attr_None_iff by blast
    with False assms kv parse_session_attr_inv [OF assms(1) parse_pair_line_ok] show ?thesis
      by (auto simp: parse_attr_def)
  next
    case unknown: False
    then have none: "parse_session_attr st attr key value = None"
      by (simp add: parse_session_attr_None_iff)
    show ?thesis
    proof (cases "ps_app st")
      case None
      with assms unknown none False kv show ?thesis
        by (auto simp: parse_attr_def Let_def session_attr_ok_def parser_inv_def)
    next
      case (Some app)
      with assms(4) False kv none obtain app' where
        app': "parse_app_attr app attr key value = Inr app'" "st' = st\<lparr>ps_app := Some app'\<rparr>"
        by (auto simp: parse_attr_def result_iffs)
      from assms(1) Some have "application_ok app" by (simp add: parser_inv_def)
      from parse_app_attr_ok [OF this assms(3) kv unknown app'(1)] app'(2) assms(1) Some show ?thesis
        by (auto simp: parser_inv_def)
    qed
  qed
qed

lemma parse_line_inv:
  assumes "parser_inv st" "line \<noteq> []" "line_ok line" "parse_line st line = Inr st'"
  shows "parser_inv st'"
proof -
  consider (media) rest where "strip_pre ''m='' line = Some rest"
    | (origin) rest where "strip_pre ''m='' line = None" "strip_pre ''o='' line = Some rest"
    | (attr) attr where "copied_line line" "strip_pre ''a='' line = Some attr"
    | (other) "copied_line line" "strip_pre ''a='' line = None"
    using assms(2,3) by (cases "strip_pre ''m='' line"; cases "strip_pre ''o='' line"; cases "strip_pre ''a='' line")
      (auto simp: copied_line_def)
  then show ?thesis
  proof cases
    case (media rest)
    then have "parse_line st line = Inr (parse_media st line rest)" by (simp add: parse_line_def)
    with assms(4) parse_media_inv [OF assms(1,3) media] show ?thesis by simp
  next
    case (origin rest)
    then have "parse_line st line = Inr (st\<lparr>ps_d := parse_origin (ps_d st) rest\<rparr>)"
      by (simp add: parse_line_def)
    with assms(1,4) show ?thesis
      by (auto simp: parser_inv_description description_inv_def parse_origin_keeps intro!: parser_inv_d
          dest: parser_inv_description)
  next
    case (attr attr)
    then have "line_ok attr"
      using assms(3) line_ok_suffix [of "''a=''" attr] by (simp add: strip_pre_Some_iff)
    moreover have "parse_line st line = parse_attr st line attr"
      using attr by (simp add: parse_line_def copied_line_def)
    ultimately show ?thesis
      using assms(4) parse_attr_inv [OF assms(1) attr(1)] by simp
  next
    case other
    then have "parse_line st line = Inr (if ps_kind st = Some SectionKind_Other then copy_line st line else st)"
      by (simp add: parse_line_def copied_line_def)
    with assms(1,4) copy_line_inv [OF assms(1) _ other(1)] show ?thesis
      by (simp split: if_splits)
  qed
qed

lemma parse_lines_inv:
  "parser_inv st \<Longrightarrow> list_all (\<lambda>l. LF \<notin> set l) raws \<Longrightarrow> parse_lines st raws = Inr st' \<Longrightarrow> parser_inv st'"
proof (induction raws arbitrary: st)
  case (Cons raw raws)
  show ?case
  proof (cases "trim_end_crlf raw = []")
    case True
    with Cons show ?thesis by (simp add: Let_def)
  next
    case False
    with Cons.prems obtain st1 where "parse_line st (trim_end_crlf raw) = Inr st1" "parse_lines st1 raws = Inr st'"
      by (auto simp: Let_def result_iffs)
    with Cons False parse_line_inv [of st "trim_end_crlf raw" st1] trim_end_line_ok [of raw] show ?thesis
      by simp
  qed
qed simp

lemma str_lines_no_LF_all: "list_all (\<lambda>l. LF \<notin> set l) (str_lines s)"
  using str_lines_no_LF by (auto simp: list_all_iff)

lemma Description_parse_inv:
  assumes "Description_parse now s = Inr d"
  shows "description_inv d"
proof -
  from assms obtain st where st: "parse_lines (parser_init (Description_new now Type_Unspec Role_ActPass)) (str_lines s) = Inr st"
    "d = ps_d (flush_section st)"
    by (auto simp: Description_parse_def parse_into_def result_iffs)
  from parse_lines_inv [OF parser_inv_init str_lines_no_LF_all st(1)] st(2) flush_inv [of st] show ?thesis
    by (simp add: parser_inv_description)
qed

section \<open>Properties\<close>

text \<open>The errors of one line.\<close>

definition parse_errors :: "description_parse_error set" where
  "parse_errors = {e. (\<exists>c. e = DescriptionParseError_BadCandidate c) \<or>
     e \<in> {DescriptionParseError_BadInteger ''sctp-port'', DescriptionParseError_BadInteger ''max-message-size''}}"

lemma parse_line_errors: "parse_line st line = Inl e \<Longrightarrow> e \<in> parse_errors"
  by (auto simp: parse_line_def parse_attr_def parse_session_attr_def parse_app_attr_def Let_def
      parse_errors_def result_iffs split: option.splits if_splits prod.splits sum.splits)

lemma parse_lines_errors: "parse_lines st ls = Inl e \<Longrightarrow> e \<in> parse_errors"
  by (induction ls arbitrary: st) (auto simp: Let_def result_iffs parse_line_errors split: if_splits)

text \<open>C39: the parser only ever fails on a candidate line, an sctp-port or a
  max-message-size; a missing version line or a malformed media line, for which the error
  type has variants, are accepted: the empty text and a text without any version line parse.\<close>

theorem sdp_parse_errors:
  "(case Description_parse now s of Inl e \<Rightarrow> e \<in> parse_errors | Inr d \<Rightarrow> True) \<and>
   Description_parse now [] = Inr (Description_new now Type_Unspec Role_ActPass) \<and>
   (\<exists>d. Description_parse now ''m='' = Inr d)"
proof (intro conjI)
  show "case Description_parse now s of Inl e \<Rightarrow> e \<in> parse_errors | Inr d \<Rightarrow> True"
    by (auto simp: Description_parse_def parse_into_def result_iffs dest: parse_lines_errors split: sum.split)
next
  show "Description_parse now [] = Inr (Description_new now Type_Unspec Role_ActPass)"
    by (simp add: Description_parse_def parse_into_def parser_init_def flush_section_def Let_def)
  have "str_lines ''m='' = [''m='']" by (simp add: str_lines_def Let_def)
  moreover have "trim_end_crlf ''m='' = ''m=''" by (simp add: trim_end_crlf_def)
  ultimately show "\<exists>d. Description_parse now ''m='' = Inr d"
    by (simp add: Description_parse_def parse_into_def Let_def parse_line_def)
qed

end
