(* ===== verification/Sdp_Roundtrip.thy ===== *)
theory Sdp_Roundtrip
  imports Sdp_Parser
begin

text \<open>
  \<open>src/description.rs\<close>: serializing a description and parsing the text again. The
  serializer is split into its lines, the parser is run over each group of them, and the
  result is a normal form of the description, \<open>Description_norm\<close>.
\<close>

section \<open>Foreign media sections\<close>

text \<open>The mid of a copied section: its last \<open>a=mid:\<close> line.\<close>

fun lines_mid :: "str option \<Rightarrow> str list \<Rightarrow> str option" where
  "lines_mid m [] = m"
| "lines_mid m (l # ls) =
     lines_mid (case strip_pre ''a=mid:'' l of Some v \<Rightarrow> Some (str_trim v) | None \<Rightarrow> m) ls"

lemma parse_lines_append:
  "parse_lines st (ls @ ms) = try_res (parse_lines st ls) (\<lambda>st. parse_lines st ms)"
proof (induction ls arbitrary: st)
  case (Cons l ls)
  show ?case
    by (cases "parse_line st (trim_end_crlf l)") (simp_all add: Let_def Cons)
qed simp

lemma parse_lines_cons:
  "line_ok l \<Longrightarrow> l \<noteq> [] \<Longrightarrow> parse_lines st (l # ls) = try_res (parse_line st l) (\<lambda>st. parse_lines st ls)"
  by (simp add: Let_def trim_end_line)

lemma parse_copied_line:
  assumes "ps_kind st = Some SectionKind_Other" "copied_line l"
  shows "parse_line st l = Inr (st\<lparr>ps_other := ps_other st @ l @ crlf,
    ps_other_mid := (case strip_pre ''a=mid:'' l of Some v \<Rightarrow> Some (str_trim v) | None \<Rightarrow> ps_other_mid st)\<rparr>)"
proof (cases "strip_pre ''a='' l")
  case None
  then have "strip_pre ''a=mid:'' l = None"
    by (cases l rule: strip_pre.cases [of "(''a='', _)"]; cases "tl l") (auto split: if_splits)
  with None assms show ?thesis
    by (simp add: parse_line_def copied_line_def copy_line_def)
next
  case (Some attr)
  then have "l = ''a='' @ attr" by (simp add: strip_pre_Some_iff)
  with Some assms show ?thesis
    by (simp add: parse_line_def copied_line_def copy_line_def parse_attr_def Let_def split: option.splits)
qed

lemma parse_copied_lines:
  "ps_kind st = Some SectionKind_Other \<Longrightarrow> list_all copied_line ls \<Longrightarrow>
   parse_lines st ls =
     Inr (st\<lparr>ps_other := ps_other st @ render_lines ls, ps_other_mid := lines_mid (ps_other_mid st) ls\<rparr>)"
proof (induction ls arbitrary: st)
  case (Cons l ls)
  then have l: "copied_line l" by simp
  then have "line_ok l" "l \<noteq> []" by (simp_all add: copied_line_def)
  then have "parse_lines st (l # ls) = try_res (parse_line st l) (\<lambda>st. parse_lines st ls)"
    by (rule parse_lines_cons)
  with Cons l show ?case
    by (simp add: parse_copied_line del: parse_lines.simps)
qed simp

lemma parse_foreign_section:
  assumes "media_line l" "list_all copied_line ls"
  shows "parse_lines st (l # ls) = Inr ((flush_section st)\<lparr>ps_index := ps_index (flush_section st) + 1,
    ps_kind := Some SectionKind_Other, ps_other := render_lines (l # ls), ps_other_mid := lines_mid None ls\<rparr>)"
proof -
  have l: "line_ok l" "l \<noteq> []" using assms(1) by (auto simp: media_line_def)
  have "parse_line st l = Inr ((flush_section st)\<lparr>ps_index := ps_index (flush_section st) + 1,
    ps_kind := Some SectionKind_Other, ps_other := l @ crlf, ps_other_mid := None\<rparr>)"
    using assms(1)
    by (auto simp: media_line_def parse_line_def parse_media_def media_type_def [symmetric] Let_def split: option.splits)
  with assms(2) show ?thesis
    by (simp only: parse_lines_cons [OF l]) (simp add: parse_copied_lines)
qed


text \<open>What a foreign section adds to the description.\<close>

definition section_mid :: "str \<Rightarrow> str option" where
  "section_mid s = lines_mid None (tl (str_lines s))"

definition add_section :: "str \<Rightarrow> description \<Rightarrow> description" where
  "add_section s d =
     (let d = d\<lparr>d_other_sections := d_other_sections d @ [s]\<rparr>
      in case section_mid s of Some m \<Rightarrow> push_bundle_mid d m | None \<Rightarrow> d)"

lemma section_okE:
  assumes "section_ok s"
  obtains l ls where "media_line l" "list_all copied_line ls" "str_lines s = l # ls" "s = render_lines (l # ls)"
  using assms by (auto simp: section_ok_def split: list.splits)

lemma section_lines_ok: "section_ok s \<Longrightarrow> list_all line_ok (str_lines s)"
  by (auto simp: media_line_def copied_line_def list_all_iff elim!: section_okE)

lemma parse_section:
  assumes "section_ok s"
  obtains st' where "parse_lines st (str_lines s) = Inr st'"
    "ps_d (flush_section st') = add_section s (ps_d (flush_section st))"
proof -
  from section_okE [OF assms] obtain l ls where l: "media_line l" "list_all copied_line ls"
    "str_lines s = l # ls" "s = render_lines (l # ls)" by metis
  have mid: "section_mid s = lines_mid None ls" by (simp add: section_mid_def l(3))
  show thesis
    by (rule that, unfold l(3), rule parse_foreign_section [OF l(1,2)], unfold l(4) [symmetric])
      (simp add: flush_section_def [of "_\<lparr>ps_other_mid := _\<rparr>"] Let_def add_section_def mid
        section_ok_not_Nil [OF assms] split: option.splits)
qed

lemma parse_sections:
  "list_all section_ok ss \<Longrightarrow> \<exists>st'. parse_lines st (concat (map str_lines ss)) = Inr st' \<and>
     ps_d (flush_section st') = fold add_section ss (ps_d (flush_section st))"
proof (induction ss arbitrary: st)
  case (Cons s ss)
  then have "section_ok s" by simp
  from parse_section [OF this] obtain st1 where st1: "parse_lines st (str_lines s) = Inr st1"
    "ps_d (flush_section st1) = add_section s (ps_d (flush_section st))" by metis
  from Cons.IH [of st1] Cons.prems st1 show ?case
    by (simp add: parse_lines_append)
qed simp

section \<open>The lines of a serialized description\<close>

definition opt_lines :: "'a option \<Rightarrow> ('a \<Rightarrow> str) \<Rightarrow> str list" where
  "opt_lines x f = (case x of Some y \<Rightarrow> [f y] | None \<Rightarrow> [])"

definition attr_line :: "str \<Rightarrow> str \<Rightarrow> str" where
  "attr_line key v = ''a='' @ key @ '':'' @ v"

definition origin_line :: "str \<Rightarrow> str \<Rightarrow> str \<Rightarrow> str" where
  "origin_line u sid sver = ''o='' @ u @ '' '' @ sid @ '' '' @ sver @ '' IN IP4 127.0.0.1''"

definition group_lines :: "str list \<Rightarrow> str list" where
  "group_lines ms = (if ms \<noteq> [] then [attr_line ''group'' (''BUNDLE'' @ concat (map (\<lambda>m. '' '' @ m) ms))] else [])"

definition options_lines :: "str list \<Rightarrow> str list" where
  "options_lines os = (if os \<noteq> [] then [attr_line ''ice-options'' (str_join '','' os)] else [])"

definition direction_lines :: "direction \<Rightarrow> str list" where
  "direction_lines dir = (if dir \<noteq> Direction_Unknown then [''a='' @ Direction_as_sdp dir] else [])"

definition flag_lines :: "bool \<Rightarrow> str \<Rightarrow> str list" where
  "flag_lines b s = (if b then [s] else [])"

definition header_lines :: "description \<Rightarrow> str list" where
  "header_lines d =
     [''v=0'', origin_line (d_username d) (d_session_id d) (d_session_version d), ''s=-'', ''t=0 0''] @
     group_lines (d_bundle_mids d) @
     [attr_line ''msid-semantic'' ''WMS *''] @
     options_lines (d_ice_options d) @
     flag_lines (d_extmap_allow_mixed d) ''a=extmap-allow-mixed'' @
     opt_lines (d_fingerprint d) fingerprint_line @
     map (\<lambda>attr. ''a='' @ attr) (d_extra_attrs d)"

definition app_lines :: "description \<Rightarrow> application \<Rightarrow> str list" where
  "app_lines d app =
     [''m=application 9 UDP/DTLS/SCTP webrtc-datachannel'', ''c=IN IP4 0.0.0.0'', attr_line ''mid'' (app_mid app)] @
     direction_lines (app_direction app) @
     [attr_line ''setup'' (Role_as_sdp (d_role d))] @
     opt_lines (d_ice_ufrag d) (attr_line ''ice-ufrag'') @
     opt_lines (d_ice_pwd d) (attr_line ''ice-pwd'') @
     opt_lines (d_fingerprint d) fingerprint_line @
     opt_lines (app_sctp_port app) (\<lambda>p. attr_line ''sctp-port'' (word_str p)) @
     opt_lines (app_max_message_size app) (\<lambda>sz. attr_line ''max-message-size'' (word_str sz)) @
     map (\<lambda>attr. ''a='' @ attr) (app_extra_attrs app) @
     map (\<lambda>c. ''a='' @ Candidate_to_sdp c) (filter (\<lambda>c. Candidate_mid c = app_mid app) (d_candidates d)) @
     flag_lines (d_ended d) ''a=end-of-candidates''"

definition sdp_lines :: "description \<Rightarrow> str list" where
  "sdp_lines d = header_lines d @ (case d_application d of Some app \<Rightarrow> app_lines d app | None \<Rightarrow> []) @
     concat (map str_lines (d_other_sections d))"

lemma render_opt_lines: "render_lines (opt_lines x f) = (case x of Some y \<Rightarrow> f y @ crlf | None \<Rightarrow> [])"
  by (simp add: opt_lines_def split: option.splits)

lemma render_map: "render_lines (map f xs) = concat (map (\<lambda>x. f x @ crlf) xs)"
  by (induction xs) simp_all

lemma concat_filter: "concat (map f (filter P xs)) = concat (map (\<lambda>x. if P x then f x else []) xs)"
  by (induction xs) simp_all

lemma render_app_lines: "render_lines (app_lines d app) = Description_write_application d app crlf"
  by (simp add: app_lines_def Description_write_application_def render_opt_lines render_map concat_filter
      attr_line_def direction_lines_def flag_lines_def
      cong: option.case_cong if_cong)

lemma render_sections: "list_all section_ok ss \<Longrightarrow> render_lines (concat (map str_lines ss)) = concat ss"
  by (induction ss) (auto simp: section_ok_def)

lemma to_sdp_lines:
  "list_all section_ok (d_other_sections d) \<Longrightarrow> Description_to_sdp d = render_lines (sdp_lines d)"
  by (simp add: Description_to_sdp_def Description_generate_sdp_def sdp_lines_def header_lines_def
      attr_line_def origin_line_def group_lines_def options_lines_def flag_lines_def
      render_opt_lines render_map render_sections render_app_lines split: option.splits)

lemma line_ok_lit_append: "is_line p \<Longrightarrow> line_ok v \<Longrightarrow> line_ok (p @ v)"
  by (rule line_ok_append [OF line_ok_is_line])

lemma list_all_opt_lines: "list_all P (opt_lines x f) = pred_option (\<lambda>y. P (f y)) x"
  by (cases x) (simp_all add: opt_lines_def)


section \<open>Every line is a line\<close>

lemma fingerprint_line_ok: "fingerprint_ok fp \<Longrightarrow> line_ok (fingerprint_line fp)"
  by (cases "fp_algorithm fp")
    (auto simp: fingerprint_ok_def fingerprint_line_def intro!: line_ok_is_line dest: is_token_is_line)

lemma candidate_line_ok: "candidate_wf c \<Longrightarrow> is_line (Candidate_to_sdp c)"
proof -
  assume wf: "candidate_wf c"
  have "is_line (c_tail c)"
  proof -
    have "is_line (str_join '' '' (split_ascii_whitespace (c_tail c)))"
      using split_ws_tokens [of "c_tail c"] by (intro is_line_join) (auto simp: list_all_iff is_token_is_line)
    with wf show ?thesis by (simp add: candidate_wf_def)
  qed
  moreover have "is_line (c_address c)" if "Candidate_is_resolved c"
    using resolved_canonical [OF wf that] ip_str_token is_token_is_line by metis
  ultimately show ?thesis
    using wf by (auto simp: Candidate_to_sdp_def candidate_wf_def is_token_is_line)
qed

lemma word_str_line_ok: "line_ok (word_str w)"
  by (intro line_ok_is_line is_token_is_line word_str_token)

lemma line_ok_lits:
  "line_ok ''v=0''" "line_ok ''s=-''" "line_ok ''t=0 0''" "line_ok ''WMS *''" "line_ok ''BUNDLE''"
  "line_ok ''a=extmap-allow-mixed''" "line_ok ''m=application 9 UDP/DTLS/SCTP webrtc-datachannel''"
  "line_ok ''c=IN IP4 0.0.0.0''" "line_ok ''a=end-of-candidates''"
  by (simp_all add: line_ok_def)

lemma attr_line_ok: "is_line key \<Longrightarrow> line_ok v \<Longrightarrow> line_ok (attr_line key v)"
  using line_ok_lit_append [of "''a='' @ key @ '':''" v] by (simp add: attr_line_def)

lemma attr_prefix_ok: "line_ok attr \<Longrightarrow> line_ok (''a='' @ attr)"
  by (rule line_ok_lit_append) simp

lemma str_join_line_ok:
  "list_all line_ok ws \<Longrightarrow> is_line sep \<Longrightarrow> line_ok (str_join sep ws)"
  by (induction sep ws rule: str_join.induct) (auto simp: line_ok_def [of "[]"] intro: line_ok_append line_ok_lit_append)

lemma origin_line_ok: "is_token u \<Longrightarrow> is_token sid \<Longrightarrow> is_token sver \<Longrightarrow> line_ok (origin_line u sid sver)"
  by (intro line_ok_is_line) (simp add: origin_line_def is_token_is_line)

lemma line_ok_concat: "list_all line_ok ls \<Longrightarrow> line_ok (concat ls)"
  by (induction ls) (simp_all add: line_ok_append line_ok_def [of "[]"])

lemma group_lines_ok: "list_all line_ok ms \<Longrightarrow> list_all line_ok (group_lines ms)"
proof -
  assume ms: "list_all line_ok ms"
  have sp: "line_ok ('' '' @ m)" if "line_ok m" for m using that by (rule line_ok_lit_append [rotated]) simp
  from ms have "list_all line_ok (map (\<lambda>m. '' '' @ m) ms)"
    unfolding list.pred_map o_def by (rule list.pred_mono_strong) (rule sp)
  then have "line_ok (concat (map (\<lambda>m. '' '' @ m) ms))"
    by (rule line_ok_concat)
  then have "line_ok (''BUNDLE'' @ concat (map (\<lambda>m. '' '' @ m) ms))"
    by (rule line_ok_lit_append [rotated]) simp
  then show ?thesis unfolding group_lines_def by (simp add: attr_line_ok del: append_Cons)
qed

lemma options_lines_ok: "list_all option_ok os \<Longrightarrow> list_all line_ok (options_lines os)"
  by (auto simp: options_lines_def option_ok_def list_all_iff intro!: attr_line_ok str_join_line_ok)

lemma direction_line_ok: "line_ok (''a='' @ Direction_as_sdp dir)"
  by (cases dir) (simp_all add: line_ok_def)

lemma role_ok: "line_ok (Role_as_sdp rl)"
  by (cases rl) (simp_all add: line_ok_def)

lemma fingerprint_lines_ok: "pred_option fingerprint_ok fp \<Longrightarrow> list_all line_ok (opt_lines fp fingerprint_line)"
  by (cases fp) (simp_all add: opt_lines_def fingerprint_line_ok)

lemma extra_lines_ok: "list_all line_ok attrs \<Longrightarrow> list_all line_ok (map (\<lambda>attr. ''a='' @ attr) attrs)"
  by (auto simp: list_all_iff simp del: append_Cons append_Nil intro!: attr_prefix_ok)

lemma header_lines_ok:
  assumes "description_ok d"
  shows "list_all line_ok (header_lines d)"
proof -
  have "list_all line_ok (d_extra_attrs d)"
    using assms by (auto simp: description_ok_def list_all_iff session_attr_ok_def)
  with assms show ?thesis
    unfolding header_lines_def
    by (simp add: description_ok_def extra_lines_ok group_lines_ok options_lines_ok origin_line_ok
        fingerprint_lines_ok attr_line_ok line_ok_lits flag_lines_def del: append_Cons)
qed

lemma app_lines_ok:
  assumes "description_ok d" "application_ok app"
  shows "list_all line_ok (app_lines d app)"
proof -
  have "list_all line_ok (app_extra_attrs app)"
    using assms(2) by (auto simp: application_ok_def list_all_iff app_attr_ok_def session_attr_ok_def)
  moreover have "list_all line_ok (map (\<lambda>c. ''a='' @ Candidate_to_sdp c) (filter P (d_candidates d)))" for P
    using assms(1) by (auto simp: description_ok_def list_all_iff simp del: append_Cons append_Nil
        intro!: attr_prefix_ok line_ok_is_line candidate_line_ok)
  moreover have "list_all line_ok (opt_lines (d_fingerprint d) fingerprint_line)"
    using assms(1) by (intro fingerprint_lines_ok) (simp add: description_ok_def)
  ultimately show ?thesis
    using assms unfolding app_lines_def
    by (simp add: description_ok_def application_ok_def extra_lines_ok attr_line_ok
        line_ok_lits flag_lines_def role_ok word_str_line_ok list_all_opt_lines [of _ _ "attr_line _"]
        list_all_opt_lines [of _ _ "\<lambda>y. attr_line _ (word_str y)"] direction_lines_def
        direction_line_ok option.pred_set del: append_Cons append_Nil)
qed

lemma sdp_lines_ok:
  assumes "description_ok d"
  shows "list_all line_ok (sdp_lines d)"
proof -
  have "list_all line_ok (concat (map str_lines (d_other_sections d)))"
    using assms section_lines_ok by (fastforce simp: description_ok_def list_all_iff)
  with header_lines_ok [OF assms] app_lines_ok [OF assms] assms show ?thesis
    by (auto simp: sdp_lines_def description_ok_def split: option.splits)
qed

section \<open>Running the parser over one line\<close>

declare parse_lines.simps(2) [simp del]

lemma append_singleton [simp]: "(@) [c] = (#) c"
  by auto

text \<open>Outside a foreign section.\<close>

lemma parse_session_line:
  assumes "ps_kind st \<noteq> Some SectionKind_Other" "line_ok (attr_line key v)"
    and "CHR '':'' \<notin> set key" "parse_session_attr st (key @ '':'' @ v) key v = Some r"
  shows "parse_lines st (attr_line key v # ls) = try_res r (\<lambda>st. parse_lines st ls)"
proof -
  have "parse_line st (attr_line key v) = r"
    using assms by (simp add: parse_line_def parse_attr_def attr_line_def)
  moreover have "attr_line key v \<noteq> []" by (simp add: attr_line_def)
  ultimately show ?thesis
    using assms(2) by (simp add: parse_lines_cons)
qed

lemma parse_dropped_line:
  assumes "ps_kind st \<noteq> Some SectionKind_Other" "line_ok l" "l \<noteq> []"
    and "strip_pre ''m='' l = None" "strip_pre ''o='' l = None" "strip_pre ''a='' l = None"
  shows "parse_lines st (l # ls) = parse_lines st ls"
  using assms by (simp add: parse_lines_cons parse_line_def)

lemma parse_session_extra:
  assumes "ps_kind st \<noteq> Some SectionKind_Other" "ps_app st = None" "session_attr_ok attr"
  shows "parse_line st (''a='' @ attr) =
    Inr (st\<lparr>ps_d := (ps_d st)\<lparr>d_extra_attrs := d_extra_attrs (ps_d st) @ [attr]\<rparr>\<rparr>)"
proof -
  obtain key v where kv: "parse_pair attr = (key, v)" by force
  with assms(3) have "parse_session_attr st attr key v = None"
    by (simp add: parse_session_attr_None_iff session_attr_ok_def)
  with assms kv show ?thesis
    by (simp add: parse_line_def parse_attr_def Let_def)
qed

lemma parse_session_extras:
  "ps_kind st \<noteq> Some SectionKind_Other \<Longrightarrow> ps_app st = None \<Longrightarrow> list_all session_attr_ok attrs \<Longrightarrow>
   parse_lines st (map (\<lambda>attr. ''a='' @ attr) attrs) =
     Inr (st\<lparr>ps_d := (ps_d st)\<lparr>d_extra_attrs := d_extra_attrs (ps_d st) @ attrs\<rparr>\<rparr>)"
proof (induction attrs arbitrary: st)
  case (Cons attr attrs)
  then have ok: "session_attr_ok attr" by simp
  then have "line_ok (''a='' @ attr)"
    by (intro attr_prefix_ok) (simp add: session_attr_ok_def)
  then have "parse_lines st (map (\<lambda>attr. ''a='' @ attr) (attr # attrs)) =
      try_res (parse_line st (''a='' @ attr)) (\<lambda>st. parse_lines st (map (\<lambda>attr. ''a='' @ attr) attrs))"
    using parse_lines_cons [of "''a='' @ attr"] by simp
  with Cons parse_session_extra [OF Cons.prems(1,2) ok] show ?case by simp
qed simp

lemma parse_app_extra:
  assumes "ps_kind st \<noteq> Some SectionKind_Other" "ps_app st = Some app" "app_attr_ok attr"
  shows "parse_line st (''a='' @ attr) =
    Inr (st\<lparr>ps_app := Some (app\<lparr>app_extra_attrs := app_extra_attrs app @ [attr]\<rparr>)\<rparr>)"
proof -
  obtain key v where kv: "parse_pair attr = (key, v)" by force
  with assms(3) have "parse_session_attr st attr key v = None" "key \<notin> set app_keys"
    by (simp_all add: parse_session_attr_None_iff session_attr_ok_def app_attr_ok_def)
  with assms kv show ?thesis
    by (simp add: parse_line_def parse_attr_def parse_app_attr_def app_keys_def)
qed

lemma parse_app_extras:
  "ps_kind st \<noteq> Some SectionKind_Other \<Longrightarrow> ps_app st = Some app \<Longrightarrow> list_all app_attr_ok attrs \<Longrightarrow>
   parse_lines st (map (\<lambda>attr. ''a='' @ attr) attrs) =
     Inr (st\<lparr>ps_app := Some (app\<lparr>app_extra_attrs := app_extra_attrs app @ attrs\<rparr>)\<rparr>)"
proof (induction attrs arbitrary: st app)
  case (Cons attr attrs)
  then have ok: "app_attr_ok attr" by simp
  then have "line_ok (''a='' @ attr)"
    by (intro attr_prefix_ok) (simp add: app_attr_ok_def session_attr_ok_def)
  then have "parse_lines st (map (\<lambda>attr. ''a='' @ attr) (attr # attrs)) =
      try_res (parse_line st (''a='' @ attr)) (\<lambda>st. parse_lines st (map (\<lambda>attr. ''a='' @ attr) attrs))"
    using parse_lines_cons [of "''a='' @ attr"] by simp
  with Cons parse_app_extra [OF Cons.prems(1,2) ok] show ?case by simp
qed simp

text \<open>The candidates of the application section.\<close>

definition file_candidate :: "str \<Rightarrow> candidate \<Rightarrow> candidate" where
  "file_candidate mid c = (canonical c)\<lparr>c_mid := (if mid \<noteq> [] then Some mid else None)\<rparr>"

definition push_candidate :: "str \<Rightarrow> candidate list \<Rightarrow> candidate \<Rightarrow> candidate list" where
  "push_candidate mid cs c = push_new candidate_eq cs (file_candidate mid c)"

lemma candidate_key:
  obtains v where "Candidate_to_sdp c = ''candidate'' @ '':'' @ v" "''a='' @ Candidate_to_sdp c = attr_line ''candidate'' v"
proof (rule that)
  show "Candidate_to_sdp c = ''candidate'' @ '':'' @ drop 10 (Candidate_to_sdp c)"
    and "''a='' @ Candidate_to_sdp c = attr_line ''candidate'' (drop 10 (Candidate_to_sdp c))"
    by (simp_all add: Candidate_to_sdp_def attr_line_def)
qed

lemma parse_candidates:
  "ps_kind st \<noteq> Some SectionKind_Other \<Longrightarrow> ps_app st = Some app \<Longrightarrow>
   list_all candidate_wf cs \<Longrightarrow>
   parse_lines st (map (\<lambda>c. ''a='' @ Candidate_to_sdp c) cs) =
     Inr (st\<lparr>ps_d := (ps_d st)\<lparr>d_candidates := foldl (push_candidate (app_mid app)) (d_candidates (ps_d st)) cs\<rparr>\<rparr>)"
proof (induction cs arbitrary: st)
  case (Cons c cs)
  then have wf: "candidate_wf c" by simp
  obtain v where v: "Candidate_to_sdp c = ''candidate'' @ '':'' @ v" "''a='' @ Candidate_to_sdp c = attr_line ''candidate'' v"
    using candidate_key .
  let ?d = "(ps_d st)\<lparr>d_candidates := push_candidate (app_mid app) (d_candidates (ps_d st)) c\<rparr>"
  have parse: "parse_session_attr st (''candidate'' @ '':'' @ v) ''candidate'' v = Some (Inr (st\<lparr>ps_d := ?d\<rparr>))"
    using Cons.prems unfolding v(1) [symmetric]
    by (simp add: parse_session_attr_def Let_def default_candidate_mid_def
        Candidate_parse_to_sdp [OF wf] push_candidate_def file_candidate_def)
  have ok: "line_ok (attr_line ''candidate'' v)"
    unfolding v(2) [symmetric] by (intro attr_prefix_ok line_ok_is_line candidate_line_ok wf)
  have "parse_lines st (map (\<lambda>c. ''a='' @ Candidate_to_sdp c) (c # cs)) =
      parse_lines (st\<lparr>ps_d := ?d\<rparr>) (map (\<lambda>c. ''a='' @ Candidate_to_sdp c) cs)"
    unfolding list.map v(2) by (subst parse_session_line [OF Cons.prems(1) ok _ parse]) simp_all
  with Cons show ?case by simp
qed simp

section \<open>Running the parser over the header\<close>

text \<open>The mids a BUNDLE line is read back as.\<close>

definition reread_mids :: "str list \<Rightarrow> str list" where
  "reread_mids ms = split_ascii_whitespace (concat (map (\<lambda>m. '' '' @ m) ms))"

lemma split_ws_concat:
  "list_all is_token ms \<Longrightarrow> split_ascii_whitespace (concat (map (\<lambda>m. '' '' @ m) ms)) = ms"
proof (induction ms)
  case (Cons m ms)
  then show ?case
    by (cases ms) (auto simp: split_ws_sep split_ws_token split_ws_token_sep)
qed simp

lemma reread_mids_Nil [simp]: "reread_mids [] = []"
  by (simp add: reread_mids_def)

lemma reread_mids_tokens: "list_all is_token ms \<Longrightarrow> reread_mids ms = ms"
  unfolding reread_mids_def by (rule split_ws_concat)

lemma parse_group:
  assumes "ps_kind st \<noteq> Some SectionKind_Other" "list_all line_ok ms" "d_bundle_mids (ps_d st) = []"
  shows "parse_lines st (group_lines ms) = Inr (st\<lparr>ps_d := (ps_d st)\<lparr>d_bundle_mids := reread_mids ms\<rparr>\<rparr>)"
proof (cases "ms = []")
  case True
  with assms(3) have "(ps_d st)\<lparr>d_bundle_mids := reread_mids ms\<rparr> = ps_d st" by auto
  with True show ?thesis by (simp add: group_lines_def)
next
  case False
  let ?v = "''BUNDLE'' @ concat (map (\<lambda>m. '' '' @ m) ms)"
  have group: "group_lines ms = [attr_line ''group'' ?v]" unfolding group_lines_def using False by simp
  then have ok: "line_ok (attr_line ''group'' ?v)" using group_lines_ok [OF assms(2)] by (simp del: append_Cons)
  have "parse_session_attr st (''group'' @ '':'' @ ?v) ''group'' ?v =
      Some (Inr (st\<lparr>ps_d := (ps_d st)\<lparr>d_bundle_mids := reread_mids ms\<rparr>\<rparr>))"
    by (simp add: parse_session_attr_def Let_def reread_mids_def)
  from parse_session_line [OF assms(1) ok _ this, of "[]"] show ?thesis unfolding group by simp
qed

lemma parse_ice_options:
  assumes "ps_kind st \<noteq> Some SectionKind_Other" "list_all option_ok os" "d_ice_options (ps_d st) = []"
  shows "parse_lines st (options_lines os) = Inr (st\<lparr>ps_d := (ps_d st)\<lparr>d_ice_options := os\<rparr>\<rparr>)"
proof (cases "os = []")
  case True
  with assms(3) have "(ps_d st)\<lparr>d_ice_options := os\<rparr> = ps_d st" by auto
  with True show ?thesis by (simp add: options_lines_def)
next
  case False
  let ?v = "str_join '','' os"
  have opts: "options_lines os = [attr_line ''ice-options'' ?v]" using False by (simp add: options_lines_def)
  then have ok: "line_ok (attr_line ''ice-options'' ?v)" using options_lines_ok [OF assms(2)] by simp
  have "split_on (\<lambda>c. c = CHR '','') ?v = os"
    using False assms(2) by (intro split_on_join) (auto simp: option_ok_def list_all_iff)
  moreover have "map str_trim os = os"
    using assms(2) by (auto simp: option_ok_def list_all_iff intro!: map_idI)
  ultimately have "parse_session_attr st (''ice-options'' @ '':'' @ ?v) ''ice-options'' ?v =
      Some (Inr (st\<lparr>ps_d := (ps_d st)\<lparr>d_ice_options := os\<rparr>\<rparr>))"
    using assms(3) by (simp add: parse_session_attr_def Let_def)
  from parse_session_line [OF assms(1) ok _ this, of "[]"] show ?thesis unfolding opts by simp
qed

lemma algorithm_lower: "to_ascii_lowercase (FingerprintAlgorithm_as_sdp a) = FingerprintAlgorithm_as_sdp a"
  by (cases a) (simp_all add: to_ascii_lowercase_def ascii_case_other code_def)

lemma algorithm_token: "is_token (FingerprintAlgorithm_as_sdp a)"
  by (cases a) (simp_all add: is_token_def is_ascii_whitespace_def code_def)

lemma parse_fingerprint_line:
  "fingerprint_ok fp \<Longrightarrow>
   parse_fingerprint (FingerprintAlgorithm_as_sdp (fp_algorithm fp) @ '' '' @ fp_value fp) = Some fp"
  using split_ws_token_sep [OF algorithm_token, of "CHR '' ''"]
  by (simp add: parse_fingerprint_def fingerprint_ok_def split_ws_token algorithm_lower
      FingerprintAlgorithm_from_as_sdp)

lemma fingerprint_attr_line:
  "fingerprint_line fp = attr_line ''fingerprint'' (FingerprintAlgorithm_as_sdp (fp_algorithm fp) @ '' '' @ fp_value fp)"
  by (simp add: fingerprint_line_def attr_line_def)

lemma parse_fingerprint_lines:
  assumes "ps_kind st \<noteq> Some SectionKind_Other" "pred_option fingerprint_ok fp"
    "d_fingerprint (ps_d st) = None \<or> d_fingerprint (ps_d st) = fp \<and> ps_index st = 0"
  shows "parse_lines st (opt_lines fp fingerprint_line) = Inr (st\<lparr>ps_d := (ps_d st)\<lparr>d_fingerprint := fp\<rparr>\<rparr>)"
proof (cases fp)
  case None
  with assms(3) have "(ps_d st)\<lparr>d_fingerprint := None\<rparr> = ps_d st" by auto
  with None show ?thesis by (simp add: opt_lines_def)
next
  case (Some f)
  let ?v = "FingerprintAlgorithm_as_sdp (fp_algorithm f) @ '' '' @ fp_value f"
  have f: "fingerprint_ok f" using assms(2) Some by simp
  have "parse_session_attr st (''fingerprint'' @ '':'' @ ?v) ''fingerprint'' ?v =
      Some (Inr (st\<lparr>ps_d := (ps_d st)\<lparr>d_fingerprint := Some f\<rparr>\<rparr>))"
    using assms(3) Some parse_fingerprint_line [OF f] by (auto simp: parse_session_attr_def Let_def)
  from parse_session_line [OF assms(1) fingerprint_line_ok [OF f, unfolded fingerprint_attr_line] _ this, of "[]"]
  show ?thesis by (simp add: Some opt_lines_def fingerprint_attr_line)
qed

definition header_result :: "description \<Rightarrow> description \<Rightarrow> description" where
  "header_result d d0 =
     d0\<lparr>d_username := d_username d, d_session_id := d_session_id d, d_session_version := d_session_version d,
        d_bundle_mids := reread_mids (d_bundle_mids d), d_ice_options := d_ice_options d,
        d_extmap_allow_mixed := d_extmap_allow_mixed d, d_fingerprint := d_fingerprint d,
        d_extra_attrs := d_extra_attrs d\<rparr>"

lemma parse_origin_line:
  assumes "is_token u" "is_token sid" "is_token sver"
  shows "parse_lines st (origin_line u sid sver # ls) =
    parse_lines (st\<lparr>ps_d := (ps_d st)\<lparr>d_username := u, d_session_id := sid, d_session_version := sver\<rparr>\<rparr>) ls"
proof -
  have "parse_line st (origin_line u sid sver) =
      Inr (st\<lparr>ps_d := (ps_d st)\<lparr>d_username := u, d_session_id := sid, d_session_version := sver\<rparr>\<rparr>)"
    using assms by (simp add: parse_line_def parse_origin_def split_ws_token_sep origin_line_def)
  moreover have "origin_line u sid sver \<noteq> []" by (simp add: origin_line_def)
  ultimately show ?thesis using origin_line_ok [OF assms] by (simp add: parse_lines_cons)
qed

lemma parse_extmap:
  assumes "ps_kind st \<noteq> Some SectionKind_Other" "\<not> d_extmap_allow_mixed (ps_d st)"
  shows "parse_lines st (flag_lines b ''a=extmap-allow-mixed'') =
    Inr (st\<lparr>ps_d := (ps_d st)\<lparr>d_extmap_allow_mixed := b\<rparr>\<rparr>)"
proof (cases b)
  case False
  with assms(2) have "(ps_d st)\<lparr>d_extmap_allow_mixed := b\<rparr> = ps_d st" by auto
  with False show ?thesis by (simp add: flag_lines_def)
next
  case True
  have "parse_pair ''extmap-allow-mixed'' = (''extmap-allow-mixed'', [])" by (simp add: parse_pair_def)
  with assms(1) have "parse_line st ''a=extmap-allow-mixed'' = Inr (st\<lparr>ps_d := (ps_d st)\<lparr>d_extmap_allow_mixed := True\<rparr>\<rparr>)"
    by (simp add: parse_line_def parse_attr_def parse_session_attr_def Let_def)
  with True show ?thesis by (simp add: flag_lines_def parse_lines_cons line_ok_lits)
qed

lemma parse_msid:
  assumes "ps_kind st \<noteq> Some SectionKind_Other"
  shows "parse_lines st (attr_line ''msid-semantic'' ''WMS *'' # ls) = parse_lines st ls"
proof -
  have "line_ok (attr_line ''msid-semantic'' ''WMS *'')" by (intro attr_line_ok line_ok_lits) simp
  from parse_session_line [OF assms this, of "Inr st" ls] show ?thesis
    by (simp add: parse_session_attr_def Let_def)
qed

lemma parser_init_simps [simp]:
  "ps_kind (parser_init d) = None" "ps_app (parser_init d) = None" "ps_d (parser_init d) = d"
  "ps_index (parser_init d) = -1" "(parser_init d)\<lparr>ps_d := d'\<rparr> = parser_init d'"
  by (simp_all add: parser_init_def)

lemma parse_header:
  assumes "description_ok d"
  shows "parse_lines (parser_init (Description_new now typ rl)) (header_lines d) =
    Inr (parser_init (header_result d (Description_new now typ rl)))"
proof -
  have new: "d_bundle_mids (Description_new now typ rl) = []" "d_ice_options (Description_new now typ rl) = []"
    "\<not> d_extmap_allow_mixed (Description_new now typ rl)" "d_fingerprint (Description_new now typ rl) = None"
    "d_extra_attrs (Description_new now typ rl) = []"
    by (simp_all add: Description_new_def)
  show ?thesis
    using assms unfolding header_lines_def header_result_def
    by (simp add: description_ok_def parse_lines_append parse_dropped_line line_ok_lits parse_origin_line
        parse_group parse_msid parse_ice_options parse_extmap parse_fingerprint_lines parse_session_extras new)
qed


section \<open>Running the parser over the application section\<close>

definition app_state :: "description \<Rightarrow> application \<Rightarrow> parser_state" where
  "app_state d app = \<lparr>ps_d = d, ps_kind = Some SectionKind_Application, ps_app = Some app, ps_other = [],
     ps_other_mid = None, ps_index = 0\<rparr>"

lemma app_state_simps [simp]:
  "ps_kind (app_state d app) = Some SectionKind_Application" "ps_app (app_state d app) = Some app"
  "ps_d (app_state d app) = d" "ps_index (app_state d app) = 0"
  "(app_state d app)\<lparr>ps_d := d'\<rparr> = app_state d' app"
  "(app_state d app)\<lparr>ps_app := Some app'\<rparr> = app_state d app'"
  by (simp_all add: app_state_def)

lemma parse_app_start:
  "parse_lines (parser_init d) (''m=application 9 UDP/DTLS/SCTP webrtc-datachannel'' # ls) =
     parse_lines (app_state d (Application_new ''0'')) ls"
proof -
  let ?rest = "''application 9 UDP/DTLS/SCTP webrtc-datachannel''"
  have "is_token ''application''" by (simp add: is_token_def is_ascii_whitespace_def code_def)
  from split_ws_token_sep [OF this, of "CHR '' ''" "''9 UDP/DTLS/SCTP webrtc-datachannel''"]
  have "media_type ?rest = ''application''" by (simp add: media_type_def)
  moreover have "int_str 0 = ''0''" by (simp add: int_str_def num_eval)
  ultimately have "parse_line (parser_init d) (''m='' @ ?rest) = Inr (app_state d (Application_new ''0''))"
    by (simp add: parse_line_def parse_media_def media_type_def [symmetric] Let_def flush_section_def
        parser_init_def app_state_def)
  then show ?thesis using line_ok_lits(7) by (simp add: parse_lines_cons)
qed

lemma parse_app_line:
  assumes "line_ok (attr_line key v)" "CHR '':'' \<notin> set key" "key \<notin> set session_keys"
    and "parse_app_attr app (key @ '':'' @ v) key v = Inr app'"
  shows "parse_lines (app_state d app) (attr_line key v # ls) = parse_lines (app_state d app') ls"
proof -
  have "parse_session_attr (app_state d app) (key @ '':'' @ v) key v = None"
    using assms(3) by (simp add: parse_session_attr_None_iff)
  then have "parse_line (app_state d app) (attr_line key v) = Inr (app_state d app')"
    using assms(2,4) by (simp add: parse_line_def parse_attr_def attr_line_def)
  moreover have "attr_line key v \<noteq> []" by (simp add: attr_line_def)
  ultimately show ?thesis using assms(1) by (simp add: parse_lines_cons)
qed

lemma parse_mid_line:
  assumes "line_ok m"
  shows "parse_lines (app_state d app) (attr_line ''mid'' m # ls) = parse_lines (app_state d (app\<lparr>app_mid := m\<rparr>)) ls"
proof -
  have "parse_app_attr app (''mid'' @ '':'' @ m) ''mid'' m = Inr (app\<lparr>app_mid := m\<rparr>)"
    by (simp add: parse_app_attr_def Application_set_mid_def)
  from parse_app_line [OF attr_line_ok [OF _ assms] _ _ this] show ?thesis by (simp add: session_keys_def)
qed

lemma parse_direction:
  "app_direction app = Direction_SendRecv \<Longrightarrow>
   parse_lines (app_state d app) (direction_lines dir) =
     Inr (app_state d (app\<lparr>app_direction := (if dir = Direction_Unknown then Direction_SendRecv else dir)\<rparr>))"
proof -
  assume dir: "app_direction app = Direction_SendRecv"
  have parse: "parse_lines (app_state d app) [''a='' @ k] = Inr (app_state d app')"
    if "parse_pair k = (k, [])" "k \<notin> set session_keys" "line_ok (''a='' @ k)"
      "parse_app_attr app k k [] = Inr app'" for k app'
  proof -
    from that have "parse_line (app_state d app) (''a='' @ k) = Inr (app_state d app')"
      using parse_session_attr_None_iff [of "app_state d app" k k "[]"] by (simp add: parse_line_def parse_attr_def)
    with that(3) show ?thesis using parse_lines_cons [of "''a='' @ k"] by simp
  qed
  have "app\<lparr>app_direction := Direction_SendRecv\<rparr> = app" using dir by auto
  then show ?thesis
    using parse [of "Direction_as_sdp dir" "app\<lparr>app_direction := dir\<rparr>"] direction_line_ok [of dir]
    by (cases dir) (simp_all add: direction_lines_def parse_pair_def session_keys_def parse_app_attr_def
        Application_set_direction_def)
qed

lemma parse_setup:
  "parse_lines (app_state d app) (attr_line ''setup'' (Role_as_sdp rl) # ls) =
     parse_lines (app_state (d\<lparr>d_role := rl\<rparr>) app) ls"
proof -
  have "parse_role (Role_as_sdp rl) = rl" by (cases rl) (simp_all add: parse_role_def)
  then have parse: "parse_session_attr (app_state d app) (''setup'' @ '':'' @ Role_as_sdp rl) ''setup'' (Role_as_sdp rl) =
      Some (Inr (app_state (d\<lparr>d_role := rl\<rparr>) app))"
    by (simp add: parse_session_attr_def Let_def)
  have ok: "line_ok (attr_line ''setup'' (Role_as_sdp rl))" by (intro attr_line_ok role_ok) simp
  show ?thesis by (subst parse_session_line [OF _ ok _ parse]) simp_all
qed

text \<open>The optional attributes have one shape, for keys of either match.\<close>

lemma parse_optional_session:
  assumes "CHR '':'' \<notin> set key" "is_line key"
    and "\<And>v. x = Some v \<Longrightarrow> line_ok (f v)"
    and "\<And>v. x = Some v \<Longrightarrow>
      parse_session_attr (app_state d app) (key @ '':'' @ f v) key (f v) = Some (Inr (app_state d' app))"
    and "x = None \<Longrightarrow> d' = d"
  shows "parse_lines (app_state d app) (opt_lines x (\<lambda>v. attr_line key (f v))) = Inr (app_state d' app)"
proof (cases x)
  case None
  with assms(5) show ?thesis by (simp add: opt_lines_def)
next
  case (Some v)
  have ok: "line_ok (attr_line key (f v))" using assms(2,3) Some by (intro attr_line_ok) simp_all
  show ?thesis unfolding opt_lines_def Some option.case
    by (subst parse_session_line [OF _ ok assms(1) assms(4) [OF Some]]) simp_all
qed

lemma parse_optional_app:
  assumes "CHR '':'' \<notin> set key" "is_line key" "key \<notin> set session_keys"
    and "\<And>v. x = Some v \<Longrightarrow> line_ok (f v)"
    and "\<And>v. x = Some v \<Longrightarrow> parse_app_attr app (key @ '':'' @ f v) key (f v) = Inr app'"
    and "x = None \<Longrightarrow> app' = app"
  shows "parse_lines (app_state d app) (opt_lines x (\<lambda>v. attr_line key (f v))) = Inr (app_state d app')"
proof (cases x)
  case None
  with assms(6) show ?thesis by (simp add: opt_lines_def)
next
  case (Some v)
  have ok: "line_ok (attr_line key (f v))" using assms(2,4) Some by (intro attr_line_ok) simp_all
  show ?thesis unfolding opt_lines_def Some option.case
    by (subst parse_app_line [OF ok assms(1,3) assms(5) [OF Some]]) simp_all
qed

lemma parse_ufrag:
  "pred_option line_ok u \<Longrightarrow> d_ice_ufrag d = None \<Longrightarrow>
   parse_lines (app_state d app) (opt_lines u (attr_line ''ice-ufrag'')) = Inr (app_state (d\<lparr>d_ice_ufrag := u\<rparr>) app)"
  using parse_optional_session [of "''ice-ufrag''" u "\<lambda>v. v" d app "d\<lparr>d_ice_ufrag := u\<rparr>"]
  by (cases u) (auto simp: parse_session_attr_def Let_def)

lemma parse_pwd:
  "pred_option line_ok u \<Longrightarrow> d_ice_pwd d = None \<Longrightarrow>
   parse_lines (app_state d app) (opt_lines u (attr_line ''ice-pwd'')) = Inr (app_state (d\<lparr>d_ice_pwd := u\<rparr>) app)"
  using parse_optional_session [of "''ice-pwd''" u "\<lambda>v. v" d app "d\<lparr>d_ice_pwd := u\<rparr>"]
  by (cases u) (auto simp: parse_session_attr_def Let_def)

lemma parse_sctp_port:
  "app_sctp_port app = None \<Longrightarrow>
   parse_lines (app_state d app) (opt_lines p (\<lambda>p. attr_line ''sctp-port'' (word_str p))) =
    Inr (app_state d (app\<lparr>app_sctp_port := p\<rparr>))"
  using parse_optional_app [of "''sctp-port''" p word_str app "app\<lparr>app_sctp_port := p\<rparr>" d]
  by (auto simp: parse_app_attr_def Application_set_sctp_port_def session_keys_def word_str_line_ok)

lemma parse_max_size:
  "app_max_message_size app = None \<Longrightarrow>
   parse_lines (app_state d app) (opt_lines p (\<lambda>p. attr_line ''max-message-size'' (word_str p))) =
    Inr (app_state d (app\<lparr>app_max_message_size := p\<rparr>))"
  using parse_optional_app [of "''max-message-size''" p word_str app "app\<lparr>app_max_message_size := p\<rparr>" d]
  by (auto simp: parse_app_attr_def Application_set_max_message_size_def session_keys_def word_str_line_ok)

lemma parse_ended:
  assumes "\<not> d_ended d"
  shows "parse_lines (app_state d app) (flag_lines b ''a=end-of-candidates'') = Inr (app_state (d\<lparr>d_ended := b\<rparr>) app)"
proof (cases b)
  case False
  with assms have "d\<lparr>d_ended := b\<rparr> = d" by auto
  with False show ?thesis by (simp add: flag_lines_def)
next
  case True
  have "parse_pair ''end-of-candidates'' = (''end-of-candidates'', [])" by (simp add: parse_pair_def)
  then have "parse_line (app_state d app) ''a=end-of-candidates'' = Inr (app_state (d\<lparr>d_ended := True\<rparr>) app)"
    by (simp add: parse_line_def parse_attr_def parse_session_attr_def Let_def)
  with True show ?thesis by (simp add: flag_lines_def parse_lines_cons line_ok_lits)
qed

section \<open>The round trip\<close>

definition app_norm :: "application \<Rightarrow> application" where
  "app_norm app = app\<lparr>app_direction :=
     (if app_direction app = Direction_Unknown then Direction_SendRecv else app_direction app)\<rparr>"

definition app_candidates :: "application \<Rightarrow> candidate list \<Rightarrow> candidate list" where
  "app_candidates app cs = foldl (push_candidate (app_mid app)) [] (filter (\<lambda>c. Candidate_mid c = app_mid app) cs)"

definition app_result :: "description \<Rightarrow> application \<Rightarrow> description \<Rightarrow> description" where
  "app_result d app d1 = d1\<lparr>d_role := d_role d, d_ice_ufrag := d_ice_ufrag d, d_ice_pwd := d_ice_pwd d,
     d_candidates := app_candidates app (d_candidates d), d_ended := d_ended d\<rparr>"

lemma parse_app:
  assumes ok: "description_ok d" "application_ok app"
    and d1: "d_ice_ufrag d1 = None" "d_ice_pwd d1 = None" "d_fingerprint d1 = d_fingerprint d"
      "d_candidates d1 = []" "\<not> d_ended d1"
  shows "parse_lines (parser_init d1) (app_lines d app) =
    Inr (app_state (app_result d app d1) (app_norm app))"
proof -
  have cs: "list_all candidate_wf (filter P (d_candidates d))" for P
    using ok(1) by (auto simp: description_ok_def list_all_iff)
  show ?thesis
    using ok d1 cs unfolding app_lines_def app_result_def
    apply (simp add: description_ok_def application_ok_def parse_lines_append parse_app_start parse_dropped_line
        line_ok_lits parse_mid_line parse_direction parse_setup parse_ufrag parse_pwd parse_fingerprint_lines
        parse_sctp_port parse_max_size parse_app_extras parse_candidates [unfolded append_Cons append_Nil]
        parse_ended Application_new_def)
    by (auto simp: app_norm_def app_candidates_def intro!: arg_cong2 [where f = app_state] application.equality)
qed

text \<open>
  What comes back: the type is not part of the text; role, ICE credentials, candidates and
  the end-of-candidates mark are written in the application section only; candidates are
  those of this section, in canonical form; a mid is bundled for every section.
\<close>

definition section_mids :: "description \<Rightarrow> str list" where
  "section_mids d = (case d_application d of Some app \<Rightarrow> [app_mid app] | None \<Rightarrow> []) @
     List.map_filter section_mid (d_other_sections d)"

definition Description_norm :: "description \<Rightarrow> description" where
  "Description_norm d =
     (let d = d\<lparr>d_typ := Type_Unspec,
                d_bundle_mids := foldl (push_new (=)) (reread_mids (d_bundle_mids d)) (section_mids d)\<rparr>
      in case d_application d of
           Some app \<Rightarrow> d\<lparr>d_application := Some (app_norm app), d_candidates := app_candidates app (d_candidates d)\<rparr>
         | None \<Rightarrow> d\<lparr>d_role := Role_ActPass, d_ice_ufrag := None, d_ice_pwd := None, d_candidates := [], d_ended := False\<rparr>)"

lemma add_sections:
  "fold add_section ss d = d\<lparr>d_bundle_mids := foldl (push_new (=)) (d_bundle_mids d) (List.map_filter section_mid ss),
     d_other_sections := d_other_sections d @ ss\<rparr>"
  by (induction ss arbitrary: d)
    (simp_all add: add_section_def push_bundle_mid_def Let_def map_filter_simps split: option.splits)

lemma flush_init [simp]: "flush_section (parser_init d) = parser_init d"
  by (simp add: flush_section_def parser_init_def Let_def)

lemma flush_app: "ps_d (flush_section (app_state d app)) = push_bundle_mid (d\<lparr>d_application := Some app\<rparr>) (app_mid app)"
  by (simp add: flush_section_def app_state_def Let_def)

lemma sdp_roundtrip_aux:
  assumes ok: "description_ok d"
  shows "Description_parse now (Description_to_sdp d) = Inr (Description_norm d)"
proof -
  let ?d0 = "Description_new now Type_Unspec Role_ActPass"
  let ?d1 = "header_result d ?d0"
  have sections: "list_all section_ok (d_other_sections d)" using ok by (simp add: description_ok_def)
  have lines: "str_lines (Description_to_sdp d) = sdp_lines d"
    unfolding to_sdp_lines [OF sections] by (rule str_lines_render' [OF sdp_lines_ok [OF ok]])
  obtain st where st: "parse_lines (parser_init ?d0) (header_lines d @
      (case d_application d of Some app \<Rightarrow> app_lines d app | None \<Rightarrow> [])) = Inr st"
    and flush: "fold add_section (d_other_sections d) (ps_d (flush_section st)) = Description_norm d"
  proof (cases "d_application d")
    case None
    have "fold add_section (d_other_sections d) (ps_d (flush_section (parser_init ?d1))) = Description_norm d"
      by (rule description.equality)
        (simp_all add: add_sections header_result_def Description_norm_def section_mids_def None Description_new_def)
    with None that parse_header [OF ok] show thesis by simp
  next
    case (Some app)
    have app: "application_ok app" using ok Some by (simp add: description_ok_def)
    have "parse_lines (parser_init ?d1) (app_lines d app) = Inr (app_state (app_result d app ?d1) (app_norm app))"
      by (rule parse_app [OF ok app]) (simp_all add: header_result_def Description_new_def)
    moreover have "fold add_section (d_other_sections d)
        (ps_d (flush_section (app_state (app_result d app ?d1) (app_norm app)))) = Description_norm d"
      by (rule description.equality)
        (simp_all add: add_sections flush_app push_bundle_mid_def app_result_def app_norm_def header_result_def
          Description_norm_def section_mids_def Some Description_new_def)
    ultimately show thesis
      using that Some parse_header [OF ok] by (simp add: parse_lines_append)
  qed
  from parse_sections [OF sections, of st] obtain st' where
    st': "parse_lines st (concat (map str_lines (d_other_sections d))) = Inr st'"
    "ps_d (flush_section st') = Description_norm d"
    using flush by auto
  have split: "sdp_lines d = (header_lines d @
      (case d_application d of Some app \<Rightarrow> app_lines d app | None \<Rightarrow> [])) @ concat (map str_lines (d_other_sections d))"
    by (simp add: sdp_lines_def)
  have "parse_lines (parser_init ?d0) (sdp_lines d) = Inr st'"
    unfolding split by (subst parse_lines_append) (simp only: st st' try_res_simps)
  with st'(2) show ?thesis
    by (simp add: Description_parse_def parse_into_def lines)
qed


section \<open>The normal form is stable\<close>

definition mids_clean :: "description \<Rightarrow> bool" where
  "mids_clean d \<longleftrightarrow> list_all is_token (d_bundle_mids d) \<and> list_all is_token (section_mids d)"

lemma candidate_wf_mid [simp]: "candidate_wf (c\<lparr>c_mid := m\<rparr>) = candidate_wf c"
  by (simp add: candidate_wf_def resolution_ok_def split: option.split)

lemma file_candidate_wf: "candidate_wf c \<Longrightarrow> candidate_wf (file_candidate mid c)"
  by (simp add: file_candidate_def candidate_wf_canonical)

lemma file_candidate_idem: "candidate_wf c \<Longrightarrow> file_candidate mid (file_candidate mid c) = file_candidate mid c"
  by (rule candidate.equality) (simp_all add: file_candidate_def canonical_def Candidate_is_resolved_def)

lemma push_candidates_eq:
  "foldl (push_candidate mid) xs cs = foldl (push_new candidate_eq) xs (map (file_candidate mid) cs)"
  by (induction cs arbitrary: xs) (simp_all add: push_candidate_def)

lemma app_candidates_eq:
  "app_candidates app cs = foldl (push_new candidate_eq) []
     (map (file_candidate (app_mid app)) (filter (\<lambda>c. Candidate_mid c = app_mid app) cs))"
  by (simp add: app_candidates_def push_candidates_eq)

lemma app_candidates_subset:
  "set (app_candidates app cs) \<subseteq> file_candidate (app_mid app) ` {c \<in> set cs. Candidate_mid c = app_mid app}"
  unfolding app_candidates_eq
  using push_all_subset [of candidate_eq "[]"] by fastforce

lemma app_candidates_no_dup: "no_dup candidate_eq (app_candidates app cs)"
  unfolding app_candidates_eq by (rule candidate_equality.push_all_no_dup) simp

lemma app_candidates_idem:
  assumes "list_all candidate_wf cs" "app_mid app \<noteq> []" "app_mid app' = app_mid app"
  shows "app_candidates app' (app_candidates app cs) = app_candidates app cs"
proof -
  have mem: "Candidate_mid c = app_mid app \<and> file_candidate (app_mid app) c = c" if "c \<in> set (app_candidates app cs)" for c
  proof -
    from that app_candidates_subset [of app cs] obtain c0 where
      "c0 \<in> set cs" "c = file_candidate (app_mid app) c0" by blast
    with assms(1) have "candidate_wf c0" "c = file_candidate (app_mid app) c0" by (auto simp: list_all_iff)
    then show ?thesis
      using assms(2) by (simp add: file_candidate_idem) (simp add: Candidate_mid_def file_candidate_def)
  qed
  have "filter (\<lambda>c. Candidate_mid c = app_mid app) (app_candidates app cs) = app_candidates app cs"
    using mem by (simp add: filter_id_conv)
  moreover have "map (file_candidate (app_mid app)) (app_candidates app cs) = app_candidates app cs"
    using mem by (simp add: map_idI)
  ultimately show ?thesis
    using candidate_equality.push_all_fresh [of "[]"] app_candidates_no_dup assms(3)
    by (simp add: app_candidates_eq [of app'])
qed

lemma section_mids_norm: "section_mids (Description_norm d) = section_mids d"
  by (simp add: section_mids_def Description_norm_def Let_def app_norm_def split: option.splits)

lemma norm_bundle_mids:
  "d_bundle_mids (Description_norm d) = foldl (push_new (=)) (reread_mids (d_bundle_mids d)) (section_mids d)"
  by (simp add: Description_norm_def Let_def split: option.splits)

lemma norm_mids_clean: "mids_clean d \<Longrightarrow> mids_clean (Description_norm d)"
  using push_all_subset [of "(=)" "d_bundle_mids d" "section_mids d"]
  by (auto simp: mids_clean_def norm_bundle_mids section_mids_norm reread_mids_tokens list_all_iff)

lemma lines_mid_line_ok:
  "list_all copied_line ls \<Longrightarrow> pred_option line_ok m \<Longrightarrow> pred_option line_ok (lines_mid m ls)"
proof (induction ls arbitrary: m)
  case (Cons l ls)
  have "line_ok (str_trim v)" if "strip_pre ''a=mid:'' l = Some v" for v
    using that Cons.prems by (intro str_trim_line_ok) (auto simp: strip_pre_Some_iff copied_line_def line_ok_def)
  with Cons show ?case by (simp split: option.splits)
qed simp

lemma section_mid_line_ok: "section_ok s \<Longrightarrow> section_mid s = Some m \<Longrightarrow> line_ok m"
  using lines_mid_line_ok [of "tl (str_lines s)" None]
  by (auto simp: section_mid_def elim!: section_okE)

lemma norm_ok: "description_ok d \<Longrightarrow> description_ok (Description_norm d)"
proof -
  assume ok: "description_ok d"
  have "list_all line_ok (section_mids d)"
    using ok section_mid_line_ok
    by (cases "d_application d")
      (auto simp: section_mids_def description_ok_def list_all_iff application_ok_def map_filter_def)
  moreover have "list_all line_ok (reread_mids (d_bundle_mids d))"
    using split_ws_tokens by (auto simp: reread_mids_def list_all_iff intro: line_ok_is_line is_token_is_line)
  ultimately have "list_all line_ok (d_bundle_mids (Description_norm d))"
    using push_all_subset [of "(=)" "reread_mids (d_bundle_mids d)" "section_mids d"]
    by (auto simp: norm_bundle_mids list_all_iff)
  moreover have "list_all candidate_wf (app_candidates app (d_candidates d))" for app
    using app_candidates_subset [of app "d_candidates d"] ok
    by (auto simp: description_ok_def list_all_iff dest!: subsetD intro: file_candidate_wf)
  ultimately show ?thesis
    using ok unfolding norm_bundle_mids
    by (cases "d_application d")
      (simp_all add: description_ok_def Description_norm_def Let_def application_ok_def app_norm_def)
qed

lemma description_norm_idem:
  assumes ok: "description_ok d" and clean: "mids_clean d"
  shows "Description_norm (Description_norm d) = Description_norm d"
proof -
  have mids: "d_bundle_mids (Description_norm (Description_norm d)) = d_bundle_mids (Description_norm d)"
    using norm_mids_clean [OF clean] hol_equality.push_all_idem
    by (simp add: norm_bundle_mids [of "Description_norm d"] mids_clean_def reread_mids_tokens section_mids_norm)
      (simp add: norm_bundle_mids)
  have cs: "app_candidates (app_norm app) (app_candidates app (d_candidates d)) = app_candidates app (d_candidates d)"
    if "d_application d = Some app" for app
    using ok clean that
    by (intro app_candidates_idem) (auto simp: description_ok_def mids_clean_def section_mids_def app_norm_def)
  show ?thesis
  proof (rule description.equality)
    show "d_bundle_mids (Description_norm (Description_norm d)) = d_bundle_mids (Description_norm d)" by (rule mids)
  qed (simp_all add: Description_norm_def Let_def app_norm_def cs [unfolded app_norm_def] split: option.splits)
qed

interpretation description_codec: normalizing Description_to_sdp
    "\<lambda>s. case Description_parse now s of Inl e \<Rightarrow> None | Inr d \<Rightarrow> Some d"
    "\<lambda>d. description_ok d \<and> mids_clean d" Description_norm for now
  by unfold_locales (auto simp: sdp_roundtrip_aux norm_ok norm_mids_clean description_norm_idem)


section \<open>A sample\<close>

text \<open>Built with the setters, as an application would, and with foreign media.\<close>

definition sample_candidate :: candidate where
  "sample_candidate = \<lparr>c_foundation = ''7'', c_component = 1, c_priority = 99, c_transport_string = ''tcp'',
      c_transport_type = TransportType_TcpActive, c_node = ''10.0.0.1'', c_service = ''09'',
      c_type_string = ''host'', c_candidate_type = CandidateType_Host, c_tail = ''tcptype active'',
      c_mid = None, c_family = Family_Ipv4, c_address = ''10.0.0.1'', c_port = 9\<rparr>"

definition sample_description :: description where
  "sample_description =
     (let d = Description_new None Type_Offer Role_Active;
          d = Description_set_application d (Application_set_sctp_port (Application_new ''data'') 5000);
          d = Description_set_ice_attribute d ''ufrag'' ''secret'';
          d = Description_set_fingerprint d \<lparr>fp_algorithm = FingerprintAlgorithm_Sha256, fp_value = ''ab:cd''\<rparr>;
          d = Description_add_ice_option d ''trickle'';
          d = Description_add_candidate d sample_candidate
      in d\<lparr>d_extra_attrs := [''tool:x''], d_other_sections := [''m=audio 9 x 0'' @ crlf @ ''a=mid:1'' @ crlf]\<rparr>)"

lemma sample_candidate_wf: "candidate_wf sample_candidate"
  unfolding sample_candidate_def by (rule Candidate_parse_wf [OF sample_tcp])

lemma sample_section_ok: "section_ok (''m=audio 9 x 0'' @ crlf @ ''a=mid:1'' @ crlf)"
proof -
  have "str_lines (render_lines [''m=audio 9 x 0'', ''a=mid:1'']) = [''m=audio 9 x 0'', ''a=mid:1'']"
    by (rule str_lines_render') (simp add: line_ok_def)
  moreover have "media_line ''m=audio 9 x 0''" by (simp add: media_line_def line_ok_def media_type_def str_eval)
  moreover have "copied_line ''a=mid:1''" by (simp add: copied_line_def line_ok_def)
  ultimately show ?thesis by (simp add: section_ok_def)
qed

lemma sample_fields:
  "d_application sample_description = Some (Application_set_sctp_port (Application_new ''data'') 5000)"
  "d_other_sections sample_description = [''m=audio 9 x 0'' @ crlf @ ''a=mid:1'' @ crlf]"
  "d_bundle_mids sample_description = [''data'']"
  "d_candidates sample_description = [sample_candidate\<lparr>c_mid := Some ''data''\<rparr>]"
  "d_ice_ufrag sample_description = Some ''ufrag''"
  by (simp_all add: sample_description_def Let_def Description_set_application_def Description_new_def
      Description_set_ice_attribute_def Description_set_fingerprint_def Description_add_ice_option_def
      Description_add_candidate_def Description_bundle_mid_def Candidate_hint_mid_def push_new_def
      Application_set_sctp_port_def Application_new_def sample_candidate_def)

lemma sample_ok: "description_ok sample_description"
proof -
  have "session_attr_ok ''tool:x''" by (simp add: session_attr_ok_def line_ok_def parse_pair_def session_keys_def)
  moreover have "option_ok ''trickle''"
    by (simp add: option_ok_def line_ok_def str_trim_solid ascii_solid_def ws1_def code_def)
  moreover have "fingerprint_ok \<lparr>fp_algorithm = FingerprintAlgorithm_Sha256, fp_value = to_ascii_uppercase ''ab:cd''\<rparr>"
    by (simp add: fingerprint_ok_def) (simp add: str_eval)
  moreover note sample_candidate_wf sample_section_ok
  moreover have "is_token ''rtc''" "is_token ''0''" by (simp_all add: str_eval)
  ultimately show ?thesis
    by (simp add: description_ok_def sample_description_def Let_def Description_set_application_def
      Description_new_def Description_set_ice_attribute_def Description_set_fingerprint_def
      Description_add_ice_option_def Description_add_candidate_def Candidate_hint_mid_def push_new_def
      application_ok_def Application_set_sctp_port_def Application_new_def line_ok_def random_session_id_def)
qed

lemma sample_clean: "mids_clean sample_description"
proof -
  have lines: "str_lines (''m=audio 9 x 0'' @ crlf @ ''a=mid:1'' @ crlf) = [''m=audio 9 x 0'', ''a=mid:1'']"
    using str_lines_render' [of "[''m=audio 9 x 0'', ''a=mid:1'']"] by (simp add: line_ok_def)
  have "str_trim ''1'' = ''1''" by (simp add: str_trim_solid ascii_solid_def ws1_def code_def)
  then have "section_mid (''m=audio 9 x 0'' @ crlf @ ''a=mid:1'' @ crlf) = Some ''1''"
    unfolding section_mid_def lines by simp
  then have "section_mids sample_description = [''data'', ''1'']"
    by (simp only: section_mids_def sample_fields map_filter_simps)
      (simp add: Application_set_sctp_port_def Application_new_def)
  then show ?thesis by (simp add: mids_clean_def sample_fields str_eval)
qed


section \<open>Properties\<close>

text \<open>C5: the serializer and the parser are inverse up to a normal form: for every well-formed
  description, however it was built, parsing its text succeeds and gives its normal form,
  which keeps the origin, fingerprint, options and attributes, the foreign sections and, when
  there is an application section, this section, the role, the ICE credentials, the
  end-of-candidates mark and the section's candidates.\<close>

theorem sdp_roundtrip:
  assumes "description_ok d"
  shows "Description_parse now (Description_to_sdp d) = Inr (Description_norm d) \<and>
    d_fingerprint (Description_norm d) = d_fingerprint d \<and>
    d_other_sections (Description_norm d) = d_other_sections d \<and>
    (d_application d = Some app \<longrightarrow>
       d_application (Description_norm d) = Some (app_norm app) \<and>
       d_role (Description_norm d) = d_role d \<and>
       d_ice_ufrag (Description_norm d) = d_ice_ufrag d \<and> d_ice_pwd (Description_norm d) = d_ice_pwd d \<and>
       d_ended (Description_norm d) = d_ended d \<and>
       d_candidates (Description_norm d) = app_candidates app (d_candidates d))"
  using sdp_roundtrip_aux [OF assms] by (simp add: Description_norm_def Let_def split: option.splits)

theorem sdp_roundtrip_witness:
  "Description_parse None (Description_to_sdp sample_description) = Inr (Description_norm sample_description) \<and>
   d_ice_ufrag (Description_norm sample_description) = Some ''ufrag''"
  using sdp_roundtrip [OF sample_ok, of None "Application_set_sctp_port (Application_new ''data'') 5000"]
  by (simp add: sample_fields)

lemma sample_parse: "Description_parse now (Description_to_sdp sample_description) = Inr (Description_norm sample_description)"
  using sample_ok by (rule sdp_roundtrip_aux)

text \<open>C6: every description the parser returns is well formed: its origin fields are tokens,
  its fingerprint an upper-case token, its candidates well formed and pairwise different, its
  extra attributes are ones the parser does not interpret, its foreign media sections start
  with a media line of another type and hold only lines the parser copies.\<close>

theorem sdp_parse_invariant:
  assumes "Description_parse now s = Inr d"
  shows "description_ok d \<and> no_dup candidate_eq (d_candidates d) \<and> d_typ d = Type_Unspec"
  using Description_parse_inv [OF assms] by (simp add: description_inv_def)

theorem sdp_parse_invariant_witness:
  "description_ok (Description_norm sample_description) \<and>
   no_dup candidate_eq (d_candidates (Description_norm sample_description))"
  using sdp_parse_invariant [OF sample_parse [of None]] by simp

text \<open>C19: what the parser accepts can be serialized and read again without an error, and when
  all mids are tokens the second text is read as exactly the description it was printed from:
  from the second pass on nothing changes.\<close>

theorem sdp_reparse_stable:
  assumes "Description_parse now s = Inr d"
  shows "\<exists>d'. Description_parse now' (Description_to_sdp d) = Inr d' \<and>
    (mids_clean d \<longrightarrow> Description_parse now'' (Description_to_sdp d') = Inr d')"
proof (intro exI conjI impI)
  have ok: "description_ok d" using Description_parse_inv [OF assms] by (simp add: description_inv_def)
  then show parse: "Description_parse now' (Description_to_sdp d) = Inr (Description_norm d)"
    by (rule sdp_roundtrip_aux)
  assume "mids_clean d"
  with ok description_codec.norm_fixed [of "Description_norm d" now''] description_norm_idem [of d] norm_ok norm_mids_clean
  show "Description_parse now'' (Description_to_sdp (Description_norm d)) = Inr (Description_norm d)"
    by (simp add: sdp_roundtrip_aux)
qed

theorem sdp_reparse_stable_witness:
  "\<exists>d'. Description_parse None (Description_to_sdp (Description_norm sample_description)) = Inr d' \<and>
    Description_parse None (Description_to_sdp d') = Inr d'"
  using sdp_reparse_stable [OF sample_parse [of None], of None None] norm_mids_clean [OF sample_clean] by blast

text \<open>Without an application section nothing of the ICE credentials, the role, the
  candidates or the end-of-candidates mark reaches the text.\<close>

theorem to_sdp_session_only:
  assumes "d_application d = None"
  shows "Description_to_sdp (Description_set_ice_attribute d u p) = Description_to_sdp d \<and>
    Description_to_sdp (Description_set_role d rl) = Description_to_sdp d \<and>
    Description_to_sdp (Description_add_candidate d c) = Description_to_sdp d \<and>
    Description_to_sdp (Description_end_candidates d) = Description_to_sdp d"
  using assms
  by (simp add: Description_to_sdp_def Description_generate_sdp_def Description_set_ice_attribute_def
      Description_set_role_def Description_add_candidate_def Description_end_candidates_def)

theorem to_sdp_session_only_witness:
  "Description_to_sdp (Description_set_ice_attribute (Description_new None Type_Offer Role_Active) ''u'' ''p'') =
   Description_to_sdp (Description_new None Type_Offer Role_Active)"
  using to_sdp_session_only [of "Description_new None Type_Offer Role_Active" "''u''" "''p''"]
  by (simp add: Description_new_def)

section \<open>A mid that is not a token\<close>

lemma split_on_append: "p x \<Longrightarrow> split_on p (a @ x # b) = split_on p a @ split_on p b"
proof (induction a)
  case (Cons c a)
  obtain w ws where "split_on p a = w # ws" using split_on_not_Nil by (cases "split_on p a") auto
  with Cons show ?case by simp
qed simp

lemma split_ws_append:
  "split_ascii_whitespace (a @ CHR '' '' # b) = split_ascii_whitespace a @ split_ascii_whitespace b"
  by (simp add: split_ascii_whitespace_def split_on_append)

lemma reread_mids_append: "reread_mids (ms @ ms') = reread_mids ms @ reread_mids ms'"
  by (cases ms') (simp_all add: reread_mids_def split_ws_append split_ws_sep)

lemma reread_two: "is_token u \<Longrightarrow> is_token v \<Longrightarrow> reread_mids [u @ '' '' @ v] = [u, v]"
  by (simp add: reread_mids_def split_ws_sep split_ws_token_sep split_ws_token)

lemma not_token_space: "\<not> is_token (u @ '' '' @ v)"
  by (simp add: is_token_def)

text \<open>One pass over a description whose only section has the mid \<open>u v\<close>.\<close>

definition split_mid :: "str \<Rightarrow> str \<Rightarrow> str list \<Rightarrow> description \<Rightarrow> bool" where
  "split_mid u v ts d \<longleftrightarrow> description_ok d \<and> map_option app_mid (d_application d) = Some (u @ '' '' @ v) \<and>
     d_other_sections d = [] \<and> d_bundle_mids d = ts @ [u @ '' '' @ v] \<and> list_all is_token ts"

lemma split_mid_step:
  assumes "split_mid u v ts d" "is_token u" "is_token v"
  shows "split_mid u v (ts @ [u, v]) (Description_norm d)"
proof -
  let ?m = "u @ '' '' @ v"
  from assms(1) obtain app where d: "description_ok d" "d_application d = Some app" "app_mid app = ?m"
    "d_other_sections d = []" "d_bundle_mids d = ts @ [?m]" "list_all is_token ts"
    by (auto simp: split_mid_def)
  have reread: "reread_mids (d_bundle_mids d) = ts @ [u, v]"
    using d(6) assms(2,3) unfolding d(5) reread_mids_append by (simp only: reread_two reread_mids_tokens)
  have "?m \<notin> set (ts @ [u, v])"
    using d(6) assms(2,3) not_token_space by (metis list_all_append list_all_iff list.pred_inject)
  moreover have "section_mids d = [?m]" unfolding section_mids_def d(2,4) by (simp add: d(3) map_filter_simps)
  ultimately have "d_bundle_mids (Description_norm d) = (ts @ [u, v]) @ [?m]"
    unfolding norm_bundle_mids reread by (simp only: foldl.simps push_new_eq if_False)
  moreover have "map_option app_mid (d_application (Description_norm d)) = Some ?m"
    "d_other_sections (Description_norm d) = []"
    using d by (simp_all add: Description_norm_def Let_def app_norm_def)
  ultimately show ?thesis
    using norm_ok [OF d(1)] d(6) assms(2,3) by (simp only: split_mid_def) simp
qed

text \<open>A mid that contains a space is written into the BUNDLE line as two tokens and pushed
  again when its section ends, so that the bundle list grows by two entries at every pass
  through the serializer and the parser, without bound.\<close>

theorem bundle_grows:
  assumes "is_token u" "is_token v" "split_mid u v ts d"
  shows "\<exists>ds. ds 0 = d \<and> (\<forall>n. Description_parse now (Description_to_sdp (ds n)) = Inr (ds (Suc n)) \<and>
    length (d_bundle_mids (ds n)) = length ts + 1 + 2 * n)"
proof -
  define ds where "ds n = (Description_norm ^^ n) d" for n
  have inv: "\<exists>ts'. split_mid u v ts' (ds n) \<and> length ts' = length ts + 2 * n" for n
  proof (induction n)
    case (Suc n)
    then obtain ts' where "split_mid u v ts' (ds n)" "length ts' = length ts + 2 * n" by auto
    with split_mid_step [OF _ assms(1,2)] show ?case
      by (intro exI [of _ "ts' @ [u, v]"]) (simp add: ds_def)
  qed (use assms(3) in \<open>auto simp: ds_def\<close>)
  have "Description_parse now (Description_to_sdp (ds n)) = Inr (ds (Suc n)) \<and>
      length (d_bundle_mids (ds n)) = length ts + 1 + 2 * n" for n
    using inv [of n] sdp_roundtrip_aux [of "ds n" now] by (auto simp: split_mid_def ds_def)
  then show ?thesis by (intro exI [of _ ds]) (simp add: ds_def)
qed

theorem bundle_grows_witness:
  "\<exists>ds. ds 0 = Description_set_application (Description_new None Type_Offer Role_Active) (Application_new ''a b'') \<and>
    (\<forall>n. Description_parse None (Description_to_sdp (ds n)) = Inr (ds (Suc n)) \<and>
      length (d_bundle_mids (ds n)) = 1 + 2 * n)"
proof -
  let ?d = "Description_set_application (Description_new None Type_Offer Role_Active) (Application_new ''a b'')"
  have "split_mid ''a'' ''b'' [] ?d"
    using description_ok_new [of None Type_Offer Role_Active]
    by (simp add: split_mid_def description_ok_def Description_set_application_def Description_new_def
        Application_new_def application_ok_def line_ok_def Let_def)
  from bundle_grows [OF _ _ this, of None] show ?thesis by (simp add: str_eval)
qed

section \<open>Foreign sections are kept verbatim\<close>

text \<open>From a media line of another type up to the next media line, every line is copied as
  it stands into one foreign section, whatever its key: a candidate or an ICE credential
  inside it is not interpreted, and only the mid of the section is bundled.\<close>

theorem foreign_section_verbatim:
  assumes "media_line l" "list_all copied_line ls"
  shows "\<exists>st'. parse_lines st (l # ls) = Inr st' \<and>
    ps_d (flush_section st') = add_section (render_lines (l # ls)) (ps_d (flush_section st)) \<and>
    d_candidates (ps_d (flush_section st')) = d_candidates (ps_d (flush_section st)) \<and>
    d_ice_ufrag (ps_d (flush_section st')) = d_ice_ufrag (ps_d (flush_section st))"
proof -
  have "list_all line_ok (l # ls)" using assms by (auto simp: media_line_def copied_line_def list_all_iff)
  then have lines: "str_lines (render_lines (l # ls)) = l # ls" by (rule str_lines_render')
  then have "section_ok (render_lines (l # ls))" unfolding section_ok_def lines using assms by simp
  from parse_section [OF this, of st] lines obtain st' where
    "parse_lines st (l # ls) = Inr st'"
    "ps_d (flush_section st') = add_section (render_lines (l # ls)) (ps_d (flush_section st))" by metis
  then show ?thesis
    by (auto simp: add_section_def push_bundle_mid_def Let_def split: option.splits)
qed

theorem foreign_section_verbatim_witness:
  "\<exists>st'. parse_lines (parser_init (Description_new None Type_Unspec Role_ActPass))
      [''m=video 9 x 0'', ''a=candidate:1 1 UDP 5 10.0.0.1 9 typ host''] = Inr st' \<and>
    d_candidates (ps_d (flush_section st')) = []"
proof -
  have "media_line ''m=video 9 x 0''" by (simp add: media_line_def line_ok_def media_type_def str_eval)
  moreover have "list_all copied_line [''a=candidate:1 1 UDP 5 10.0.0.1 9 typ host'']"
    by (simp add: copied_line_def line_ok_def)
  ultimately show ?thesis
    using foreign_section_verbatim [of "''m=video 9 x 0''" _ "parser_init (Description_new None Type_Unspec Role_ActPass)"]
    by (fastforce simp: Description_new_def)
qed

end
