(* ===== verification/Description_Build.thy ===== *)
theory Description_Build
  imports Sdp_Roundtrip
begin

text \<open>
  Descriptions built by the application: every sequence of the mutators of \<open>description.rs\<close>, on the
  description and, through \<open>application_mut\<close>, on its application section.
\<close>

definition Description_application_mut :: "description \<Rightarrow> (application \<Rightarrow> application) \<Rightarrow> description" where
  "Description_application_mut self change = self\<lparr>d_application := map_option change (d_application self)\<rparr>"

datatype description_op =
    Op_hint_type sdp_type
  | Op_set_role role
  | Op_set_ice_ufrag str
  | Op_set_ice_pwd str
  | Op_set_ice_attribute str str
  | Op_add_ice_option str
  | Op_set_fingerprint fingerprint
  | Op_set_extmap_allow_mixed bool
  | Op_set_application application
  | Op_application_or_create str
  | Op_add_candidate candidate
  | Op_end_candidates
  | Op_app_set_mid str
  | Op_app_set_sctp_port u16
  | Op_app_set_max_message_size usize
  | Op_app_set_direction direction

fun run_description :: "description_op \<Rightarrow> description \<Rightarrow> description" where
  "run_description (Op_hint_type typ) d = Description_hint_type d typ"
| "run_description (Op_set_role rl) d = Description_set_role d rl"
| "run_description (Op_set_ice_ufrag u) d = Description_set_ice_ufrag d u"
| "run_description (Op_set_ice_pwd p) d = Description_set_ice_pwd d p"
| "run_description (Op_set_ice_attribute u p) d = Description_set_ice_attribute d u p"
| "run_description (Op_add_ice_option opt) d = Description_add_ice_option d opt"
| "run_description (Op_set_fingerprint fp) d = Description_set_fingerprint d fp"
| "run_description (Op_set_extmap_allow_mixed on) d = Description_set_extmap_allow_mixed d on"
| "run_description (Op_set_application app) d = Description_set_application d app"
| "run_description (Op_application_or_create mid) d = Description_application_or_create d mid"
| "run_description (Op_add_candidate c) d = Description_add_candidate d c"
| "run_description Op_end_candidates d = Description_end_candidates d"
| "run_description (Op_app_set_mid mid) d = Description_application_mut d (\<lambda>app. Application_set_mid app mid)"
| "run_description (Op_app_set_sctp_port port) d = Description_application_mut d (\<lambda>app. Application_set_sctp_port app port)"
| "run_description (Op_app_set_max_message_size sz) d =
     Description_application_mut d (\<lambda>app. Application_set_max_message_size app sz)"
| "run_description (Op_app_set_direction dir) d = Description_application_mut d (\<lambda>app. Application_set_direction app dir)"

text \<open>What the arguments have to satisfy: single lines, tokens, parsed candidates.\<close>

fun description_op_ok :: "description_op \<Rightarrow> bool" where
  "description_op_ok (Op_set_ice_ufrag u) = line_ok u"
| "description_op_ok (Op_set_ice_pwd p) = line_ok p"
| "description_op_ok (Op_set_ice_attribute u p) = (line_ok u \<and> line_ok p)"
| "description_op_ok (Op_add_ice_option opt) = option_ok opt"
| "description_op_ok (Op_set_fingerprint fp) = is_token (to_ascii_uppercase (fp_value fp))"
| "description_op_ok (Op_set_application app) = application_ok app"
| "description_op_ok (Op_application_or_create mid) = line_ok mid"
| "description_op_ok (Op_add_candidate c) = candidate_wf c"
| "description_op_ok (Op_app_set_mid mid) = line_ok mid"
| "description_op_ok op = True"

fun renames_mid :: "description_op \<Rightarrow> bool" where
  "renames_mid (Op_app_set_mid mid) = True"
| "renames_mid op = False"

lemmas description_op_defs = Description_hint_type_def Description_set_role_def Description_set_ice_ufrag_def
  Description_set_ice_pwd_def Description_set_ice_attribute_def Description_add_ice_option_def
  Description_set_fingerprint_def Description_set_extmap_allow_mixed_def Description_set_application_def
  Description_application_or_create_def Description_end_candidates_def Description_application_mut_def
  Application_set_mid_def Application_set_sctp_port_def Application_set_max_message_size_def
  Application_set_direction_def Application_new_def

definition built_ok :: "description \<Rightarrow> bool" where
  "built_ok d \<longleftrightarrow> description_ok d \<and> no_dup candidate_eq (d_candidates d)"

lemma built_ok_new: "built_ok (Description_new now typ rl)"
  by (simp add: built_ok_def description_ok_new) (simp add: Description_new_def)

lemma built_ok_step:
  assumes "built_ok d" "description_op_ok op"
  shows "built_ok (run_description op d)"
proof (cases op)
  case (Op_add_candidate c)
  then show ?thesis
    using assms by (auto simp: built_ok_def description_ok_def Description_add_candidate_def Candidate_hint_mid_def push_new_def Let_def
        no_dup_snoc list_ex_iff list_all_iff)
qed (use assms in \<open>auto simp: built_ok_def description_ok_def description_op_defs Let_def push_new_def application_ok_def
      fingerprint_ok_def list_all_iff option.pred_set split: option.splits\<close>)

lemma bundle_ok_step: "bundle_ok d \<Longrightarrow> \<not> renames_mid op \<Longrightarrow> bundle_ok (run_description op d)"
  by (cases op) (auto simp: bundle_ok_def description_op_defs Description_add_candidate_def Let_def list_ex_iff
      split: option.splits)

lemma built_ok_fold: "built_ok d \<Longrightarrow> list_all description_op_ok ops \<Longrightarrow> built_ok (fold run_description ops d)"
  by (induction ops arbitrary: d) (simp_all add: built_ok_step)

lemma bundle_ok_fold:
  "bundle_ok d \<Longrightarrow> \<not> list_ex renames_mid ops \<Longrightarrow> bundle_ok (fold run_description ops d)"
  by (induction ops arbitrary: d) (simp_all add: bundle_ok_step)

text \<open>C7: a description that the application builds from single lines, tokens and parsed candidates, by any
  sequence of calls, is always well formed, with pairwise different candidates: its text parses,
  to its normal form. Unless a call renames the section in place, the BUNDLE group has no
  mid twice and names the application section.\<close>

theorem built_descriptions_typed:
  assumes "list_all description_op_ok ops" "d = fold run_description ops (Description_new now typ rl)"
  shows "description_ok d \<and> no_dup candidate_eq (d_candidates d) \<and>
    Description_parse now' (Description_to_sdp d) = Inr (Description_norm d) \<and>
    (\<not> list_ex renames_mid ops \<longrightarrow> bundle_ok d)"
  using built_ok_fold [OF built_ok_new assms(1)] bundle_ok_fold [OF bundle_ok_new] sdp_roundtrip_aux
  unfolding assms(2) built_ok_def by blast

definition sample_ops :: "description_op list" where
  "sample_ops = [Op_set_ice_attribute ''ufrag'' ''pwd'', Op_set_role Role_Active,
     Op_set_fingerprint \<lparr>fp_algorithm = FingerprintAlgorithm_Sha256, fp_value = ''ab:cd''\<rparr>,
     Op_application_or_create ''0'', Op_app_set_sctp_port 5000, Op_add_candidate sample_candidate,
     Op_add_candidate sample_candidate, Op_end_candidates]"

theorem built_descriptions_typed_witness:
  "\<exists>d. d = fold run_description sample_ops (Description_new None Type_Offer Role_ActPass) \<and>
     length (d_candidates d) = 1 \<and> d_bundle_mids d = [''0''] \<and> bundle_ok d \<and>
     Description_parse None (Description_to_sdp d) = Inr (Description_norm d)"
proof -
  define d where "d = fold run_description sample_ops (Description_new None Type_Offer Role_ActPass)"
  have "line_ok ''ufrag''" "line_ok ''pwd''" "line_ok ''0''" by (simp_all add: line_ok_def)
  moreover have "is_token (to_ascii_uppercase ''ab:cd'')" by (simp add: str_eval)
  ultimately have "list_all description_op_ok sample_ops"
    using sample_candidate_wf by (simp add: sample_ops_def)
  from built_descriptions_typed [OF this d_def] have
    "bundle_ok d" "Description_parse None (Description_to_sdp d) = Inr (Description_norm d)"
    by (simp_all add: sample_ops_def)
  moreover have "length (d_candidates d) = 1 \<and> d_bundle_mids d = [''0'']"
    by (simp add: d_def sample_ops_def description_op_defs Description_new_def Description_add_candidate_def
        Candidate_hint_mid_def push_new_def Description_bundle_mid_def Let_def candidate_eq_def)
  ultimately show ?thesis using d_def by blast
qed

text \<open>
  Renaming in place, through \<open>application_mut\<close>, leaves the BUNDLE group with the old mid: the text then
  groups a section that it does not have.
\<close>

theorem renamed_mid_stale:
  assumes "d_application d = Some app" "mid \<notin> set (d_bundle_mids d)"
  shows "d_bundle_mids (run_description (Op_app_set_mid mid) d) = d_bundle_mids d \<and>
    map_option app_mid (d_application (run_description (Op_app_set_mid mid) d)) = Some mid \<and>
    \<not> bundle_ok (run_description (Op_app_set_mid mid) d)"
  using assms by (simp add: description_op_defs bundle_ok_def)

theorem renamed_mid_stale_witness:
  "\<not> bundle_ok (run_description (Op_app_set_mid ''1'')
     (Description_application_or_create (Description_new None Type_Offer Role_ActPass) ''0''))"
  using renamed_mid_stale [of "Description_application_or_create (Description_new None Type_Offer Role_ActPass) ''0''"
    "Application_new ''0''" "''1''"]
  by (simp add: description_op_defs Description_new_def Let_def)

end
