(* ===== verification/Certificate.thy ===== *)
theory Certificate
  imports Sdp_Roundtrip Configuration
begin

text \<open>
  \<open>src/certificate.rs\<close> and the peer verification of \<open>src/dtls_transport.rs\<close>: how a digest
  becomes a fingerprint, what \<open>Fingerprint::is_valid\<close> accepts, certificate generation over
  the calls to OpenSSL, and the verify callback that pins the remote fingerprint.
\<close>

section \<open>Digests and their text\<close>

datatype message_digest =
    MessageDigest_sha1 | MessageDigest_sha224 | MessageDigest_sha256 | MessageDigest_sha384 | MessageDigest_sha512

fun message_digest_for :: "fingerprint_algorithm \<Rightarrow> message_digest" where
  "message_digest_for FingerprintAlgorithm_Sha1 = MessageDigest_sha1"
| "message_digest_for FingerprintAlgorithm_Sha224 = MessageDigest_sha224"
| "message_digest_for FingerprintAlgorithm_Sha256 = MessageDigest_sha256"
| "message_digest_for FingerprintAlgorithm_Sha384 = MessageDigest_sha384"
| "message_digest_for FingerprintAlgorithm_Sha512 = MessageDigest_sha512"

text \<open>\<open>None\<close> is the panic of \<open>unreachable!\<close>.\<close>

definition hex_upper :: "u8 \<Rightarrow> char option" where
  "hex_upper nibble =
     (if nibble \<le> 9 then Some (chr (unat (48 + nibble)))
      else if 10 \<le> nibble \<and> nibble \<le> 15 then Some (chr (unat (65 + nibble - 10)))
      else None)"

unbundle bit_operations_syntax

fun format_bytes :: "bool \<Rightarrow> bytes \<Rightarrow> str \<Rightarrow> str option" where
  "format_bytes first [] s = Some s"
| "format_bytes first (b # bs) s =
     (let s = (if first then s else s @ '':'') in
      Option.bind (hex_upper ((drop_bit 4 b) AND 0x0F)) (\<lambda>hi.
      Option.bind (hex_upper (b AND 0x0F)) (\<lambda>lo.
        format_bytes False bs (s @ [hi, lo]))))"

definition format_fingerprint :: "bytes \<Rightarrow> str option" where
  "format_fingerprint bytes = format_bytes True bytes []"

section \<open>The text of a digest\<close>

definition hex_digit :: "nat \<Rightarrow> char" where
  "hex_digit n = (if n < 10 then chr (48 + n) else chr (55 + n))"

definition hex_byte :: "u8 \<Rightarrow> str" where
  "hex_byte b = [hex_digit (unat b div 16), hex_digit (unat b mod 16)]"

definition fingerprint_str :: "bytes \<Rightarrow> str" where
  "fingerprint_str bs = str_join '':'' (map hex_byte bs)"

lemma u8_less: "unat (b :: u8) < 256"
  using unsigned_less [of b] by simp

lemma u8_div: "unat (b :: u8) div 16 < 16"
  using u8_less [of b] by simp

lemma hex_upper_nibble: "unat n < 16 \<Longrightarrow> hex_upper n = Some (hex_digit (unat n))"
proof -
  assume n: "unat n < 16"
  have le9: "n \<le> 9 \<longleftrightarrow> unat n < 10" by (auto simp: word_le_nat_alt)
  have le15: "n \<le> 15" using n by (simp add: word_le_nat_alt)
  have ge10: "10 \<le> n \<longleftrightarrow> 10 \<le> unat n" by (simp add: word_le_nat_alt)
  have "unat (48 + n) = 48 + unat n" using n by (simp add: unat_word_ariths)
  moreover have "65 + n - 10 = 55 + n" by simp
  moreover have "unat (55 + n) = 55 + unat n" using n by (simp add: unat_word_ariths)
  ultimately show ?thesis
    using n by (auto simp: hex_upper_def hex_digit_def le9 le15 ge10)
qed

lemma byte_nibbles:
  "unat (drop_bit 4 b AND 0x0F) = unat b div 16" "unat (b AND 0x0F) = unat b mod 16" for b :: u8
proof -
  have mask: "(0x0F :: u8) = mask 4" by (simp add: mask_eq_exp_minus_1)
  show "unat (b AND 0x0F) = unat b mod 16"
    unfolding mask take_bit_eq_mask [symmetric] by (simp only: unsigned_take_bit_eq) (simp add: take_bit_eq_mod)
  show "unat (drop_bit 4 b AND 0x0F) = unat b div 16"
    unfolding mask take_bit_eq_mask [symmetric]
    using u8_less [of b] u8_div [of b]
    by (simp only: unsigned_take_bit_eq unsigned_drop_bit_eq) (simp add: take_bit_eq_mod drop_bit_eq_div)
qed


lemma hex_nibbles:
  "hex_upper (drop_bit 4 b AND 0x0F) = Some (hex_digit (unat b div 16))"
  "hex_upper (b AND 0x0F) = Some (hex_digit (unat b mod 16))"
  unfolding byte_nibbles [symmetric]
  by (rule hex_upper_nibble, simp only: byte_nibbles u8_div, rule hex_upper_nibble, simp only: byte_nibbles)

lemma format_bytes_Cons:
  "format_bytes first (b # bs) s = format_bytes False bs ((if first then s else s @ '':'') @ hex_byte b)"
  unfolding format_bytes.simps hex_nibbles(1) unfolding hex_nibbles(2) Let_def Option.bind.bind_lunit hex_byte_def ..

declare format_bytes.simps(2) [simp del]

lemma format_bytes_str:
  "format_bytes first bs s = Some (s @ (if first \<or> bs = [] then [] else '':'') @ fingerprint_str bs)"
proof (induction bs arbitrary: first s)
  case (Cons b bs)
  then show ?case
    unfolding format_bytes_Cons by (cases bs) (simp_all add: fingerprint_str_def)
qed (simp add: fingerprint_str_def)

lemma format_fingerprint_total: "format_fingerprint bs = Some (fingerprint_str bs)"
  by (simp add: format_fingerprint_def format_bytes_str)

text \<open>The shape that \<open>is_valid\<close> checks, as a recursion over the text.\<close>

fun fingerprint_shape :: "str \<Rightarrow> bool" where
  "fingerprint_shape [a, b] = (is_ascii_hexdigit a \<and> is_ascii_hexdigit b)"
| "fingerprint_shape (a # b # c # s) =
     (is_ascii_hexdigit a \<and> is_ascii_hexdigit b \<and> c = CHR '':'' \<and> fingerprint_shape s)"
| "fingerprint_shape _ = False"

definition shape_at :: "nat \<times> char \<Rightarrow> bool" where
  "shape_at = (\<lambda>(i, ch). if i mod 3 = 2 then ch = CHR '':'' else is_ascii_hexdigit ch)"

lemma shape_enumerate:
  "length s = 3 * n + 2 \<Longrightarrow> k mod 3 = 0 \<Longrightarrow> list_all shape_at (enumerate k s) \<longleftrightarrow> fingerprint_shape s"
proof (induction n arbitrary: s k)
  case 0
  then obtain a b where "s = [a, b]" by (auto simp: length_Suc_conv numeral_2_eq_2)
  moreover have "Suc k mod 3 = 1" using 0 by (simp add: mod_Suc)
  ultimately show ?case using 0 by (simp add: shape_at_def)
next
  case (Suc n)
  then have "length s = Suc (Suc (Suc (3 * n + 2)))" by simp
  then obtain a b c t where s: "s = a # b # c # t" "length t = 3 * n + 2"
    by (fastforce simp: length_Suc_conv)
  have m: "Suc k mod 3 = 1" "Suc (Suc k) mod 3 = 2" "Suc (Suc (Suc k)) mod 3 = 0"
    using Suc.prems(2) by (simp_all add: mod_Suc)
  obtain x y t' where t: "t = x # y # t'" using s(2) by (auto simp: length_Suc_conv numeral_2_eq_2)
  show ?case using Suc.IH [OF s(2) m(3)] Suc.prems(2) m unfolding s(1) t by (simp add: shape_at_def)
qed

lemma is_valid_shape:
  "Fingerprint_is_valid fp \<longleftrightarrow>
     length (fp_value fp) = 3 * FingerprintAlgorithm_size (fp_algorithm fp) - 1 \<and> fingerprint_shape (fp_value fp)"
proof -
  let ?n = "FingerprintAlgorithm_size (fp_algorithm fp)"
  have pos: "0 < ?n" by (cases "fp_algorithm fp") simp_all
  show ?thesis
  proof (cases "length (fp_value fp) = 3 * ?n - 1")
    case True
    then have "length (fp_value fp) = 3 * (?n - 1) + 2" using pos by simp
    from shape_enumerate [OF this, of 0] True pos show ?thesis
      by (simp add: Fingerprint_is_valid_def Let_def shape_at_def mult.commute)
  next
    case False
    then show ?thesis by (simp add: Fingerprint_is_valid_def Let_def mult.commute)
  qed
qed

text \<open>Upper-case hex digits and their values.\<close>

lemma hex_digit_facts:
  "n < 16 \<Longrightarrow> is_ascii_hexdigit (hex_digit n) \<and> ascii_upper (hex_digit n) = hex_digit n \<and>
     \<not> is_ascii_whitespace (hex_digit n)"
  by (auto simp: hex_digit_def is_ascii_hexdigit_def ascii_upper_def is_ascii_whitespace_def)

lemma hex_digit_inj: "m < 16 \<Longrightarrow> n < 16 \<Longrightarrow> hex_digit m = hex_digit n \<longleftrightarrow> m = n"
  unfolding code_eq_iff [symmetric] by (auto simp: hex_digit_def)

lemma hexdigit_value: "is_ascii_hexdigit c \<Longrightarrow> \<exists>n < 16. ascii_upper c = hex_digit n"
proof -
  assume c: "is_ascii_hexdigit c"
  let ?k = "code (ascii_upper c)"
  have up: "?k = (if 97 \<le> code c \<and> code c \<le> 122 then code c - 32 else code c)"
    using code_lt [of c] by (auto simp: ascii_upper_def intro!: code_chr less_imp_diff_less)
  have range: "48 \<le> ?k \<and> ?k \<le> 57 \<or> 65 \<le> ?k \<and> ?k \<le> 70"
    using c unfolding up is_ascii_hexdigit_def by auto
  then have "(if ?k < 58 then ?k - 48 else ?k - 55) < 16" by auto
  moreover have "hex_digit (if ?k < 58 then ?k - 48 else ?k - 55) = ascii_upper c"
    unfolding code_eq_iff [symmetric] using range by (auto simp: hex_digit_def)
  ultimately show ?thesis by metis
qed

lemma hex_byte_of_digits:
  assumes "m < 16" "n < 16"
  shows "hex_byte (of_nat (16 * m + n)) = [hex_digit m, hex_digit n]"
proof -
  have "16 * m + n < 256" using assms by simp
  moreover have "unat (of_nat k :: u8) = k" if "k < 256" for k
    using that by (simp add: unsigned_of_nat take_bit_nat_eq_self)
  ultimately have "unat (of_nat (16 * m + n) :: u8) = 16 * m + n" by (simp only:)
  with assms show ?thesis by (simp add: hex_byte_def)
qed

lemma hex_byte_inj: "hex_byte a = hex_byte b \<longleftrightarrow> a = b"
proof -
  have "hex_byte a = hex_byte b \<longleftrightarrow> unat a div 16 = unat b div 16 \<and> unat a mod 16 = unat b mod 16"
    by (simp add: u8_div hex_byte_def hex_digit_inj)
  also have "\<dots> \<longleftrightarrow> unat a = unat b" by (metis div_mult_mod_eq)
  finally show ?thesis by (simp add: word_unat_eq_iff)
qed

lemma fingerprint_str_simps:
  "fingerprint_str [] = []" "fingerprint_str [b] = hex_byte b"
  "fingerprint_str (b # c # bs) = hex_byte b @ '':'' @ fingerprint_str (c # bs)"
  by (simp_all add: fingerprint_str_def)

lemma fingerprint_str_length: "bs \<noteq> [] \<Longrightarrow> length (fingerprint_str bs) = 3 * length bs - 1"
  by (induction bs rule: induct_list012) (simp_all add: fingerprint_str_simps hex_byte_def)

lemma hex_byte_not_Nil [simp]: "hex_byte b \<noteq> []"
  by (simp add: hex_byte_def)

lemma fingerprint_str_Nil_iff: "fingerprint_str bs = [] \<longleftrightarrow> bs = []"
  by (cases bs; cases "tl bs") (auto simp: fingerprint_str_def)

lemma hex_digit_not_colon: "n < 16 \<Longrightarrow> hex_digit n \<noteq> CHR '':''"
  unfolding code_eq_iff [symmetric] by (auto simp: hex_digit_def code_def [of "CHR '':''"])

lemma fingerprint_str_inj: "fingerprint_str as = fingerprint_str bs \<longleftrightarrow> as = bs"
proof
  assume eq: "fingerprint_str as = fingerprint_str bs"
  have colon: "CHR '':'' \<notin> set (hex_byte b)" for b
    using hex_digit_not_colon [OF u8_div, of b] hex_digit_not_colon [of "unat b mod 16"]
    by (simp add: hex_byte_def)
  have split: "split_on (\<lambda>c. c = CHR '':'') (fingerprint_str cs) = map hex_byte cs" if "cs \<noteq> []" for cs
    unfolding fingerprint_str_def using that
    using colon by (intro split_on_join) auto
  show "as = bs"
  proof (cases "as = []")
    case True
    with eq fingerprint_str_Nil_iff [of bs] show ?thesis by (simp add: fingerprint_str_def)
  next
    case False
    with eq have "bs \<noteq> []" by (metis fingerprint_str_Nil_iff)
    with False eq have "map hex_byte as = map hex_byte bs" using split by metis
    moreover have "inj hex_byte" by (simp add: inj_def hex_byte_inj)
    ultimately show ?thesis by (simp add: inj_map_eq_map)
  qed
qed simp

lemma shape_upper: "fingerprint_shape (to_ascii_uppercase s) = fingerprint_shape s"
proof -
  have hex: "is_ascii_hexdigit (ascii_upper c) = is_ascii_hexdigit c" for c
    using code_lt [of c] by (auto simp: is_ascii_hexdigit_def ascii_upper_def code_chr less_imp_diff_less)
  have colon: "ascii_upper c = CHR '':'' \<longleftrightarrow> c = CHR '':''" for c
    using code_lt [of c] unfolding code_eq_iff [symmetric]
    by (auto simp: ascii_upper_def code_def [of "CHR '':''"] less_imp_diff_less)
  show ?thesis
    by (induction s rule: fingerprint_shape.induct) (simp_all add: to_ascii_uppercase_def hex colon)
qed

lemma shape_fingerprint_str: "bs \<noteq> [] \<Longrightarrow> fingerprint_shape (fingerprint_str bs)"
proof (induction bs rule: induct_list012)
  case (3 a b bs)
  obtain x y t where "fingerprint_str (b # bs) = x # y # t"
    by (cases bs) (auto simp: fingerprint_str_simps hex_byte_def)
  with 3 show ?case
    by (simp add: fingerprint_str_simps hex_byte_def hex_digit_facts u8_div)
qed (simp_all add: fingerprint_str_simps hex_byte_def hex_digit_facts u8_div)

lemma shape_bytes:
  "fingerprint_shape s \<Longrightarrow> \<exists>bs. bs \<noteq> [] \<and> to_ascii_uppercase s = fingerprint_str bs"
proof (induction s rule: fingerprint_shape.induct)
  case (1 a b)
  then obtain m n where "m < 16" "ascii_upper a = hex_digit m" "n < 16" "ascii_upper b = hex_digit n"
    using hexdigit_value [of a] hexdigit_value [of b] by auto
  then have "to_ascii_uppercase [a, b] = fingerprint_str [of_nat (16 * m + n)]"
    by (simp only: to_ascii_uppercase_def list.map fingerprint_str_simps hex_byte_of_digits)
  then show ?case by blast
next
  case (2 a b c s)
  then obtain m n where "m < 16" "ascii_upper a = hex_digit m" "n < 16" "ascii_upper b = hex_digit n"
    using hexdigit_value [of a] hexdigit_value [of b] by auto
  then have head: "[ascii_upper a, ascii_upper b] = hex_byte (of_nat (16 * m + n))"
    by (simp only: hex_byte_of_digits)
  from 2 obtain b' bs where bs: "to_ascii_uppercase s = fingerprint_str (b' # bs)"
    by (auto simp: neq_Nil_conv)
  have "to_ascii_uppercase (a # b # CHR '':'' # s) = fingerprint_str (of_nat (16 * m + n) # b' # bs)"
    unfolding fingerprint_str_simps head [symmetric] bs [symmetric]
    by (simp add: to_ascii_uppercase_def ascii_case_other code_def)
  moreover have "c = CHR '':''" using "2.prems" by simp
  ultimately show ?case by blast
qed simp_all


text \<open>What \<open>is_valid\<close> accepts are the spellings of a digest of the right length.\<close>

lemma is_valid_bytes:
  "Fingerprint_is_valid fp \<longleftrightarrow>
     (\<exists>bs. length bs = FingerprintAlgorithm_size (fp_algorithm fp) \<and>
        to_ascii_uppercase (fp_value fp) = fingerprint_str bs)"
proof
  let ?n = "FingerprintAlgorithm_size (fp_algorithm fp)"
  have pos: "0 < ?n" by (cases "fp_algorithm fp") simp_all
  assume "Fingerprint_is_valid fp"
  then obtain bs where bs: "bs \<noteq> []" "to_ascii_uppercase (fp_value fp) = fingerprint_str bs"
    "length (fp_value fp) = 3 * ?n - 1"
    using shape_bytes by (auto simp: is_valid_shape)
  have "3 * length bs - 1 = 3 * ?n - 1"
    using bs fingerprint_str_length [OF bs(1)] by (metis length_map to_ascii_uppercase_def)
  moreover have "0 < length bs" using bs(1) by simp
  ultimately have "length bs = ?n" using pos by linarith
  with bs show "\<exists>bs. length bs = ?n \<and> to_ascii_uppercase (fp_value fp) = fingerprint_str bs" by blast
next
  let ?n = "FingerprintAlgorithm_size (fp_algorithm fp)"
  assume "\<exists>bs. length bs = ?n \<and> to_ascii_uppercase (fp_value fp) = fingerprint_str bs"
  then obtain bs where bs: "length bs = ?n" "to_ascii_uppercase (fp_value fp) = fingerprint_str bs" by blast
  moreover have "bs \<noteq> []" using bs(1) by (cases "fp_algorithm fp") auto
  ultimately have "length (fp_value fp) = 3 * ?n - 1" "fingerprint_shape (fp_value fp)"
    using fingerprint_str_length [of bs] shape_fingerprint_str [of bs] shape_upper [of "fp_value fp"]
    by (metis length_map to_ascii_uppercase_def, metis)
  then show "Fingerprint_is_valid fp" by (simp add: is_valid_shape)
qed

lemma fingerprint_str_upper: "to_ascii_uppercase (fingerprint_str bs) = fingerprint_str bs"
proof (induction bs rule: induct_list012)
  case (3 a b bs)
  then show ?case
    by (simp add: fingerprint_str_simps to_ascii_uppercase_def hex_byte_def hex_digit_facts u8_div
        ascii_case_other code_def)
qed (simp_all add: fingerprint_str_simps to_ascii_uppercase_def hex_byte_def hex_digit_facts u8_div)

lemma lower_upper: "to_ascii_lowercase (to_ascii_uppercase s) = to_ascii_lowercase s"
proof -
  have "ascii_lower (ascii_upper c) = ascii_lower c" for c
    using code_lt [of c] unfolding code_eq_iff [symmetric]
    by (auto simp: ascii_lower_def ascii_upper_def less_imp_diff_less)
  then show ?thesis by (simp add: to_ascii_lowercase_def to_ascii_uppercase_def)
qed

lemma upper_lower: "to_ascii_uppercase (to_ascii_lowercase s) = to_ascii_uppercase s"
proof -
  have "ascii_upper (ascii_lower c) = ascii_upper c" for c
    using code_lt [of c] unfolding code_eq_iff [symmetric]
    by (auto simp: ascii_lower_def ascii_upper_def less_imp_diff_less)
  then show ?thesis by (simp add: to_ascii_lowercase_def to_ascii_uppercase_def)
qed

lemma eq_ignore_upper: "eq_ignore_ascii_case s t \<longleftrightarrow> to_ascii_uppercase s = to_ascii_uppercase t"
  unfolding eq_ignore_ascii_case_def by (metis lower_upper upper_lower)

section \<open>Certificates\<close>

text \<open>
  OpenSSL is a parameter: \<open>'h\<close> are its object handles, \<open>'w\<close> its state (random generator,
  clock, heap), an \<open>'e\<close> its error stack. Each field is one call of the \<open>openssl\<close> crate that
  \<open>certificate.rs\<close> makes.
\<close>

type_synonym ('w, 'e, 'a) ossl_call = "'w \<Rightarrow> ('e + 'a) \<times> 'w"

definition ossl_bind :: "('w, 'e, 'a) ossl_call \<Rightarrow> ('a \<Rightarrow> ('w, 'e, 'b) ossl_call) \<Rightarrow> ('w, 'e, 'b) ossl_call" where
  "ossl_bind m f w = (case m w of (Inl e, w) \<Rightarrow> (Inl e, w) | (Inr x, w) \<Rightarrow> f x w)"

definition ossl_return :: "'a \<Rightarrow> ('w, 'e, 'a) ossl_call" where
  "ossl_return x w = (Inr x, w)"

datatype nid = Nid_X9_62_PRIME256V1

record ('w, 'e, 'h) openssl =
  EcGroup_from_curve_name :: "nid \<Rightarrow> ('w, 'e, 'h) ossl_call"
  EcKey_generate :: "'h \<Rightarrow> ('w, 'e, 'h) ossl_call"
  PKey_from_ec_key :: "'h \<Rightarrow> ('w, 'e, 'h) ossl_call"
  Rsa_generate :: "u32 \<Rightarrow> ('w, 'e, 'h) ossl_call"
  PKey_from_rsa :: "'h \<Rightarrow> ('w, 'e, 'h) ossl_call"
  X509NameBuilder_new :: "('w, 'e, 'h) ossl_call"
  append_entry_by_text :: "'h \<Rightarrow> str \<Rightarrow> str \<Rightarrow> ('w, 'e, unit) ossl_call"
  X509NameBuilder_build :: "'h \<Rightarrow> 'h"
  X509Builder_new :: "('w, 'e, 'h) ossl_call"
  set_version :: "'h \<Rightarrow> u32 \<Rightarrow> ('w, 'e, unit) ossl_call"
  BigNum_new :: "('w, 'e, 'h) ossl_call"
  BigNum_rand :: "'h \<Rightarrow> u32 \<Rightarrow> ('w, 'e, unit) ossl_call"
  to_asn1_integer :: "'h \<Rightarrow> ('w, 'e, 'h) ossl_call"
  set_serial_number :: "'h \<Rightarrow> 'h \<Rightarrow> ('w, 'e, unit) ossl_call"
  set_issuer_name :: "'h \<Rightarrow> 'h \<Rightarrow> ('w, 'e, unit) ossl_call"
  set_subject_name :: "'h \<Rightarrow> 'h \<Rightarrow> ('w, 'e, unit) ossl_call"
  set_pubkey :: "'h \<Rightarrow> 'h \<Rightarrow> ('w, 'e, unit) ossl_call"
  Asn1Time_days_from_now :: "u32 \<Rightarrow> ('w, 'e, 'h) ossl_call"
  set_not_before :: "'h \<Rightarrow> 'h \<Rightarrow> ('w, 'e, unit) ossl_call"
  set_not_after :: "'h \<Rightarrow> 'h \<Rightarrow> ('w, 'e, unit) ossl_call"
  X509Builder_sign :: "'h \<Rightarrow> 'h \<Rightarrow> message_digest \<Rightarrow> ('w, 'e, unit) ossl_call"
  X509Builder_build :: "'h \<Rightarrow> 'w \<Rightarrow> 'h"
  X509_digest :: "'h \<Rightarrow> message_digest \<Rightarrow> 'e + bytes"

record 'h certificate =
  cert_x509 :: 'h
  cert_pkey :: 'h

definition build_self_signed :: "('w, 'e, 'h) openssl \<Rightarrow> 'h \<Rightarrow> str \<Rightarrow> ('w, 'e, 'h) ossl_call" where
  "build_self_signed os pkey cn =
     ossl_bind (X509NameBuilder_new os) (\<lambda>name.
     ossl_bind (append_entry_by_text os name ''CN'' cn) (\<lambda>_.
     let name = X509NameBuilder_build os name in
     ossl_bind (X509Builder_new os) (\<lambda>builder.
     ossl_bind (set_version os builder 2) (\<lambda>_.
     ossl_bind (BigNum_new os) (\<lambda>serial.
     ossl_bind (BigNum_rand os serial 64) (\<lambda>_.
     ossl_bind (to_asn1_integer os serial) (\<lambda>serial.
     ossl_bind (set_serial_number os builder serial) (\<lambda>_.
     ossl_bind (set_issuer_name os builder name) (\<lambda>_.
     ossl_bind (set_subject_name os builder name) (\<lambda>_.
     ossl_bind (set_pubkey os builder pkey) (\<lambda>_.
     ossl_bind (Asn1Time_days_from_now os 0) (\<lambda>not_before.
     ossl_bind (Asn1Time_days_from_now os 30) (\<lambda>not_after.
     ossl_bind (set_not_before os builder not_before) (\<lambda>_.
     ossl_bind (set_not_after os builder not_after) (\<lambda>_.
     ossl_bind (X509Builder_sign os builder pkey MessageDigest_sha256) (\<lambda>_ w.
       (Inr (X509Builder_build os builder w), w)))))))))))))))))"

definition Certificate_generate_ecdsa :: "('w, 'e, 'h) openssl \<Rightarrow> str \<Rightarrow> ('w, 'e, 'h certificate) ossl_call" where
  "Certificate_generate_ecdsa os cn =
     ossl_bind (EcGroup_from_curve_name os Nid_X9_62_PRIME256V1) (\<lambda>group.
     ossl_bind (EcKey_generate os group) (\<lambda>ec_key.
     ossl_bind (PKey_from_ec_key os ec_key) (\<lambda>pkey.
     ossl_bind (build_self_signed os pkey cn) (\<lambda>x509.
       ossl_return \<lparr>cert_x509 = x509, cert_pkey = pkey\<rparr>))))"

definition Certificate_generate_rsa :: "('w, 'e, 'h) openssl \<Rightarrow> str \<Rightarrow> ('w, 'e, 'h certificate) ossl_call" where
  "Certificate_generate_rsa os cn =
     ossl_bind (Rsa_generate os 2048) (\<lambda>rsa.
     ossl_bind (PKey_from_rsa os rsa) (\<lambda>pkey.
     ossl_bind (build_self_signed os pkey cn) (\<lambda>x509.
       ossl_return \<lparr>cert_x509 = x509, cert_pkey = pkey\<rparr>)))"

definition Certificate_generate ::
    "('w, 'e, 'h) openssl \<Rightarrow> certificate_type \<Rightarrow> str \<Rightarrow> ('w, 'e, 'h certificate) ossl_call" where
  "Certificate_generate os typ cn =
     (case typ of
        CertificateType_Default \<Rightarrow> Certificate_generate_ecdsa os cn
      | CertificateType_EcDsa \<Rightarrow> Certificate_generate_ecdsa os cn
      | CertificateType_Rsa \<Rightarrow> Certificate_generate_rsa os cn)"

definition Certificate_generate_default :: "('w, 'e, 'h) openssl \<Rightarrow> ('w, 'e, 'h certificate) ossl_call" where
  "Certificate_generate_default os = Certificate_generate os CertificateType_Default ''rtc''"

text \<open>\<open>None\<close> is a panic, in \<open>unreachable!\<close> or in \<open>expect\<close>.\<close>

definition Certificate_fingerprint ::
    "('w, 'e, 'h) openssl \<Rightarrow> 'h certificate \<Rightarrow> fingerprint_algorithm \<Rightarrow> ('e + fingerprint) option" where
  "Certificate_fingerprint os self algorithm =
     (case X509_digest os (cert_x509 self) (message_digest_for algorithm) of
        Inl e \<Rightarrow> Some (Inl e)
      | Inr bytes \<Rightarrow>
          map_option (\<lambda>v. Inr \<lparr>fp_algorithm = algorithm, fp_value = v\<rparr>) (format_fingerprint bytes))"

definition Certificate_default :: "('w, 'e, 'h) openssl \<Rightarrow> 'w \<Rightarrow> ('h certificate \<times> 'w) option" where
  "Certificate_default os w =
     (case Certificate_generate_default os w of (Inl e, w) \<Rightarrow> None | (Inr c, w) \<Rightarrow> Some (c, w))"


text \<open>The accessors.\<close>

definition Certificate_x509 :: "'h certificate \<Rightarrow> 'h" where
  "Certificate_x509 self = cert_x509 self"

definition Certificate_pkey :: "'h certificate \<Rightarrow> 'h" where
  "Certificate_pkey self = cert_pkey self"

section \<open>Verifying the peer\<close>

text \<open>
  The verify callback of the TLS context: the certificate under inspection, if OpenSSL has
  one, against the pinned fingerprint, if the application has set one. Whatever the chain
  verification of OpenSSL itself says (\<open>preverify_ok\<close>) is ignored.
\<close>

definition verify_callback ::
    "('w, 'e, 'h) openssl \<Rightarrow> fingerprint option \<Rightarrow> bool \<Rightarrow> 'h option \<Rightarrow> bool option" where
  "verify_callback os expected_remote_fingerprint preverify_ok current_cert =
     (case current_cert of
        None \<Rightarrow> Some False
      | Some cert \<Rightarrow>
     (case expected_remote_fingerprint of
        None \<Rightarrow> Some False
      | Some expected \<Rightarrow>
     (case X509_digest os cert (message_digest_for (fp_algorithm expected)) of
        Inl e \<Rightarrow> Some False
      | Inr d \<Rightarrow>
          map_option (\<lambda>actual. eq_ignore_ascii_case actual (fp_value expected)) (format_fingerprint d))))"

lemma verify_callback_eq:
  "verify_callback os expected ok cert =
     Some (\<exists>c fp d. cert = Some c \<and> expected = Some fp \<and>
       X509_digest os c (message_digest_for (fp_algorithm fp)) = Inr d \<and>
       to_ascii_uppercase (fp_value fp) = fingerprint_str d)"
  by (auto simp: verify_callback_def format_fingerprint_total eq_ignore_upper fingerprint_str_upper
      split: option.splits sum.splits)

lemma Certificate_fingerprint_eq:
  "Certificate_fingerprint os c alg = Some (Inr fp) \<longleftrightarrow>
     (\<exists>d. X509_digest os (cert_x509 c) (message_digest_for alg) = Inr d \<and>
        fp = \<lparr>fp_algorithm = alg, fp_value = fingerprint_str d\<rparr>)"
  by (auto simp: Certificate_fingerprint_def format_fingerprint_total split: sum.splits)

lemma fingerprint_str_token: "bs \<noteq> [] \<Longrightarrow> is_token (fingerprint_str bs)"
proof (induction bs rule: induct_list012)
  case (3 a b bs)
  then show ?case
    by (simp add: fingerprint_str_simps is_token_def hex_byte_def hex_digit_facts u8_div)
qed (simp_all add: fingerprint_str_simps is_token_def hex_byte_def hex_digit_facts u8_div)

text \<open>What OpenSSL documents of \<open>X509_digest\<close>: a digest has the size of its algorithm.\<close>

definition digest_length :: "('w, 'e, 'h) openssl \<Rightarrow> bool" where
  "digest_length os \<longleftrightarrow> (\<forall>c alg d. X509_digest os c (message_digest_for alg) = Inr d \<longrightarrow>
     length d = FingerprintAlgorithm_size alg)"

text \<open>An OpenSSL for the witnesses: handles are numbers, the digest repeats the number.\<close>

definition sample_openssl :: "(unit, unit, nat) openssl" where
  "sample_openssl =
     (let ok = (\<lambda>w. (Inr (), w)); h = (\<lambda>n w. (Inr n, w)) in
      \<lparr>EcGroup_from_curve_name = (\<lambda>_. h 1), EcKey_generate = (\<lambda>_. h 2), PKey_from_ec_key = (\<lambda>_. h 3),
       Rsa_generate = (\<lambda>_. h 4), PKey_from_rsa = (\<lambda>_. h 5), X509NameBuilder_new = h 6,
       append_entry_by_text = (\<lambda>_ _ _. ok), X509NameBuilder_build = (\<lambda>n. n), X509Builder_new = h 7,
       set_version = (\<lambda>_ _. ok), BigNum_new = h 8, BigNum_rand = (\<lambda>_ _. ok), to_asn1_integer = h,
       set_serial_number = (\<lambda>_ _. ok), set_issuer_name = (\<lambda>_ _. ok), set_subject_name = (\<lambda>_ _. ok),
       set_pubkey = (\<lambda>_ _. ok), Asn1Time_days_from_now = (\<lambda>_. h 9), set_not_before = (\<lambda>_ _. ok),
       set_not_after = (\<lambda>_ _. ok), X509Builder_sign = (\<lambda>_ _ _. ok), X509Builder_build = (\<lambda>b _. b),
       X509_digest = (\<lambda>n md. Inr (replicate
         (case md of MessageDigest_sha1 \<Rightarrow> 20 | MessageDigest_sha224 \<Rightarrow> 28 | MessageDigest_sha256 \<Rightarrow> 32
          | MessageDigest_sha384 \<Rightarrow> 48 | MessageDigest_sha512 \<Rightarrow> 64) (of_nat n)))\<rparr>)"

lemma sample_digest:
  "X509_digest sample_openssl n (message_digest_for alg) =
     Inr (replicate (FingerprintAlgorithm_size alg) (of_nat n))"
  by (cases alg) (simp_all add: sample_openssl_def Let_def)

lemma sample_digest_length: "digest_length sample_openssl"
  by (simp add: digest_length_def sample_digest)

section \<open>Properties\<close>

text \<open>C30: a fingerprint is valid exactly when its text is the colon-separated hexadecimal
  rendering, in any case, of a digest of the algorithm's size.\<close>

theorem fingerprint_valid_iff:
  "Fingerprint_is_valid fp \<longleftrightarrow>
     (\<exists>bs. length bs = FingerprintAlgorithm_size (fp_algorithm fp) \<and>
        format_fingerprint bs = Some (to_ascii_uppercase (fp_value fp)))"
  by (auto simp: is_valid_bytes format_fingerprint_total)

text \<open>The formatter never reaches its unreachable arm, and no two digests have the same
  rendering.\<close>

theorem format_fingerprint_injective:
  "format_fingerprint as \<noteq> None \<and> (format_fingerprint as = format_fingerprint bs \<longleftrightarrow> as = bs)"
  by (simp add: format_fingerprint_total fingerprint_str_inj)

text \<open>C10: the verify callback fails closed: without a certificate, without a pinned fingerprint
  or when the digest cannot be computed it rejects; with all three it accepts exactly a
  certificate whose digest is the one the pinned text spells.\<close>

theorem verify_fails_closed:
  "verify_callback os expected ok cert =
     Some (\<exists>c fp d. cert = Some c \<and> expected = Some fp \<and>
        X509_digest os c (message_digest_for (fp_algorithm fp)) = Inr d \<and>
        format_fingerprint d = Some (to_ascii_uppercase (fp_value fp)))"
  by (auto simp: verify_callback_eq format_fingerprint_total)

text \<open>The fingerprint of a certificate survives the text of any offer it is set on.\<close>

lemma offer_pins:
  assumes "digest_length os" "description_ok d" "Certificate_fingerprint os peer alg = Some (Inr fp)"
  shows "\<exists>d' bs. Description_parse now (Description_to_sdp (Description_set_fingerprint d fp)) = Inr d' \<and>
    d_fingerprint d' = Some fp \<and> X509_digest os (cert_x509 peer) (message_digest_for alg) = Inr bs \<and>
    fp = \<lparr>fp_algorithm = alg, fp_value = fingerprint_str bs\<rparr>"
proof -
  from assms(3) obtain bs where bs: "X509_digest os (cert_x509 peer) (message_digest_for alg) = Inr bs"
    "fp = \<lparr>fp_algorithm = alg, fp_value = fingerprint_str bs\<rparr>"
    by (auto simp: Certificate_fingerprint_eq)
  with assms(1) have "length bs = FingerprintAlgorithm_size alg" by (simp add: digest_length_def)
  then have "bs \<noteq> []" by (cases alg) auto
  then have "fingerprint_ok fp"
    using bs(2) by (simp add: fingerprint_ok_def fingerprint_str_token fingerprint_str_upper)
  moreover have set: "Description_set_fingerprint d fp = d\<lparr>d_fingerprint := Some fp\<rparr>"
    using bs(2) by (simp add: Description_set_fingerprint_def fingerprint_str_upper)
  ultimately have "description_ok (Description_set_fingerprint d fp)" using assms(2) by simp
  then have "Description_parse now (Description_to_sdp (Description_set_fingerprint d fp)) =
      Inr (Description_norm (Description_set_fingerprint d fp))"
    by (rule sdp_roundtrip_aux)
  moreover have "d_fingerprint (Description_norm (Description_set_fingerprint d fp)) = Some fp"
    by (simp add: set Description_norm_def Let_def split: option.splits)
  ultimately show ?thesis using bs by blast
qed

text \<open>C4: pinning end to end. When an offer carries the fingerprint of the peer's certificate,
  then after its text has travelled, the receiver's verify callback, pinned with what it
  parsed, accepts a certificate exactly when it has the peer's digest.\<close>

theorem pin_through_sdp:
  assumes "digest_length os" "description_ok d"
    and "Certificate_fingerprint os peer alg = Some (Inr fp)"
  shows "\<exists>d'. Description_parse now (Description_to_sdp (Description_set_fingerprint d fp)) = Inr d' \<and>
    (\<forall>ok c. verify_callback os (d_fingerprint d') ok (Some c) = Some True \<longleftrightarrow>
       X509_digest os c (message_digest_for alg) = X509_digest os (cert_x509 peer) (message_digest_for alg))"
  using offer_pins [OF assms, of now] by (auto simp: verify_callback_eq fingerprint_str_upper fingerprint_str_inj)

theorem pin_through_sdp_witness:
  "\<exists>d' fp. Certificate_fingerprint sample_openssl \<lparr>cert_x509 = 7, cert_pkey = 3\<rparr> FingerprintAlgorithm_Sha256 = Some (Inr fp) \<and>
    Description_parse None (Description_to_sdp (Description_set_fingerprint sample_description fp)) = Inr d' \<and>
    verify_callback sample_openssl (d_fingerprint d') False (Some 7) = Some True \<and>
    verify_callback sample_openssl (d_fingerprint d') False (Some 8) \<noteq> Some True"
proof -
  obtain fp where fp: "Certificate_fingerprint sample_openssl \<lparr>cert_x509 = 7, cert_pkey = 3\<rparr> FingerprintAlgorithm_Sha256 = Some (Inr fp)"
    using sample_digest [of 7 FingerprintAlgorithm_Sha256] by (auto simp: Certificate_fingerprint_eq)
  from pin_through_sdp [OF sample_digest_length sample_ok fp, of None] obtain d' where
    "Description_parse None (Description_to_sdp (Description_set_fingerprint sample_description fp)) = Inr d'"
    "\<forall>ok c. verify_callback sample_openssl (d_fingerprint d') ok (Some c) = Some True \<longleftrightarrow>
       X509_digest sample_openssl c (message_digest_for FingerprintAlgorithm_Sha256) =
       X509_digest sample_openssl 7 (message_digest_for FingerprintAlgorithm_Sha256)"
    by auto
  with fp show ?thesis
    using sample_digest [of 7 FingerprintAlgorithm_Sha256] sample_digest [of 8 FingerprintAlgorithm_Sha256] by auto
qed

text \<open>A generated certificate carries the key pair that signed it, with SHA-256; any error of
  OpenSSL on the way is returned and no certificate is made.\<close>

theorem generate_signs_with_own_key:
  assumes "Certificate_generate os typ cn w = (Inr c, w')"
  shows "\<exists>builder w1. X509Builder_sign os builder (cert_pkey c) MessageDigest_sha256 w1 = (Inr (), w') \<and>
    cert_x509 c = X509Builder_build os builder w'"
proof -
  have self: "\<exists>builder w1. X509Builder_sign os builder pkey MessageDigest_sha256 w1 = (Inr (), w2) \<and>
      x = X509Builder_build os builder w2"
    if "build_self_signed os pkey cn w0 = (Inr x, w2)" for pkey w0 x w2
    using that unfolding build_self_signed_def Let_def ossl_bind_def
    by (auto split: prod.splits sum.splits)
  show ?thesis
    using assms self
    by (cases "typ") (auto simp: Certificate_generate_def Certificate_generate_ecdsa_def Certificate_generate_rsa_def
        ossl_bind_def ossl_return_def split: prod.splits sum.splits)
qed

theorem generate_signs_with_own_key_witness:
  "\<exists>c builder w1. fst (Certificate_generate sample_openssl CertificateType_Default ''rtc'' ()) = Inr c \<and>
    X509Builder_sign sample_openssl builder (cert_pkey c) MessageDigest_sha256 w1 = (Inr (), ()) \<and>
    cert_x509 c = X509Builder_build sample_openssl builder () \<and> cert_pkey c = 3"
proof -
  have "Certificate_generate sample_openssl CertificateType_Default ''rtc'' () =
      (Inr \<lparr>cert_x509 = 7, cert_pkey = 3\<rparr>, ())"
    by (simp add: Certificate_generate_def Certificate_generate_ecdsa_def build_self_signed_def
        ossl_bind_def ossl_return_def sample_openssl_def Let_def)
  from generate_signs_with_own_key [OF this] this show ?thesis by auto
qed

end
