(* ===== verification/Ice_Transport.thy ===== *)
theory Ice_Transport
  imports Sdp_Roundtrip Configuration
begin

text \<open>
  \<open>src/ice_transport.rs\<close>: the adapter between a peer connection and the libjuice agent.
  The agent and the callbacks are parameters (\<open>ice_env\<close>): a callback is a token of type
  \<open>'c\<close>, and invoking it runs a function of the environment on the whole world, which may call
  back into the transport, swap the callbacks, or never return (\<open>None\<close>). The world is
  a record that extends \<open>ice\<close>, so that the upper transports can add their own state.
\<close>

section \<open>Data\<close>

datatype ice_state =
    State_New | State_Checking | State_Connected | State_Completed | State_Failed | State_Disconnected
  | State_Closed

datatype gathering_state = GatheringState_New | GatheringState_InProgress | GatheringState_Complete

text \<open>The states of the libjuice agent.\<close>

datatype juice_state =
    Juice_Disconnected | Juice_Gathering | Juice_Connecting | Juice_Connected | Juice_Completed | Juice_Failed

record 'c ice_callbacks =
  on_state_change :: 'c
  on_gathering_state_change :: 'c
  on_candidate :: 'c
  on_data :: 'c

datatype 'e ice_error =
    IceTransportError_Juice 'e
  | IceTransportError_BadBindAddress str
  | IceTransportError_Candidate candidate_parse_error
  | IceTransportError_Description description_parse_error
  | IceTransportError_NoSelectedPair
  | IceTransportError_Closed

text \<open>
  \<open>IceTransport\<close> and its \<open>Bridge\<close>. Each field is behind a lock of its own that is held
  only to read or write the field, never across a callback.
\<close>

record ('c, 'j) ice =
  ice_agent :: 'j
  ice_role :: role
  ice_state :: ice_state
  ice_gathering :: gathering_state
  ice_mid :: str
  ice_callbacks :: "'c ice_callbacks"
  ice_closed :: bool

text \<open>The environment: what a callback does, and what the agent answers.\<close>

record ('c, 'j, 'e, 's) ice_env =
  call_state_change :: "'c \<Rightarrow> ice_state \<Rightarrow> 's \<Rightarrow> 's option"
  call_gathering_state_change :: "'c \<Rightarrow> gathering_state \<Rightarrow> 's \<Rightarrow> 's option"
  call_candidate :: "'c \<Rightarrow> candidate \<Rightarrow> 's \<Rightarrow> 's option"
  call_data :: "'c \<Rightarrow> bytes \<Rightarrow> 's \<Rightarrow> 's option"
  juice_gather_candidates :: "'j \<Rightarrow> ('e + unit) \<times> 'j"
  juice_get_local_description :: "'j \<Rightarrow> ('e + str) \<times> 'j"
  juice_set_remote_description :: "'j \<Rightarrow> str \<Rightarrow> ('e + unit) \<times> 'j"
  juice_add_remote_candidate :: "'j \<Rightarrow> str \<Rightarrow> ('e + unit) \<times> 'j"
  juice_set_remote_gathering_done :: "'j \<Rightarrow> ('e + unit) \<times> 'j"
  juice_send :: "'j \<Rightarrow> bytes \<Rightarrow> ('e + unit) \<times> 'j"
  juice_get_selected_candidates :: "'j \<Rightarrow> ('e + (str \<times> str)) \<times> 'j"
  juice_get_selected_addresses :: "'j \<Rightarrow> ('e + (str \<times> str)) \<times> 'j"

definition map_juice_err :: "('e + 'a) \<Rightarrow> 'e ice_error + 'a" where
  "map_juice_err r = (case r of Inl e \<Rightarrow> Inl (IceTransportError_Juice e) | Inr x \<Rightarrow> Inr x)"

fun map_state :: "juice_state \<Rightarrow> ice_state" where
  "map_state Juice_Disconnected = State_New"
| "map_state Juice_Gathering = State_Checking"
| "map_state Juice_Connecting = State_Checking"
| "map_state Juice_Connected = State_Connected"
| "map_state Juice_Completed = State_Completed"
| "map_state Juice_Failed = State_Failed"

section \<open>Construction\<close>

text \<open>The builder of the libjuice agent is a parameter too.\<close>

record ('b, 'j, 'e) juice_builder =
  jb_builder :: 'b
  jb_with_stun :: "'b \<Rightarrow> str \<Rightarrow> u16 \<Rightarrow> 'b"
  jb_with_bind_address :: "'b \<Rightarrow> ip_addr \<Rightarrow> 'b"
  jb_with_port_range :: "'b \<Rightarrow> u16 \<Rightarrow> u16 \<Rightarrow> 'b"
  jb_add_turn_server :: "'b \<Rightarrow> str \<Rightarrow> u16 \<Rightarrow> str \<Rightarrow> str \<Rightarrow> 'e + 'b"
  jb_build :: "'b \<Rightarrow> 'e + 'j"

definition MAX_TURN_SERVERS_COUNT :: nat where
  "MAX_TURN_SERVERS_COUNT = 2"

definition server_port :: "ice_server \<Rightarrow> u16" where
  "server_port srv = (if is_port srv = 0 then 3478 else is_port srv)"

fun stun_loop :: "('b, 'j, 'e) juice_builder \<Rightarrow> ice_server list \<Rightarrow> bool \<Rightarrow> 'b \<Rightarrow> 'b" where
  "stun_loop jb [] stun_taken builder = builder"
| "stun_loop jb (srv # srvs) stun_taken builder =
     (if is_typ srv \<noteq> IceServerType_Stun then stun_loop jb srvs stun_taken builder
      else if is_hostname srv = [] then stun_loop jb srvs stun_taken builder
      else if \<not> stun_taken then
        stun_loop jb srvs True (jb_with_stun jb builder (is_hostname srv) (server_port srv))
      else stun_loop jb srvs stun_taken builder)"

fun turn_loop :: "('b, 'j, 'e) juice_builder \<Rightarrow> ice_server list \<Rightarrow> nat \<Rightarrow> 'b \<Rightarrow> 'e ice_error + 'b" where
  "turn_loop jb [] turn_added builder = Inr builder"
| "turn_loop jb (srv # srvs) turn_added builder =
     (if is_typ srv \<noteq> IceServerType_Turn then turn_loop jb srvs turn_added builder
      else if is_hostname srv = [] then turn_loop jb srvs turn_added builder
      else if turn_added \<ge> MAX_TURN_SERVERS_COUNT then turn_loop jb srvs turn_added builder
      else if is_relay_type srv \<noteq> RelayType_TurnUdp then turn_loop jb srvs turn_added builder
      else
        try_res (map_juice_err (jb_add_turn_server jb builder (is_hostname srv) (server_port srv)
            (is_username srv) (is_password srv)))
          (\<lambda>builder. turn_loop jb srvs (turn_added + 1) builder))"

definition IceTransport_new ::
    "('b, 'j, 'e) juice_builder \<Rightarrow> configuration \<Rightarrow> role \<Rightarrow> 'c ice_callbacks \<Rightarrow> 'e ice_error + ('c, 'j) ice" where
  "IceTransport_new jb config rl callbacks =
     try_res (case cfg_bind_address config of
                Some s \<Rightarrow> ok_or (map_option Some (parse_ip s)) (IceTransportError_BadBindAddress s)
              | None \<Rightarrow> Inr None)
       (\<lambda>bind_addr.
         let builder = jb_builder jb;
             builder = stun_loop jb (cfg_ice_servers config) False builder;
             builder = (case bind_addr of Some ip \<Rightarrow> jb_with_bind_address jb builder ip | None \<Rightarrow> builder);
             pr_begin = cfg_port_range_begin config;
             pr_end = cfg_port_range_end config;
             builder = (if pr_begin > 1024 \<or> (pr_end \<noteq> 0 \<and> pr_end \<noteq> 65535)
                        then jb_with_port_range jb builder pr_begin pr_end else builder)
         in try_res (turn_loop jb (cfg_ice_servers config) 0 builder) (\<lambda>builder.
            try_res (map_juice_err (jb_build jb builder)) (\<lambda>agent.
              Inr \<lparr>ice_agent = agent, ice_role = rl, ice_state = State_New,
                   ice_gathering = GatheringState_New, ice_mid = ''0'',
                   ice_callbacks = callbacks, ice_closed = False\<rparr>)))"

section \<open>Operations of the transport\<close>

definition fire_state_change ::
    "('c, 'j, 'e, ('c, 'j, 'z) ice_scheme) ice_env \<Rightarrow> ice_state \<Rightarrow> ('c, 'j, 'z) ice_scheme \<Rightarrow> ('c, 'j, 'z) ice_scheme option" where
  "fire_state_change env s w = call_state_change env (on_state_change (ice_callbacks w)) s w"

definition fire_gathering_state_change ::
    "('c, 'j, 'e, ('c, 'j, 'z) ice_scheme) ice_env \<Rightarrow> gathering_state \<Rightarrow> ('c, 'j, 'z) ice_scheme \<Rightarrow> ('c, 'j, 'z) ice_scheme option" where
  "fire_gathering_state_change env s w =
     call_gathering_state_change env (on_gathering_state_change (ice_callbacks w)) s w"

definition IceTransport_gather ::
    "('c, 'j, 'e, ('c, 'j, 'z) ice_scheme) ice_env \<Rightarrow> ('c, 'j, 'z) ice_scheme \<Rightarrow>
       (('e ice_error + unit) \<times> ('c, 'j, 'z) ice_scheme) option" where
  "IceTransport_gather env w =
     (if ice_closed w then Some (Inl IceTransportError_Closed, w)
      else
        let prev = ice_gathering w;
            w = (if prev = GatheringState_New then w\<lparr>ice_gathering := GatheringState_InProgress\<rparr> else w)
        in if prev = GatheringState_New then
             Option.bind (fire_gathering_state_change env GatheringState_InProgress w) (\<lambda>w.
               let (r, j) = juice_gather_candidates env (ice_agent w)
               in Some (map_juice_err r, w\<lparr>ice_agent := j\<rparr>))
           else Some (Inr (), w))"

definition extract_step :: "str option \<times> str option \<Rightarrow> str \<Rightarrow> str option \<times> str option" where
  "extract_step acc raw =
     (let line = trim_end_crlf raw in
      case strip_pre ''a=ice-ufrag:'' line of
        Some v \<Rightarrow> (Some (str_trim v), snd acc)
      | None \<Rightarrow>
          (case strip_pre ''a=ice-pwd:'' line of
             Some v \<Rightarrow> (fst acc, Some (str_trim v))
           | None \<Rightarrow> acc))"

definition extract_ice_creds :: "str \<Rightarrow> str option \<times> str option" where
  "extract_ice_creds fragment = foldl extract_step (None, None) (str_lines fragment)"

definition IceTransport_get_local_description ::
    "('c, 'j, 'e, ('c, 'j, 'z) ice_scheme) ice_env \<Rightarrow> clock \<Rightarrow> sdp_type \<Rightarrow> ('c, 'j, 'z) ice_scheme \<Rightarrow>
       ('e ice_error + description) \<times> ('c, 'j, 'z) ice_scheme" where
  "IceTransport_get_local_description env now typ w =
     (let role_to_use = (if typ = Type_Offer then Role_ActPass else ice_role w);
          (r, j) = juice_get_local_description env (ice_agent w)
      in (try_res (map_juice_err r) (\<lambda>sdp_fragment.
            let (ufrag, pwd) = extract_ice_creds sdp_fragment;
                mid = ice_mid w;
                desc = Description_new now typ role_to_use;
                desc = (case ufrag of Some u \<Rightarrow> Description_set_ice_ufrag desc u | None \<Rightarrow> desc);
                desc = (case pwd of Some p \<Rightarrow> Description_set_ice_pwd desc p | None \<Rightarrow> desc);
                desc = Description_set_application desc (Application_new mid);
                desc = Description_add_ice_option desc ''trickle''
            in Inr desc), w\<lparr>ice_agent := j\<rparr>))"

definition resolve_role :: "role \<Rightarrow> role \<Rightarrow> role" where
  "resolve_role own remote =
     (if own = Role_ActPass then (if remote = Role_Active then Role_Passive else Role_Active) else own)"

definition IceTransport_set_remote_description ::
    "('c, 'j, 'e, ('c, 'j, 'z) ice_scheme) ice_env \<Rightarrow> description \<Rightarrow> ('c, 'j, 'z) ice_scheme \<Rightarrow>
       ('e ice_error + unit) \<times> ('c, 'j, 'z) ice_scheme" where
  "IceTransport_set_remote_description env desc w =
     (if ice_closed w then (Inl IceTransportError_Closed, w)
      else
        let w = w\<lparr>ice_role := resolve_role (ice_role w) (d_role desc)\<rparr>;
            w = w\<lparr>ice_mid := Description_bundle_mid desc\<rparr>;
            (r, j) = juice_set_remote_description env (ice_agent w) (Description_to_sdp desc)
        in (map_juice_err r, w\<lparr>ice_agent := j\<rparr>))"

definition IceTransport_add_remote_candidate ::
    "('c, 'j, 'e, ('c, 'j, 'z) ice_scheme) ice_env \<Rightarrow> candidate \<Rightarrow> ('c, 'j, 'z) ice_scheme \<Rightarrow>
       ('e ice_error + bool) \<times> ('c, 'j, 'z) ice_scheme" where
  "IceTransport_add_remote_candidate env candidate w =
     (if ice_closed w then (Inl IceTransportError_Closed, w)
      else if \<not> Candidate_is_resolved candidate then (Inr False, w)
      else
        let (r, j) = juice_add_remote_candidate env (ice_agent w) (Candidate_to_sdp candidate)
        in (try_res (map_juice_err r) (\<lambda>_. Inr True), w\<lparr>ice_agent := j\<rparr>))"

definition IceTransport_set_remote_end_of_candidates ::
    "('c, 'j, 'e, ('c, 'j, 'z) ice_scheme) ice_env \<Rightarrow> ('c, 'j, 'z) ice_scheme \<Rightarrow>
       ('e ice_error + unit) \<times> ('c, 'j, 'z) ice_scheme" where
  "IceTransport_set_remote_end_of_candidates env w =
     (if ice_closed w then (Inl IceTransportError_Closed, w)
      else let (r, j) = juice_set_remote_gathering_done env (ice_agent w) in (map_juice_err r, w\<lparr>ice_agent := j\<rparr>))"

definition IceTransport_send ::
    "('c, 'j, 'e, ('c, 'j, 'z) ice_scheme) ice_env \<Rightarrow> bytes \<Rightarrow> ('c, 'j, 'z) ice_scheme \<Rightarrow>
       ('e ice_error + unit) \<times> ('c, 'j, 'z) ice_scheme" where
  "IceTransport_send env data w =
     (if ice_closed w then (Inl IceTransportError_Closed, w)
      else let (r, j) = juice_send env (ice_agent w) data in (map_juice_err r, w\<lparr>ice_agent := j\<rparr>))"

definition candidate_result :: "candidate_parse_error + candidate \<Rightarrow> 'e ice_error + candidate" where
  "candidate_result r = (case r of Inl e \<Rightarrow> Inl (IceTransportError_Candidate e) | Inr c \<Rightarrow> Inr c)"

definition IceTransport_get_selected_pair ::
    "('c, 'j, 'e, ('c, 'j, 'z) ice_scheme) ice_env \<Rightarrow> ('c, 'j, 'z) ice_scheme \<Rightarrow>
       ('e ice_error + (candidate \<times> candidate)) \<times> ('c, 'j, 'z) ice_scheme" where
  "IceTransport_get_selected_pair env w =
     (case juice_get_selected_candidates env (ice_agent w) of
        (Inl e, j) \<Rightarrow> (Inl IceTransportError_NoSelectedPair, w\<lparr>ice_agent := j\<rparr>)
      | (Inr (local_sdp, remote_sdp), j) \<Rightarrow>
          (let mid = ice_mid w in
           (try_res (candidate_result (Candidate_parse local_sdp mid)) (\<lambda>local.
            try_res (candidate_result (Candidate_parse remote_sdp mid)) (\<lambda>remote.
              Inr (local, remote))), w\<lparr>ice_agent := j\<rparr>)))"

definition IceTransport_get_selected_addresses ::
    "('c, 'j, 'e, ('c, 'j, 'z) ice_scheme) ice_env \<Rightarrow> ('c, 'j, 'z) ice_scheme \<Rightarrow>
       ('e ice_error + (str \<times> str)) \<times> ('c, 'j, 'z) ice_scheme" where
  "IceTransport_get_selected_addresses env w =
     (case juice_get_selected_addresses env (ice_agent w) of
        (Inl e, j) \<Rightarrow> (Inl IceTransportError_NoSelectedPair, w\<lparr>ice_agent := j\<rparr>)
      | (Inr p, j) \<Rightarrow> (Inr p, w\<lparr>ice_agent := j\<rparr>))"

definition IceTransport_restart_ice ::
    "('c, 'j, 'e, ('c, 'j, 'z) ice_scheme) ice_env \<Rightarrow> ('c, 'j, 'z) ice_scheme \<Rightarrow>
       (('e ice_error + unit) \<times> ('c, 'j, 'z) ice_scheme) option" where
  "IceTransport_restart_ice env w =
     (if ice_closed w then Some (Inl IceTransportError_Closed, w)
      else
        let gathering_changed = (ice_gathering w \<noteq> GatheringState_New);
            w = (if gathering_changed then w\<lparr>ice_gathering := GatheringState_New\<rparr> else w);
            state_changed = (ice_state w \<noteq> State_New);
            w = (if state_changed then w\<lparr>ice_state := State_New\<rparr> else w)
        in Option.bind (if gathering_changed then fire_gathering_state_change env GatheringState_New w else Some w) (\<lambda>w.
           Option.bind (if state_changed then fire_state_change env State_New w else Some w) (\<lambda>w.
             Some (Inr (), w))))"

definition IceTransport_close ::
    "('c, 'j, 'e, ('c, 'j, 'z) ice_scheme) ice_env \<Rightarrow> ('c, 'j, 'z) ice_scheme \<Rightarrow>
       (('e ice_error + unit) \<times> ('c, 'j, 'z) ice_scheme) option" where
  "IceTransport_close env w =
     (let was_closed = ice_closed w; w = w\<lparr>ice_closed := True\<rparr> in
      if was_closed then Some (Inr (), w)
      else
        let state_changed = (ice_state w \<noteq> State_Closed);
            w = (if state_changed then w\<lparr>ice_state := State_Closed\<rparr> else w)
        in Option.bind (if state_changed then fire_state_change env State_Closed w else Some w) (\<lambda>w.
             Some (Inr (), w)))"

definition IceTransport_set_callbacks ::
    "'c ice_callbacks \<Rightarrow> ('c, 'j, 'z) ice_scheme \<Rightarrow> ('c, 'j, 'z) ice_scheme" where
  "IceTransport_set_callbacks callbacks w = w\<lparr>ice_callbacks := callbacks\<rparr>"

text \<open>The accessors. A snapshot of the callbacks copies the handles, that is, the tokens.\<close>

definition IceTransport_state :: "('c, 'j, 'z) ice_scheme \<Rightarrow> ice_state" where
  "IceTransport_state w = ice_state w"

definition IceTransport_gathering_state :: "('c, 'j, 'z) ice_scheme \<Rightarrow> gathering_state" where
  "IceTransport_gathering_state w = ice_gathering w"

definition IceTransport_role :: "('c, 'j, 'z) ice_scheme \<Rightarrow> role" where
  "IceTransport_role w = ice_role w"

definition IceTransport_callbacks :: "('c, 'j, 'z) ice_scheme \<Rightarrow> 'c ice_callbacks" where
  "IceTransport_callbacks w = 
     \<lparr>on_state_change = on_state_change (ice_callbacks w), on_gathering_state_change = on_gathering_state_change (ice_callbacks w),
      on_candidate = on_candidate (ice_callbacks w), on_data = on_data (ice_callbacks w)\<rparr>"

section \<open>Handlers of the agent\<close>

definition Bridge_on_juice_state ::
    "('c, 'j, 'e, ('c, 'j, 'z) ice_scheme) ice_env \<Rightarrow> juice_state \<Rightarrow> ('c, 'j, 'z) ice_scheme \<Rightarrow> ('c, 'j, 'z) ice_scheme option" where
  "Bridge_on_juice_state env s w =
     (if ice_closed w then Some w
      else
        let new_state = map_state s;
            changed = (ice_state w \<noteq> new_state);
            w = (if changed then w\<lparr>ice_state := new_state\<rparr> else w)
        in if changed then fire_state_change env new_state w else Some w)"

definition Bridge_on_juice_candidate ::
    "('c, 'j, 'e, ('c, 'j, 'z) ice_scheme) ice_env \<Rightarrow> str \<Rightarrow> ('c, 'j, 'z) ice_scheme \<Rightarrow> ('c, 'j, 'z) ice_scheme option" where
  "Bridge_on_juice_candidate env sdp w =
     (if ice_closed w then Some w
      else case Candidate_parse sdp (ice_mid w) of
             Inr c \<Rightarrow> call_candidate env (on_candidate (ice_callbacks w)) c w
           | Inl e \<Rightarrow> Some w)"

definition Bridge_on_juice_gathering_done ::
    "('c, 'j, 'e, ('c, 'j, 'z) ice_scheme) ice_env \<Rightarrow> ('c, 'j, 'z) ice_scheme \<Rightarrow> ('c, 'j, 'z) ice_scheme option" where
  "Bridge_on_juice_gathering_done env w =
     (if ice_closed w then Some w
      else
        let changed = (ice_gathering w \<noteq> GatheringState_Complete);
            w = (if changed then w\<lparr>ice_gathering := GatheringState_Complete\<rparr> else w)
        in if changed then fire_gathering_state_change env GatheringState_Complete w else Some w)"

definition Bridge_on_juice_recv ::
    "('c, 'j, 'e, ('c, 'j, 'z) ice_scheme) ice_env \<Rightarrow> bytes \<Rightarrow> ('c, 'j, 'z) ice_scheme \<Rightarrow> ('c, 'j, 'z) ice_scheme option" where
  "Bridge_on_juice_recv env data w =
     (if ice_closed w then Some w else call_data env (on_data (ice_callbacks w)) data w)"

section \<open>Construction, as a list of builder calls\<close>

datatype builder_call =
    Call_with_stun str u16
  | Call_with_bind_address ip_addr
  | Call_with_port_range u16 u16
  | Call_add_turn_server str u16 str str

fun apply_call :: "('b, 'j, 'e) juice_builder \<Rightarrow> builder_call \<Rightarrow> 'b \<Rightarrow> 'e ice_error + 'b" where
  "apply_call jb (Call_with_stun h p) b = Inr (jb_with_stun jb b h p)"
| "apply_call jb (Call_with_bind_address ip) b = Inr (jb_with_bind_address jb b ip)"
| "apply_call jb (Call_with_port_range p q) b = Inr (jb_with_port_range jb b p q)"
| "apply_call jb (Call_add_turn_server h p u w) b = map_juice_err (jb_add_turn_server jb b h p u w)"

fun apply_calls :: "('b, 'j, 'e) juice_builder \<Rightarrow> builder_call list \<Rightarrow> 'b \<Rightarrow> 'e ice_error + 'b" where
  "apply_calls jb [] b = Inr b"
| "apply_calls jb (c # cs) b = try_res (apply_call jb c b) (apply_calls jb cs)"

text \<open>What the constructor is to tell the agent.\<close>

definition usable_server :: "ice_server_type \<Rightarrow> ice_server \<Rightarrow> bool" where
  "usable_server t srv \<longleftrightarrow> is_typ srv = t \<and> is_hostname srv \<noteq> [] \<and>
     (t = IceServerType_Turn \<longrightarrow> is_relay_type srv = RelayType_TurnUdp)"

definition stun_calls :: "ice_server list \<Rightarrow> builder_call list" where
  "stun_calls srvs = map (\<lambda>s. Call_with_stun (is_hostname s) (server_port s))
     (take 1 (filter (usable_server IceServerType_Stun) srvs))"

definition turn_calls :: "nat \<Rightarrow> ice_server list \<Rightarrow> builder_call list" where
  "turn_calls n srvs = map (\<lambda>s. Call_add_turn_server (is_hostname s) (server_port s) (is_username s) (is_password s))
     (take n (filter (usable_server IceServerType_Turn) srvs))"

definition config_calls :: "configuration \<Rightarrow> ip_addr option \<Rightarrow> builder_call list" where
  "config_calls config bind_addr =
     stun_calls (cfg_ice_servers config) @
     (case bind_addr of Some ip \<Rightarrow> [Call_with_bind_address ip] | None \<Rightarrow> []) @
     (if cfg_port_range_begin config \<le> 1024 \<and> cfg_port_range_end config \<in> {0, 65535} then []
      else [Call_with_port_range (cfg_port_range_begin config) (cfg_port_range_end config)]) @
     turn_calls 2 (cfg_ice_servers config)"

lemma apply_calls_append: "apply_calls jb (cs @ ds) b = try_res (apply_calls jb cs b) (apply_calls jb ds)"
proof (induction cs arbitrary: b)
  case (Cons c cs)
  then show ?case by (cases "apply_call jb c b") simp_all
qed simp

lemma stun_loop_taken: "stun_loop jb srvs True b = b"
  by (induction srvs) simp_all

lemma stun_loop_calls: "apply_calls jb (stun_calls srvs) b = Inr (stun_loop jb srvs False b)"
  by (induction srvs arbitrary: b) (simp_all add: stun_calls_def usable_server_def stun_loop_taken)

lemma turn_loop_calls: "k \<le> 2 \<Longrightarrow> turn_loop jb srvs k b = apply_calls jb (turn_calls (2 - k) srvs) b"
proof (induction srvs arbitrary: k b)
  case (Cons srv srvs)
  show ?case
  proof (cases "usable_server IceServerType_Turn srv \<and> k < 2")
    case True
    then obtain m where m: "2 - k = Suc m" "m = 2 - Suc k" by (cases "2 - k") auto
    have next_srv: "turn_loop jb srvs (Suc k) = apply_calls jb (turn_calls m srvs)"
      by (rule ext) (use True Cons.IH [of "Suc k"] m(2) in simp)
    from True m(1) show ?thesis
      by (auto simp: next_srv turn_calls_def usable_server_def MAX_TURN_SERVERS_COUNT_def)
  next
    case False
    then have "turn_loop jb (srv # srvs) k b = turn_loop jb srvs k b"
      by (auto simp: usable_server_def MAX_TURN_SERVERS_COUNT_def)
    moreover have "turn_calls (2 - k) (srv # srvs) = turn_calls (2 - k) srvs"
      using False by (auto simp: turn_calls_def)
    ultimately show ?thesis using Cons by simp
  qed
qed (simp add: turn_calls_def)

definition initial_ice :: "'j \<Rightarrow> role \<Rightarrow> 'c ice_callbacks \<Rightarrow> ('c, 'j) ice" where
  "initial_ice agent rl callbacks = \<lparr>ice_agent = agent, ice_role = rl, ice_state = State_New,
     ice_gathering = GatheringState_New, ice_mid = ''0'', ice_callbacks = callbacks, ice_closed = False\<rparr>"

section \<open>Sequences of calls\<close>

datatype 'c ice_op =
    Op_gather
  | Op_get_local_description clock sdp_type
  | Op_set_remote_description description
  | Op_add_remote_candidate candidate
  | Op_set_remote_end_of_candidates
  | Op_send bytes
  | Op_get_selected_pair
  | Op_get_selected_addresses
  | Op_restart_ice
  | Op_close
  | Op_set_callbacks "'c ice_callbacks"
  | Op_on_juice_state juice_state
  | Op_on_juice_candidate str
  | Op_on_juice_gathering_done
  | Op_on_juice_recv bytes

fun run_ice ::
    "('c, 'j, 'e, ('c, 'j, 'z) ice_scheme) ice_env \<Rightarrow> 'c ice_op \<Rightarrow> ('c, 'j, 'z) ice_scheme \<Rightarrow> ('c, 'j, 'z) ice_scheme option" where
  "run_ice env Op_gather w = map_option snd (IceTransport_gather env w)"
| "run_ice env (Op_get_local_description now typ) w = Some (snd (IceTransport_get_local_description env now typ w))"
| "run_ice env (Op_set_remote_description d) w = Some (snd (IceTransport_set_remote_description env d w))"
| "run_ice env (Op_add_remote_candidate c) w = Some (snd (IceTransport_add_remote_candidate env c w))"
| "run_ice env Op_set_remote_end_of_candidates w = Some (snd (IceTransport_set_remote_end_of_candidates env w))"
| "run_ice env (Op_send data) w = Some (snd (IceTransport_send env data w))"
| "run_ice env Op_get_selected_pair w = Some (snd (IceTransport_get_selected_pair env w))"
| "run_ice env Op_get_selected_addresses w = Some (snd (IceTransport_get_selected_addresses env w))"
| "run_ice env Op_restart_ice w = map_option snd (IceTransport_restart_ice env w)"
| "run_ice env Op_close w = map_option snd (IceTransport_close env w)"
| "run_ice env (Op_set_callbacks cs) w = Some (IceTransport_set_callbacks cs w)"
| "run_ice env (Op_on_juice_state s) w = Bridge_on_juice_state env s w"
| "run_ice env (Op_on_juice_candidate sdp) w = Bridge_on_juice_candidate env sdp w"
| "run_ice env Op_on_juice_gathering_done w = Bridge_on_juice_gathering_done env w"
| "run_ice env (Op_on_juice_recv data) w = Bridge_on_juice_recv env data w"

text \<open>The operations that \<open>close\<close> gates.\<close>

fun ice_gated :: "'c ice_op \<Rightarrow> bool" where
  "ice_gated (Op_get_local_description now typ) = False"
| "ice_gated Op_get_selected_pair = False"
| "ice_gated Op_get_selected_addresses = False"
| "ice_gated (Op_set_callbacks cs) = False"
| "ice_gated op = True"

lemmas ice_op_defs =
  IceTransport_gather_def IceTransport_get_local_description_def IceTransport_set_remote_description_def
  IceTransport_add_remote_candidate_def IceTransport_set_remote_end_of_candidates_def IceTransport_send_def
  IceTransport_get_selected_pair_def IceTransport_get_selected_addresses_def IceTransport_restart_ice_def
  IceTransport_close_def IceTransport_set_callbacks_def Bridge_on_juice_state_def
  Bridge_on_juice_candidate_def Bridge_on_juice_gathering_done_def Bridge_on_juice_recv_def
  fire_state_change_def fire_gathering_state_change_def

lemma ice_close_closed: "ice_closed w \<Longrightarrow> IceTransport_close env w = Some (Inr (), w)"
  by (simp add: IceTransport_close_def Let_def)

lemma ice_gated_stutter: "ice_closed w \<Longrightarrow> ice_gated op \<Longrightarrow> run_ice env op w = Some w"
  by (cases op) (simp_all add: ice_op_defs)

interpretation ice_closable: closable "run_ice env" ice_closed ice_gated for env
  by unfold_locales (rule ice_gated_stutter)

text \<open>
  What the upper transports rely on: a predicate that reads none of the fields of ICE is kept by
  every operation, if the callbacks keep it.
\<close>

definition ice_calls_keep :: "('c, 'j, 'e, 's) ice_env \<Rightarrow> ('s \<Rightarrow> bool) \<Rightarrow> bool" where
  "ice_calls_keep env P \<longleftrightarrow>
     (\<forall>c x w w'. call_state_change env c x w = Some w' \<longrightarrow> P w \<longrightarrow> P w') \<and>
     (\<forall>c x w w'. call_gathering_state_change env c x w = Some w' \<longrightarrow> P w \<longrightarrow> P w') \<and>
     (\<forall>c x w w'. call_candidate env c x w = Some w' \<longrightarrow> P w \<longrightarrow> P w') \<and>
     (\<forall>c x w w'. call_data env c x w = Some w' \<longrightarrow> P w \<longrightarrow> P w')"

lemma ice_calls_keepD:
  assumes "ice_calls_keep env P"
  shows "call_state_change env c s w = Some w' \<Longrightarrow> P w \<Longrightarrow> P w'"
    "call_gathering_state_change env c g w = Some w' \<Longrightarrow> P w \<Longrightarrow> P w'"
    "call_candidate env c cand w = Some w' \<Longrightarrow> P w \<Longrightarrow> P w'"
    "call_data env c data w = Some w' \<Longrightarrow> P w \<Longrightarrow> P w'"
  using assms unfolding ice_calls_keep_def by blast+

locale ice_frame =
  fixes P :: "('c, 'j, 'z) ice_scheme \<Rightarrow> bool"
  assumes ice_frame: "P (w\<lparr>ice_agent := a\<rparr>) = P w" "P (w\<lparr>ice_role := rl\<rparr>) = P w" "P (w\<lparr>ice_state := s\<rparr>) = P w"
    "P (w\<lparr>ice_gathering := g\<rparr>) = P w" "P (w\<lparr>ice_mid := m\<rparr>) = P w" "P (w\<lparr>ice_callbacks := cs\<rparr>) = P w"
    "P (w\<lparr>ice_closed := b\<rparr>) = P w"
begin

lemma run_ice_keeps:
  fixes env :: "('c, 'j, 'e, ('c, 'j, 'z) ice_scheme) ice_env"
  assumes "ice_calls_keep env P" "run_ice env op w = Some w'" "P w"
  shows "P w'"
proof -
  note [dest] = ice_calls_keepD [OF assms(1)]
  note [simp] = ice_frame
  show ?thesis
    using assms(2,3)
    by (cases op) (auto simp: ice_op_defs Let_def bind_eq_Some_conv split_beta split: if_splits sum.splits)
qed

end

section \<open>Callbacks as programs\<close>

text \<open>
  What a callback does is a sequence of calls of the transport, chosen from the event and the
  world it is invoked in, and the world keeps a log of the events that were delivered.
\<close>

datatype ice_event =
    Ev_state ice_state | Ev_gathering gathering_state | Ev_candidate candidate | Ev_data bytes

record ('c, 'j) ice_logged = "('c, 'j) ice" +
  ice_log :: "ice_event list"

definition deliver :: "ice_event \<Rightarrow> ('c, 'j, 'z) ice_logged_scheme \<Rightarrow> ('c, 'j, 'z) ice_logged_scheme" where
  "deliver e w = w\<lparr>ice_log := ice_log w @ [e]\<rparr>"

type_synonym ('c, 'j, 'z) ice_script = "'c \<Rightarrow> ice_event \<Rightarrow> ('c, 'j, 'z) ice_logged_scheme \<Rightarrow> 'c ice_op list"

text \<open>
  \<open>n\<close> bounds the nesting: a callback at depth \<open>n\<close> may call operations whose callbacks run at
  depth \<open>n - 1\<close>, and at depth 0 a callback does not return.
\<close>

primrec scripted ::
    "('c, 'j, 'e, ('c, 'j, 'z) ice_logged_scheme) ice_env \<Rightarrow> ('c, 'j, 'z) ice_script \<Rightarrow> nat \<Rightarrow>
       ('c, 'j, 'e, ('c, 'j, 'z) ice_logged_scheme) ice_env" where
  "scripted env script 0 = env\<lparr>call_state_change := (\<lambda>_ _ _. None), call_gathering_state_change := (\<lambda>_ _ _. None),
     call_candidate := (\<lambda>_ _ _. None), call_data := (\<lambda>_ _ _. None)\<rparr>"
| "scripted env script (Suc n) =
     (let run = (\<lambda>c e w. run_all (run_ice (scripted env script n)) (script c e (deliver e w)) (deliver e w)) in
      env\<lparr>call_state_change := (\<lambda>c s. run c (Ev_state s)),
          call_gathering_state_change := (\<lambda>c s. run c (Ev_gathering s)),
          call_candidate := (\<lambda>c s. run c (Ev_candidate s)),
          call_data := (\<lambda>c s. run c (Ev_data s))\<rparr>)"

text \<open>A predicate that no callback breaks, once its event is delivered.\<close>

definition calls_keep :: "('c, 'j, 'e, ('c, 'j, 'z) ice_logged_scheme) ice_env \<Rightarrow> (('c, 'j, 'z) ice_logged_scheme \<Rightarrow> bool) \<Rightarrow> bool" where
  "calls_keep env P \<longleftrightarrow>
     (\<forall>c x w w'. call_state_change env c x w = Some w' \<longrightarrow> P (deliver (Ev_state x) w) \<longrightarrow> P w') \<and>
     (\<forall>c x w w'. call_gathering_state_change env c x w = Some w' \<longrightarrow> P (deliver (Ev_gathering x) w) \<longrightarrow> P w') \<and>
     (\<forall>c x w w'. call_candidate env c x w = Some w' \<longrightarrow> P (deliver (Ev_candidate x) w) \<longrightarrow> P w') \<and>
     (\<forall>c x w w'. call_data env c x w = Some w' \<longrightarrow> P (deliver (Ev_data x) w) \<longrightarrow> P w')"

lemma calls_keepD:
  assumes "calls_keep env P"
  shows "call_state_change env c s w = Some w' \<Longrightarrow> P (deliver (Ev_state s) w) \<Longrightarrow> P w'"
    "call_gathering_state_change env c g w = Some w' \<Longrightarrow> P (deliver (Ev_gathering g) w) \<Longrightarrow> P w'"
    "call_candidate env c cand w = Some w' \<Longrightarrow> P (deliver (Ev_candidate cand) w) \<Longrightarrow> P w'"
    "call_data env c data w = Some w' \<Longrightarrow> P (deliver (Ev_data data) w) \<Longrightarrow> P w'"
  using assms unfolding calls_keep_def by blast+

text \<open>
  The invariant: Disconnected never occurs, Closed goes with the closed flag, and the Closed
  event has been delivered exactly once if the transport is closed, and never otherwise.
\<close>

definition closed_events :: "('c, 'j, 'z) ice_logged_scheme \<Rightarrow> nat" where
  "closed_events w = length (filter (\<lambda>e. e = Ev_state State_Closed) (ice_log w))"

definition ice_inv :: "('c, 'j, 'z) ice_logged_scheme \<Rightarrow> bool" where
  "ice_inv w \<longleftrightarrow> ice_state w \<noteq> State_Disconnected \<and> (ice_closed w \<longleftrightarrow> ice_state w = State_Closed) \<and>
     closed_events w = (if ice_closed w then 1 else 0) \<and> Ev_state State_Disconnected \<notin> set (ice_log w)"

lemma map_state_range: "map_state s \<noteq> State_Disconnected \<and> map_state s \<noteq> State_Closed"
  by (cases s) simp_all

lemma ice_inv_updates [simp]:
  "ice_inv (w\<lparr>ice_gathering := g\<rparr>) = ice_inv w" "ice_inv (w\<lparr>ice_role := r\<rparr>) = ice_inv w"
  "ice_inv (w\<lparr>ice_mid := m\<rparr>) = ice_inv w" "ice_inv (w\<lparr>ice_agent := j\<rparr>) = ice_inv w"
  "ice_inv (w\<lparr>ice_callbacks := cs\<rparr>) = ice_inv w"
  "ice_inv w \<Longrightarrow> \<not> ice_closed w \<Longrightarrow> ice_inv (w\<lparr>ice_state := map_state s\<rparr>)"
  "ice_inv w \<Longrightarrow> \<not> ice_closed w \<Longrightarrow> ice_inv (w\<lparr>ice_state := State_New\<rparr>)"
  by (auto simp: ice_inv_def map_state_range closed_events_def deliver_def)

lemma ice_inv_deliver:
  "e \<notin> {Ev_state State_Closed, Ev_state State_Disconnected} \<Longrightarrow> ice_inv (deliver e w) = ice_inv w"
  by (auto simp: ice_inv_def closed_events_def deliver_def)

lemma ice_inv_close:
  "ice_inv w \<Longrightarrow> \<not> ice_closed w \<Longrightarrow> ice_state w \<noteq> State_Closed \<and>
     ice_inv (deliver (Ev_state State_Closed) (w\<lparr>ice_closed := True, ice_state := State_Closed\<rparr>))"
  by (auto simp: ice_inv_def closed_events_def deliver_def)

lemma ice_step_inv:
  assumes calls: "calls_keep env ice_inv" and inv: "ice_inv w" and step: "run_ice env op w = Some w'"
  shows "ice_inv w'"
proof (cases "ice_closed w \<and> ice_gated op")
  case True
  with step ice_gated_stutter [of w op env] inv show ?thesis by simp
next
  case False
  note [dest] = calls_keepD [OF calls]
  show ?thesis
  proof (cases op)
    case Op_gather
    with False inv step show ?thesis
      by (auto simp: ice_op_defs Let_def bind_eq_Some_conv split_beta ice_inv_deliver split: if_splits)
  next
    case Op_restart_ice
    let ?w1 = "if ice_gathering w \<noteq> GatheringState_New then w\<lparr>ice_gathering := GatheringState_New\<rparr> else w"
    let ?w2 = "if ice_state ?w1 \<noteq> State_New then ?w1\<lparr>ice_state := State_New\<rparr> else ?w1"
    from Op_restart_ice False step obtain w3 where
      w3: "(if ice_gathering w \<noteq> GatheringState_New then fire_gathering_state_change env GatheringState_New ?w2 else Some ?w2) = Some w3"
      and w': "(if ice_state ?w1 \<noteq> State_New then fire_state_change env State_New w3 else Some w3) = Some w'"
      by (auto simp: IceTransport_restart_ice_def Let_def bind_eq_Some_conv)
    have "ice_inv ?w2" using inv False Op_restart_ice by auto
    then have "ice_inv w3"
      using w3 by (auto simp: fire_gathering_state_change_def ice_inv_deliver split: if_splits)
    then show ?thesis
      using w' by (auto simp: fire_state_change_def ice_inv_deliver split: if_splits)
  next
    case Op_close
    with False inv step ice_inv_close [OF inv] show ?thesis
      by (auto simp: ice_op_defs Let_def bind_eq_Some_conv split: if_splits)
  qed (use False inv step map_state_range in \<open>auto simp: ice_op_defs Let_def bind_eq_Some_conv ice_inv_deliver
    split: if_splits prod.splits sum.splits\<close>)
qed

lemma scripted_keeps: "calls_keep (scripted env script n) ice_inv"
proof (induction n)
  case (Suc n)
  have "ice_inv w \<Longrightarrow> run_all (run_ice (scripted env script n)) ops w = Some w' \<Longrightarrow> ice_inv w'" for ops w w'
    by (induction ops arbitrary: w) (auto simp: bind_eq_Some_conv dest: ice_step_inv [OF Suc])
  then show ?case by (auto simp: calls_keep_def Let_def )
qed (simp add: calls_keep_def)

interpretation ice_invariant: invariant "run_ice (scripted env script n)" ice_inv for env script n
  by unfold_locales (rule ice_step_inv [OF scripted_keeps])


section \<open>The local description\<close>

definition own_fields :: "('c, 'j, 'z) ice_scheme \<Rightarrow> ('c, 'j) ice" where
  "own_fields w = ice.truncate w"

lemma extract_step_line_ok:
  assumes "LF \<notin> set raw" "pred_option line_ok (fst acc)" "pred_option line_ok (snd acc)"
  shows "pred_option line_ok (fst (extract_step acc raw)) \<and> pred_option line_ok (snd (extract_step acc raw))"
proof -
  have "line_ok (str_trim v)" if "strip_pre p (trim_end_crlf raw) = Some v" for p v
    using that trim_end_line_ok [OF assms(1)] line_ok_suffix [of p v]
    by (intro str_trim_line_ok) (auto simp: strip_pre_Some_iff line_ok_def)
  with assms(2,3) show ?thesis by (auto simp: extract_step_def Let_def split: option.splits)
qed

lemma extract_creds_line_ok:
  "pred_option line_ok (fst (extract_ice_creds s)) \<and> pred_option line_ok (snd (extract_ice_creds s))"
proof -
  have "list_all (\<lambda>l. LF \<notin> set l) ls \<Longrightarrow> pred_option line_ok (fst acc) \<and> pred_option line_ok (snd acc) \<Longrightarrow>
      pred_option line_ok (fst (foldl extract_step acc ls)) \<and> pred_option line_ok (snd (foldl extract_step acc ls))" for ls acc
    by (induction ls arbitrary: acc) (simp_all add: extract_step_line_ok)
  from this [OF str_lines_no_LF_all, of "(None, None)"] show ?thesis by (simp add: extract_ice_creds_def)
qed

lemma trickle_ok: "option_ok ''trickle''"
  by (simp add: option_ok_def line_ok_def str_trim_solid ascii_solid_def ws1_def code_def)

lemma local_description_ok:
  assumes "IceTransport_get_local_description env now typ w = (Inr d, w')" "line_ok (ice_mid w)"
  shows "description_ok d \<and> d_role d = (if typ = Type_Offer then Role_ActPass else ice_role w) \<and> d_typ d = typ \<and>
    d_application d = Some (Application_new (ice_mid w)) \<and> own_fields w' = own_fields (w\<lparr>ice_agent := ice_agent w'\<rparr>)"
proof -
  obtain r j where r: "juice_get_local_description env (ice_agent w) = (r, j)" by force
  from assms(1) r obtain s where "r = Inr s" by (cases r) (auto simp: IceTransport_get_local_description_def map_juice_err_def Let_def)
  moreover obtain u p where up: "extract_ice_creds s = (u, p)" by force
  ultimately show ?thesis
    using assms r extract_creds_line_ok [of s] description_ok_new [of now "typ"] trickle_ok
    by (auto simp: IceTransport_get_local_description_def map_juice_err_def Let_def own_fields_def
        Description_add_ice_option_def Description_set_application_def Description_set_ice_ufrag_def
        Description_set_ice_pwd_def push_new_def application_ok_def Application_new_def description_ok_def
        Description_new_def ice.truncate_def
        split: option.splits)
qed


section \<open>A sample world\<close>

text \<open>An agent that counts its calls, and callbacks named by numbers.\<close>

definition sample_env :: "(nat, nat, unit, (nat, nat) ice_logged) ice_env" where
  "sample_env = \<lparr>call_state_change = (\<lambda>_ _. Some), call_gathering_state_change = (\<lambda>_ _. Some),
     call_candidate = (\<lambda>_ _. Some), call_data = (\<lambda>_ _. Some),
     juice_gather_candidates = (\<lambda>j. (Inr (), j + 1)),
     juice_get_local_description = (\<lambda>j. (Inr (''a=ice-ufrag:uf'' @ crlf @ ''a=ice-pwd:pw'' @ crlf), j)),
     juice_set_remote_description = (\<lambda>j _. (Inr (), j + 1)), juice_add_remote_candidate = (\<lambda>j _. (Inr (), j + 1)),
     juice_set_remote_gathering_done = (\<lambda>j. (Inr (), j + 1)), juice_send = (\<lambda>j _. (Inr (), j + 1)),
     juice_get_selected_candidates = (\<lambda>j. (Inl (), j)), juice_get_selected_addresses = (\<lambda>j. (Inl (), j))\<rparr>"

definition start_world :: "'j \<Rightarrow> role \<Rightarrow> 'c ice_callbacks \<Rightarrow> ('c, 'j) ice_logged" where
  "start_world agent rl cs = ice.extend (initial_ice agent rl cs) \<lparr>ice_log = []\<rparr>"

definition sample_callbacks :: "nat ice_callbacks" where
  "sample_callbacks = \<lparr>on_state_change = 1, on_gathering_state_change = 2, on_candidate = 3, on_data = 4\<rparr>"

lemma start_world_fields [simp]:
  "ice_agent (start_world agent rl cs) = agent" "ice_role (start_world agent rl cs) = rl"
  "ice_state (start_world agent rl cs) = State_New" "ice_gathering (start_world agent rl cs) = GatheringState_New"
  "ice_mid (start_world agent rl cs) = ''0''" "ice_callbacks (start_world agent rl cs) = cs"
  "ice_closed (start_world agent rl cs) = False" "ice_log (start_world agent rl cs) = []"
  by (simp_all add: start_world_def initial_ice_def ice.extend_def)

lemma start_world_inv: "ice_inv (start_world agent rl cs)"
  by (simp add: ice_inv_def closed_events_def)

section \<open>Properties\<close>

text \<open>C20: constructing a transport tells the agent exactly this: the first STUN server with a
  host, the bind address, the port range unless it is the default one, and the first two TURN
  servers that have a host and use UDP, port 0 meaning 3478 everywhere; an unparsable bind
  address is an error before the agent is touched.\<close>

theorem ice_new_spec:
  "IceTransport_new jb config rl callbacks =
     (case cfg_bind_address config of
        Some s \<Rightarrow>
          (case parse_ip s of
             None \<Rightarrow> Inl (IceTransportError_BadBindAddress s)
           | Some ip \<Rightarrow>
               try_res (apply_calls jb (config_calls config (Some ip)) (jb_builder jb)) (\<lambda>b.
               try_res (map_juice_err (jb_build jb b)) (\<lambda>agent. Inr (initial_ice agent rl callbacks))))
      | None \<Rightarrow>
          try_res (apply_calls jb (config_calls config None) (jb_builder jb)) (\<lambda>b.
          try_res (map_juice_err (jb_build jb b)) (\<lambda>agent. Inr (initial_ice agent rl callbacks))))"
proof -
  have range: "(cfg_port_range_begin config \<le> 1024 \<and> cfg_port_range_end config \<in> {0, 65535}) \<longleftrightarrow>
      \<not> (cfg_port_range_begin config > 1024 \<or> (cfg_port_range_end config \<noteq> 0 \<and> cfg_port_range_end config \<noteq> 65535))"
    by auto
  show ?thesis
    unfolding IceTransport_new_def config_calls_def range
    by (simp add: Let_def apply_calls_append stun_loop_calls turn_loop_calls initial_ice_def split: option.split)
qed


text \<open>C32: on a closed transport every gated operation returns the error Closed or does nothing:
  the world is the same, the agent is not called and no callback runs.\<close>

theorem ice_closed_gates:
  assumes "ice_closed w"
  shows "IceTransport_gather env w = Some (Inl IceTransportError_Closed, w) \<and>
    IceTransport_set_remote_description env d w = (Inl IceTransportError_Closed, w) \<and>
    IceTransport_add_remote_candidate env c w = (Inl IceTransportError_Closed, w) \<and>
    IceTransport_set_remote_end_of_candidates env w = (Inl IceTransportError_Closed, w) \<and>
    IceTransport_send env data w = (Inl IceTransportError_Closed, w) \<and>
    IceTransport_restart_ice env w = Some (Inl IceTransportError_Closed, w) \<and>
    IceTransport_close env w = Some (Inr (), w) \<and>
    (list_all ice_gated ops \<longrightarrow> run_all (run_ice env) ops w = Some w)"
  using assms by (simp add: ice_op_defs ice_closable.closed_run_all)

theorem ice_closed_gates_witness:
  "run_all (run_ice sample_env) [Op_on_juice_recv [1, 2], Op_gather, Op_close]
     ((start_world 0 Role_ActPass sample_callbacks)\<lparr>ice_closed := True\<rparr>) =
   Some ((start_world 0 Role_ActPass sample_callbacks)\<lparr>ice_closed := True\<rparr>)"
  using ice_closed_gates [of "(start_world 0 Role_ActPass sample_callbacks)\<lparr>ice_closed := True\<rparr>" sample_env _ _ _
    "[Op_on_juice_recv [1, 2], Op_gather, Op_close]"]
  by simp

text \<open>C9: whatever sequence of calls and agent events runs, and whatever calls the callbacks
  make in turn, to any depth: the state is never Disconnected, it is Closed exactly when the
  transport is closed, and the Closed event has then been delivered exactly once.\<close>

theorem ice_states_reachable:
  assumes "run_all (run_ice (scripted env script n)) ops (start_world agent rl cs) = Some w"
  shows "ice_state w \<noteq> State_Disconnected \<and> (ice_closed w \<longleftrightarrow> ice_state w = State_Closed) \<and>
    length (filter (\<lambda>e. e = Ev_state State_Closed) (ice_log w)) = (if ice_closed w then 1 else 0)"
  using ice_invariant.run_all_inv [OF start_world_inv assms] by (simp add: ice_inv_def closed_events_def)

theorem ice_states_reachable_witness:
  "\<exists>w. run_all (run_ice (scripted sample_env (\<lambda>_ _ _. []) 2))
      [Op_on_juice_state Juice_Connected, Op_close, Op_close, Op_on_juice_state Juice_Failed]
      (start_world 0 Role_ActPass sample_callbacks) = Some w \<and>
    ice_log w = [Ev_state State_Connected, Ev_state State_Closed] \<and> ice_closed w \<and>
    length (filter (\<lambda>e. e = Ev_state State_Closed) (ice_log w)) = 1"
proof -
  obtain w where w: "run_all (run_ice (scripted sample_env (\<lambda>_ _ _. []) 2))
      [Op_on_juice_state Juice_Connected, Op_close, Op_close, Op_on_juice_state Juice_Failed]
      (start_world 0 Role_ActPass sample_callbacks) = Some w"
    "ice_log w = [Ev_state State_Connected, Ev_state State_Closed]" "ice_closed w"
    by (simp add: numeral_2_eq_2 ice_op_defs Let_def deliver_def)
  from ice_states_reachable [OF w(1)] w show ?thesis by auto
qed

text \<open>A restart is not gated after its first callback. When the gathering callback of a
  restart closes the transport, the state callback still runs: the upper layer sees New after
  Closed.\<close>

theorem ice_restart_after_close:
  assumes "\<not> ice_closed w" "ice_gathering w \<noteq> GatheringState_New" "ice_state w \<notin> {State_New, State_Closed}"
    and "\<And>v. script (on_gathering_state_change (ice_callbacks w)) (Ev_gathering GatheringState_New) v = [Op_close]"
    and "\<And>c s v. script c (Ev_state s) v = []"
  shows "\<exists>w'. run_ice (scripted env script (Suc (Suc n))) Op_restart_ice w = Some w' \<and> ice_closed w' \<and>
    ice_state w' = State_Closed \<and>
    ice_log w' = ice_log w @ [Ev_gathering GatheringState_New, Ev_state State_Closed, Ev_state State_New]"
  using assms by (simp add: ice_op_defs Let_def deliver_def)

theorem ice_restart_after_close_witness:
  "\<exists>w'. run_ice (scripted sample_env (\<lambda>_ e _. if e = Ev_gathering GatheringState_New then [Op_close] else []) 2) Op_restart_ice
      ((start_world 0 Role_ActPass sample_callbacks)\<lparr>ice_state := State_Connected, ice_gathering := GatheringState_Complete\<rparr>) = Some w' \<and>
    ice_closed w' \<and> ice_log w' = [Ev_gathering GatheringState_New, Ev_state State_Closed, Ev_state State_New]"
  using ice_restart_after_close [of "(start_world 0 Role_ActPass sample_callbacks)\<lparr>ice_state := State_Connected,
      ice_gathering := GatheringState_Complete\<rparr>" "\<lambda>_ e _. if e = Ev_gathering GatheringState_New then [Op_close] else []"
    sample_env 0]
  by (simp only: numeral_2_eq_2 One_nat_def) auto

text \<open>Gathering runs once. The first call announces InProgress and asks the agent; later
  calls succeed without asking it. This also holds when the agent refused: the state stays
  InProgress and a retry reports success although nothing is being gathered.\<close>

theorem ice_gather_once:
  assumes "\<not> ice_closed w" "ice_gathering w = GatheringState_New"
    and "fire_gathering_state_change env GatheringState_InProgress (w\<lparr>ice_gathering := GatheringState_InProgress\<rparr>) = Some w1"
    and "\<not> ice_closed w1" "ice_gathering w1 = GatheringState_InProgress"
    and "juice_gather_candidates env (ice_agent w1) = (r, j)"
  shows "IceTransport_gather env w = Some (map_juice_err r, w1\<lparr>ice_agent := j\<rparr>) \<and>
    IceTransport_gather env (w1\<lparr>ice_agent := j\<rparr>) = Some (Inr (), w1\<lparr>ice_agent := j\<rparr>)"
  using assms by (simp add: IceTransport_gather_def Let_def)

theorem ice_gather_once_witness:
  "\<exists>w'. IceTransport_gather (sample_env\<lparr>juice_gather_candidates := \<lambda>j. (Inl (), j)\<rparr>)
      (start_world 0 Role_ActPass sample_callbacks) = Some (Inl (IceTransportError_Juice ()), w') \<and>
    IceTransport_gather (sample_env\<lparr>juice_gather_candidates := \<lambda>j. (Inl (), j)\<rparr>) w' = Some (Inr (), w')"
  using ice_gather_once [of "start_world 0 Role_ActPass sample_callbacks" "sample_env\<lparr>juice_gather_candidates := \<lambda>j. (Inl (), j)\<rparr>"]
  by (simp add: fire_gathering_state_change_def sample_env_def map_juice_err_def)

text \<open>A local candidate reaches the application as what its line parses to, stamped with the
  transport's mid; a line that does not parse is dropped without any effect.\<close>

theorem ice_candidate_stamped:
  assumes "\<not> ice_closed w"
  shows "Bridge_on_juice_candidate env sdp w =
    (case Candidate_parse sdp (ice_mid w) of
       Inl e \<Rightarrow> Some w
     | Inr c \<Rightarrow> call_candidate env (on_candidate (ice_callbacks w)) c w) \<and>
    (\<forall>c. Candidate_parse sdp (ice_mid w) = Inr c \<longrightarrow> candidate_wf c \<and>
       (ice_mid w \<noteq> [] \<longrightarrow> Candidate_mid c = ice_mid w))"
proof -
  have "Candidate_mid c = ice_mid w" if "Candidate_parse sdp (ice_mid w) = Inr c" "ice_mid w \<noteq> []" for c
    using that by (auto simp: Candidate_parse_eq Candidate_mid_def result_iffs split: if_splits)
  with assms Candidate_parse_wf show ?thesis
    by (auto simp: Bridge_on_juice_candidate_def split: sum.splits)
qed

theorem ice_candidate_stamped_witness:
  "\<exists>c. Candidate_parse ''candidate:7 1 tcp 99 10.0.0.1 09 typ host tcptype active'' ''0'' = Inr c \<and> Candidate_mid c = ''0''"
proof -
  obtain c where c: "Candidate_parse ''candidate:7 1 tcp 99 10.0.0.1 09 typ host tcptype active'' ''0'' = Inr c"
    by (simp add: candidate_eval)
  with ice_candidate_stamped [of "start_world 0 Role_ActPass sample_callbacks" sample_env] show ?thesis by auto
qed

text \<open>C26: offer and answer settle the DTLS roles. When two undecided transports exchange their
  descriptions as text, the answerer becomes active and the offerer passive.\<close>

theorem ice_roles_complementary:
  fixes wa wb :: "('c, 'j, 'z) ice_scheme" and enva envb :: "('c, 'j, 'e, ('c, 'j, 'z) ice_scheme) ice_env"
  assumes "\<not> ice_closed wa" "\<not> ice_closed wb" "ice_role wa = Role_ActPass" "ice_role wb = Role_ActPass"
    and "line_ok (ice_mid wa)"
    and "IceTransport_get_local_description enva now Type_Offer wa = (Inr offer, wa1)"
  shows "\<exists>offer'. Description_parse now1 (Description_to_sdp offer) = Inr offer' \<and>
    (\<forall>r wb1 answer wb2. IceTransport_set_remote_description envb offer' wb = (r, wb1) \<longrightarrow>
       IceTransport_get_local_description envb now2 Type_Answer wb1 = (Inr answer, wb2) \<longrightarrow>
       ice_role wb2 = Role_Active \<and>
       (\<exists>answer'. Description_parse now3 (Description_to_sdp answer) = Inr answer' \<and>
         (\<forall>r wa2. IceTransport_set_remote_description enva answer' wa1 = (r, wa2) \<longrightarrow>
            ice_role wa2 = Role_Passive)))"
proof -
  have fields: "ice_closed w' = ice_closed w \<and> ice_role w' = ice_role w \<and> ice_mid w' = ice_mid w"
    if "own_fields w' = own_fields (w\<lparr>ice_agent := ice_agent w'\<rparr>)" for w w' :: "('c, 'j, 'z) ice_scheme"
    using that by (simp add: own_fields_def ice.truncate_def)
  have norm: "Description_parse now (Description_to_sdp d) = Inr (Description_norm d) \<and> d_role (Description_norm d) = d_role d \<and>
      Description_bundle_mid (Description_norm d) = m"
    if "description_ok d" "d_application d = Some (Application_new m)" for d m now
    using that sdp_roundtrip_aux [OF that(1)]
    by (simp add: Description_norm_def Let_def Description_bundle_mid_def app_norm_def Application_new_def)
  have remote: "ice_role w' = resolve_role (ice_role w) (d_role d) \<and> ice_mid w' = Description_bundle_mid d"
    if "IceTransport_set_remote_description env d w = (r, w')" "\<not> ice_closed w"
    for env :: "('c, 'j, 'e, ('c, 'j, 'z) ice_scheme) ice_env" and d w r w'
    using that by (auto simp: IceTransport_set_remote_description_def Let_def split: prod.splits)
  note offer = local_description_ok [OF assms(6,5)]
  then have offer_norm: "Description_parse now1 (Description_to_sdp offer) = Inr (Description_norm offer)"
    "d_role (Description_norm offer) = Role_ActPass" "Description_bundle_mid (Description_norm offer) = ice_mid wa"
    using norm [of offer "ice_mid wa" now1] by simp_all
  have wa1: "\<not> ice_closed wa1" "ice_role wa1 = Role_ActPass"
    using offer fields [of wa1 wa] assms(1,3) by simp_all
  show ?thesis
  proof (rule exI [of _ "Description_norm offer"], intro conjI allI impI)
    show "Description_parse now1 (Description_to_sdp offer) = Inr (Description_norm offer)" by (rule offer_norm)
  next
    fix r wb1 answer wb2
    assume b: "IceTransport_set_remote_description envb (Description_norm offer) wb = (r, wb1)"
      and answer: "IceTransport_get_local_description envb now2 Type_Answer wb1 = (Inr answer, wb2)"
    have wb1: "ice_role wb1 = Role_Active" "line_ok (ice_mid wb1)"
      using remote [OF b assms(2)] assms(4,5) offer_norm by (simp_all add: resolve_role_def)
    note local = local_description_ok [OF answer wb1(2)]
    then show "ice_role wb2 = Role_Active" using fields [of wb2 wb1] wb1 by simp
    have answer_norm: "Description_parse now3 (Description_to_sdp answer) = Inr (Description_norm answer)"
      "d_role (Description_norm answer) = Role_Active"
      using norm [of answer "ice_mid wb1" now3] local wb1 by simp_all
    then show "\<exists>answer'. Description_parse now3 (Description_to_sdp answer) = Inr answer' \<and>
        (\<forall>r wa2. IceTransport_set_remote_description enva answer' wa1 = (r, wa2) \<longrightarrow> ice_role wa2 = Role_Passive)"
      using wa1 remote by (fastforce simp: resolve_role_def)
  qed
qed

theorem ice_roles_complementary_witness:
  "\<exists>offer wa1 offer' wb1 answer wb2 answer' wa2.
    IceTransport_get_local_description sample_env None Type_Offer (start_world 0 Role_ActPass sample_callbacks) = (Inr offer, wa1) \<and>
    Description_parse None (Description_to_sdp offer) = Inr offer' \<and>
    IceTransport_set_remote_description sample_env offer' (start_world 0 Role_ActPass sample_callbacks) = (Inr (), wb1) \<and>
    IceTransport_get_local_description sample_env None Type_Answer wb1 = (Inr answer, wb2) \<and>
    Description_parse None (Description_to_sdp answer) = Inr answer' \<and>
    IceTransport_set_remote_description sample_env answer' wa1 = (Inr (), wa2) \<and>
    ice_role wb2 = Role_Active \<and> ice_role wa2 = Role_Passive"
proof -
  let ?w = "start_world (0 :: nat) Role_ActPass sample_callbacks"
  have get: "\<exists>d. IceTransport_get_local_description sample_env None t w = (Inr d, w)" for t w
    by (simp add: IceTransport_get_local_description_def sample_env_def map_juice_err_def Let_def split: prod.split)
  have set: "\<exists>w'. ice_closed w' = ice_closed w \<and> IceTransport_set_remote_description sample_env d w = (Inr (), w')"
    if "\<not> ice_closed w" for d w
    using that by (simp add: IceTransport_set_remote_description_def sample_env_def map_juice_err_def Let_def)
  obtain offer where offer: "IceTransport_get_local_description sample_env None Type_Offer ?w = (Inr offer, ?w)"
    using get by blast
  have w: "\<not> ice_closed ?w" "ice_role ?w = Role_ActPass" "line_ok (ice_mid ?w)" by (simp_all add: line_ok_def)
  from ice_roles_complementary [OF w(1) w(1) w(2) w(2) w(3) offer, of None sample_env None None] obtain offer' where
    offer': "Description_parse None (Description_to_sdp offer) = Inr offer'"
    and rest: "\<And>r wb1 answer wb2. IceTransport_set_remote_description sample_env offer' ?w = (r, wb1) \<Longrightarrow>
       IceTransport_get_local_description sample_env None Type_Answer wb1 = (Inr answer, wb2) \<Longrightarrow>
       ice_role wb2 = Role_Active \<and>
       (\<exists>answer'. Description_parse None (Description_to_sdp answer) = Inr answer' \<and>
         (\<forall>r wa2. IceTransport_set_remote_description sample_env answer' ?w = (r, wa2) \<longrightarrow>
            ice_role wa2 = Role_Passive))"
    by blast
  obtain wb1 where wb1: "IceTransport_set_remote_description sample_env offer' ?w = (Inr (), wb1)"
    using set [of ?w offer'] by auto
  obtain answer where answer: "IceTransport_get_local_description sample_env None Type_Answer wb1 = (Inr answer, wb1)"
    using get by blast
  from rest [OF wb1 answer] obtain answer' where "Description_parse None (Description_to_sdp answer) = Inr answer'"
    "ice_role wb1 = Role_Active"
    "\<And>r wa2. IceTransport_set_remote_description sample_env answer' ?w = (r, wa2) \<Longrightarrow> ice_role wa2 = Role_Passive"
    by auto
  moreover obtain wa2 where "IceTransport_set_remote_description sample_env answer' ?w = (Inr (), wa2)"
    using set [of ?w answer'] by auto
  ultimately show ?thesis using offer offer' wb1 answer by blast
qed

text \<open>The credentials in the agent's fragment are found: the values of its ufrag and pwd lines,
  trimmed, whatever other lines follow them.\<close>

theorem extract_creds_lines:
  assumes "list_all line_ok ls" "line_ok u" "line_ok p"
    and "list_all (\<lambda>l. strip_pre ''a=ice-ufrag:'' l = None \<and> strip_pre ''a=ice-pwd:'' l = None) ls"
  shows "extract_ice_creds (render_lines ([''a=ice-ufrag:'' @ u, ''a=ice-pwd:'' @ p] @ ls)) =
      (Some (str_trim u), Some (str_trim p))"
proof -
  let ?ls = "[''a=ice-ufrag:'' @ u, ''a=ice-pwd:'' @ p] @ ls"
  have ok: "line_ok (''a=ice-ufrag:'' @ u)" "line_ok (''a=ice-pwd:'' @ p)"
    using assms(2,3) by (auto intro!: line_ok_lit_append simp del: append_Cons)
  have "list_all line_ok ?ls" using ok assms(1) by (simp del: append_Cons)
  then have lines: "str_lines (render_lines ?ls) = ?ls" by (rule str_lines_render')
  have rest: "foldl extract_step acc ls = acc" for acc
    using assms(1,4) by (induction ls) (simp_all add: extract_step_def trim_end_line)
  show ?thesis
    unfolding extract_ice_creds_def lines
    using ok by (simp add: extract_step_def trim_end_line rest)
qed

theorem extract_creds_lines_witness:
  "extract_ice_creds (render_lines [''a=ice-ufrag:uf'', ''a=ice-pwd:pw'', ''a=end-of-candidates'']) = (Some ''uf'', Some ''pw'')"
proof -
  have "str_trim ''uf'' = ''uf''" "str_trim ''pw'' = ''pw''"
    by (simp_all add: str_trim_solid ascii_solid_def ws1_def code_def)
  then show ?thesis
    using extract_creds_lines [of "[''a=end-of-candidates'']" "''uf''" "''pw''"] by (simp add: line_ok_def)
qed

end
