(* ===== verification/Dtls_Transport.thy ===== *)
theory Dtls_Transport
  imports Ice_Transport Certificate
begin

text \<open>
  \<open>src/dtls_transport.rs\<close>: the handshake driver over an ICE transport. OpenSSL is a
  parameter (\<open>dtls_env\<close>): \<open>'l\<close> is an \<open>SSL\<close> object with its two memory BIOs, changed by the calls
  the code makes on it. The closures that the transport installs on ICE are the datatype
  \<open>ice_closure\<close>. The lock of \<open>Inner\<close> is not reentrant: taking it while it is held by the same
  thread never returns, which is \<open>None\<close>.
\<close>

section \<open>Data\<close>

datatype dtls_state = DtlsState_New | DtlsState_Connecting | DtlsState_Connected | DtlsState_Failed | DtlsState_Closed

text \<open>What \<open>SSL_get_error\<close> returns.\<close>

datatype ssl_error =
    SSL_ERROR_NONE | SSL_ERROR_WANT_READ | SSL_ERROR_WANT_WRITE | SSL_ERROR_ZERO_RETURN | SSL_ERROR_OTHER int

datatype ('e, 'je) dtls_error =
    DtlsTransportError_OpenSsl 'e
  | DtlsTransportError_Ice "'je ice_error"
  | DtlsTransportError_BioAlloc
  | DtlsTransportError_Closed
  | DtlsTransportError_Handshake ssl_error
  | DtlsTransportError_NotConnected

record 'd dtls_callbacks =
  dc_on_state_change :: 'd
  dc_on_data :: 'd

text \<open>
  The closures installed on ICE: the application's own, the auto-start hook of \<open>new\<close>, the
  state hook of \<open>start\<close> (both hold the closure they replace) and the receive shim of \<open>start\<close>.
\<close>

datatype 'u ice_closure =
    IceUser 'u
  | DtlsAutoStart "'u ice_closure"
  | DtlsStateHook "'u ice_closure"
  | DtlsPump

text \<open>\<open>DtlsTransport\<close> with its \<open>Bridge\<close> and \<open>Inner\<close>, over the ICE transport it holds.\<close>

record ('u, 'j, 'd, 'l) dtls = "('u ice_closure, 'j) ice" +
  dtls_ssl :: 'l
  dtls_handshake_done :: bool
  dtls_locked :: bool
  dtls_state :: dtls_state
  dtls_callbacks :: "'d dtls_callbacks"
  dtls_closed :: bool
  dtls_is_client :: bool
  dtls_expected :: "fingerprint option"
  dtls_started :: bool

text \<open>
  The environment: ICE's, with what the application's closures do; the application's
  DTLS callbacks; and the calls into OpenSSL. \<open>SSL_do_handshake\<close> is given the verify
  callback as it would answer at this moment.
\<close>

record ('u, 'j, 'je, 'd, 'l, 'w, 'e, 'h, 's) dtls_env =
  de_ice :: "('u ice_closure, 'j, 'je, 's) ice_env"
  de_openssl :: "('w, 'e, 'h) openssl"
  call_dtls_state_change :: "'d \<Rightarrow> dtls_state \<Rightarrow> 's \<Rightarrow> 's option"
  call_dtls_data :: "'d \<Rightarrow> bytes \<Rightarrow> 's \<Rightarrow> 's option"
  SSL_do_handshake :: "(bool \<Rightarrow> 'h option \<Rightarrow> bool option) \<Rightarrow> 'l \<Rightarrow> int \<times> 'l"
  SSL_get_error :: "'l \<Rightarrow> int \<Rightarrow> ssl_error"
  SSL_write :: "bytes \<Rightarrow> 'l \<Rightarrow> int \<times> 'l"
  SSL_read :: "nat \<Rightarrow> 'l \<Rightarrow> (int \<times> bytes) \<times> 'l"
  SSL_set_mtu :: "nat \<Rightarrow> 'l \<Rightarrow> 'l"
  BIO_read_out :: "nat \<Rightarrow> 'l \<Rightarrow> bytes option \<times> 'l"
  BIO_write_in :: "bytes \<Rightarrow> 'l \<Rightarrow> int \<times> 'l"

definition DEFAULT_MTU :: nat where
  "DEFAULT_MTU = 1280"

section \<open>The inner lock\<close>

definition lock_inner :: "('u, 'j, 'd, 'l, 'z) dtls_scheme \<Rightarrow> ('u, 'j, 'd, 'l, 'z) dtls_scheme option" where
  "lock_inner w = (if dtls_locked w then None else Some (w\<lparr>dtls_locked := True\<rparr>))"

definition unlock_inner :: "('u, 'j, 'd, 'l, 'z) dtls_scheme \<Rightarrow> ('u, 'j, 'd, 'l, 'z) dtls_scheme" where
  "unlock_inner w = w\<lparr>dtls_locked := False\<rparr>"

type_synonym ('u, 'j, 'je, 'd, 'l, 'w, 'e, 'h, 'z) dtls_environment =
  "('u, 'j, 'je, 'd, 'l, 'w, 'e, 'h, ('u, 'j, 'd, 'l, 'z) dtls_scheme) dtls_env"

definition fire_dtls_state_change ::
    "('u, 'j, 'je, 'd, 'l, 'w, 'e, 'h, 'z) dtls_environment \<Rightarrow> dtls_state \<Rightarrow>
       ('u, 'j, 'd, 'l, 'z) dtls_scheme \<Rightarrow> ('u, 'j, 'd, 'l, 'z) dtls_scheme option" where
  "fire_dtls_state_change env s w = call_dtls_state_change env (dc_on_state_change (dtls_callbacks w)) s w"

section \<open>Draining the outbound BIO\<close>

text \<open>The loop has no bound of its own: it ends when the BIO is empty or ICE fails.\<close>

partial_function (option) drain_outbound_locked ::
    "('u, 'j, 'je, 'd, 'l, 'w, 'e, 'h, 'z) dtls_environment \<Rightarrow> ('u, 'j, 'd, 'l, 'z) dtls_scheme \<Rightarrow>
       ((('e, 'je) dtls_error + unit) \<times> ('u, 'j, 'd, 'l, 'z) dtls_scheme) option" where
  "drain_outbound_locked env w =
     (case BIO_read_out env 4096 (dtls_ssl w) of
        (None, l) \<Rightarrow> Some (Inr (), w\<lparr>dtls_ssl := l\<rparr>)
      | (Some rec, l) \<Rightarrow>
          (case IceTransport_send (de_ice env) rec (w\<lparr>dtls_ssl := l\<rparr>) of
             (Inr u, w) \<Rightarrow> drain_outbound_locked env w
           | (Inl e, w) \<Rightarrow>
               (case e of
                  IceTransportError_Closed \<Rightarrow> Some (Inr (), w)
                | _ \<Rightarrow> Some (Inl (DtlsTransportError_Ice e), w))))"

section \<open>Driving the handshake\<close>

definition drive_handshake_locked ::
    "('u, 'j, 'je, 'd, 'l, 'w, 'e, 'h, 'z) dtls_environment \<Rightarrow> ('u, 'j, 'd, 'l, 'z) dtls_scheme \<Rightarrow>
       ((('e, 'je) dtls_error + unit) \<times> ('u, 'j, 'd, 'l, 'z) dtls_scheme) option" where
  "drive_handshake_locked env w =
     (let (ret, l) = SSL_do_handshake env (verify_callback (de_openssl env) (dtls_expected w)) (dtls_ssl w);
          err = SSL_get_error env l ret
      in Option.bind (drain_outbound_locked env (w\<lparr>dtls_ssl := l\<rparr>)) (\<lambda>(r, w).
         case r of
           Inl e \<Rightarrow> Some (Inl e, w)
         | Inr u \<Rightarrow>
             (case err of
                SSL_ERROR_NONE \<Rightarrow>
                  if \<not> dtls_handshake_done w then
                    let w = w\<lparr>dtls_handshake_done := True\<rparr>;
                        w = w\<lparr>dtls_ssl := SSL_set_mtu env 4097 (dtls_ssl w)\<rparr>;
                        w = w\<lparr>dtls_state := DtlsState_Connected\<rparr>
                    in Option.bind (fire_dtls_state_change env DtlsState_Connected w) (\<lambda>w. Some (Inr (), w))
                  else Some (Inr (), w)
              | SSL_ERROR_WANT_READ \<Rightarrow> Some (Inr (), w)
              | SSL_ERROR_WANT_WRITE \<Rightarrow> Some (Inr (), w)
              | other \<Rightarrow> Some (Inl (DtlsTransportError_Handshake other), w))))"

section \<open>Failing and closing\<close>

definition fail_transport ::
    "('u, 'j, 'je, 'd, 'l, 'w, 'e, 'h, 'z) dtls_environment \<Rightarrow> ('u, 'j, 'd, 'l, 'z) dtls_scheme \<Rightarrow>
       ('u, 'j, 'd, 'l, 'z) dtls_scheme option" where
  "fail_transport env w =
     (if dtls_state w \<notin> {DtlsState_Failed, DtlsState_Closed}
      then fire_dtls_state_change env DtlsState_Failed (w\<lparr>dtls_state := DtlsState_Failed\<rparr>)
      else Some w)"

definition bridge_close ::
    "('u, 'j, 'je, 'd, 'l, 'w, 'e, 'h, 'z) dtls_environment \<Rightarrow> ('u, 'j, 'd, 'l, 'z) dtls_scheme \<Rightarrow>
       ((('e, 'je) dtls_error + unit) \<times> ('u, 'j, 'd, 'l, 'z) dtls_scheme) option" where
  "bridge_close env w =
     (let was_closed = dtls_closed w; w = w\<lparr>dtls_closed := True\<rparr> in
      if was_closed then Some (Inr (), w)
      else if dtls_state w \<noteq> DtlsState_Closed then
        Option.bind (fire_dtls_state_change env DtlsState_Closed (w\<lparr>dtls_state := DtlsState_Closed\<rparr>))
          (\<lambda>w. Some (Inr (), w))
      else Some (Inr (), w))"

definition DtlsTransport_close ::
    "('u, 'j, 'je, 'd, 'l, 'w, 'e, 'h, 'z) dtls_environment \<Rightarrow> ('u, 'j, 'd, 'l, 'z) dtls_scheme \<Rightarrow>
       ((('e, 'je) dtls_error + unit) \<times> ('u, 'j, 'd, 'l, 'z) dtls_scheme) option" where
  "DtlsTransport_close env w =
     (let was_closed = dtls_closed w; w = w\<lparr>dtls_closed := True\<rparr> in
      if was_closed then Some (Inr (), w)
      else if dtls_state w \<noteq> DtlsState_Closed then
        Option.bind (fire_dtls_state_change env DtlsState_Closed (w\<lparr>dtls_state := DtlsState_Closed\<rparr>))
          (\<lambda>w. Some (Inr (), w))
      else Some (Inr (), w))"

section \<open>The inbound pump\<close>

text \<open>The read loop; \<open>True\<close> when the peer sent close_notify. The lock is held throughout.\<close>

partial_function (option) read_loop ::
    "('u, 'j, 'je, 'd, 'l, 'w, 'e, 'h, 'z) dtls_environment \<Rightarrow> ('u, 'j, 'd, 'l, 'z) dtls_scheme \<Rightarrow>
       (bool \<times> ('u, 'j, 'd, 'l, 'z) dtls_scheme) option" where
  "read_loop env w =
     (case SSL_read env 4096 (dtls_ssl w) of
        ((ret, buf), l) \<Rightarrow>
          if ret \<le> 0 then
            Some (SSL_get_error env l ret = SSL_ERROR_ZERO_RETURN, w\<lparr>dtls_ssl := l\<rparr>)
          else
            Option.bind (call_dtls_data env (dc_on_data (dtls_callbacks w)) buf (w\<lparr>dtls_ssl := l\<rparr>))
              (read_loop env))"

definition pump_inbound ::
    "('u, 'j, 'je, 'd, 'l, 'w, 'e, 'h, 'z) dtls_environment \<Rightarrow> bytes \<Rightarrow> ('u, 'j, 'd, 'l, 'z) dtls_scheme \<Rightarrow>
       ('u, 'j, 'd, 'l, 'z) dtls_scheme option" where
  "pump_inbound env data w =
     (if dtls_closed w then Some w
      else
        Option.bind (lock_inner w) (\<lambda>w.
          let (written, l) = BIO_write_in env data (dtls_ssl w); w = w\<lparr>dtls_ssl := l\<rparr> in
          if written < 0 then Some (unlock_inner w)
          else
            Option.bind (if dtls_state w = DtlsState_Connecting then drive_handshake_locked env w else Some (Inr (), w))
              (\<lambda>(r, w).
                case r of
                  Inl e \<Rightarrow> fail_transport env (unlock_inner w)
                | Inr u \<Rightarrow>
                    if dtls_state w = DtlsState_Connected then
                      Option.bind (read_loop env w) (\<lambda>(zero_return, w).
                        if zero_return then map_option snd (bridge_close env (unlock_inner w))
                        else Some (unlock_inner w))
                    else Some (unlock_inner w))))"

section \<open>Starting and sending\<close>

definition DtlsTransport_start ::
    "('u, 'j, 'je, 'd, 'l, 'w, 'e, 'h, 'z) dtls_environment \<Rightarrow> ('u, 'j, 'd, 'l, 'z) dtls_scheme \<Rightarrow>
       ((('e, 'je) dtls_error + unit) \<times> ('u, 'j, 'd, 'l, 'z) dtls_scheme) option" where
  "DtlsTransport_start env w =
     (if dtls_closed w then Some (Inl DtlsTransportError_Closed, w)
      else
        let was_started = dtls_started w; w = w\<lparr>dtls_started := True\<rparr> in
        if was_started then Some (Inr (), w)
        else if dtls_state w \<noteq> DtlsState_New then Some (Inr (), w)
        else
          Option.bind (fire_dtls_state_change env DtlsState_Connecting (w\<lparr>dtls_state := DtlsState_Connecting\<rparr>)) (\<lambda>w.
            let prev = ice_callbacks w;
                w = IceTransport_set_callbacks
                      (prev\<lparr>on_state_change := DtlsStateHook (on_state_change prev), on_data := DtlsPump\<rparr>) w;
                mtu = DEFAULT_MTU - (8 + 40)
            in Option.bind (lock_inner w) (\<lambda>w.
                 let w = w\<lparr>dtls_ssl := SSL_set_mtu env mtu (dtls_ssl w)\<rparr> in
                 if dtls_is_client w then
                   Option.bind (drive_handshake_locked env w) (\<lambda>(r, w).
                     case r of
                       Inl (DtlsTransportError_Ice e) \<Rightarrow> Some (Inr (), unlock_inner w)
                     | Inl other \<Rightarrow> Some (Inl other, unlock_inner w)
                     | Inr u \<Rightarrow> Some (Inr (), unlock_inner w))
                 else Some (Inr (), unlock_inner w))))"

definition DtlsTransport_send ::
    "('u, 'j, 'je, 'd, 'l, 'w, 'e, 'h, 'z) dtls_environment \<Rightarrow> bytes \<Rightarrow> ('u, 'j, 'd, 'l, 'z) dtls_scheme \<Rightarrow>
       ((('e, 'je) dtls_error + unit) \<times> ('u, 'j, 'd, 'l, 'z) dtls_scheme) option" where
  "DtlsTransport_send env data w =
     (if dtls_closed w then Some (Inl DtlsTransportError_Closed, w)
      else if dtls_state w \<noteq> DtlsState_Connected then Some (Inl DtlsTransportError_NotConnected, w)
      else
        Option.bind (lock_inner w) (\<lambda>w.
          let (ret, l) = SSL_write env data (dtls_ssl w); w = w\<lparr>dtls_ssl := l\<rparr> in
          if ret \<le> 0 then Some (Inl (DtlsTransportError_Handshake (SSL_get_error env l ret)), unlock_inner w)
          else Option.bind (drain_outbound_locked env w) (\<lambda>(r, w). Some (r, unlock_inner w))))"

definition DtlsTransport_set_remote_fingerprint ::
    "fingerprint \<Rightarrow> ('u, 'j, 'd, 'l, 'z) dtls_scheme \<Rightarrow> ('u, 'j, 'd, 'l, 'z) dtls_scheme" where
  "DtlsTransport_set_remote_fingerprint fp w = w\<lparr>dtls_expected := Some fp\<rparr>"

definition DtlsTransport_local_fingerprint_algorithm :: fingerprint_algorithm where
  "DtlsTransport_local_fingerprint_algorithm = FingerprintAlgorithm_Sha256"

definition DtlsTransport_set_callbacks ::
    "'d dtls_callbacks \<Rightarrow> ('u, 'j, 'd, 'l, 'z) dtls_scheme \<Rightarrow> ('u, 'j, 'd, 'l, 'z) dtls_scheme" where
  "DtlsTransport_set_callbacks callbacks w = w\<lparr>dtls_callbacks := callbacks\<rparr>"

text \<open>The accessors.\<close>

definition DtlsTransport_state :: "('u, 'j, 'd, 'l, 'z) dtls_scheme \<Rightarrow> dtls_state" where
  "DtlsTransport_state w = dtls_state w"

definition DtlsTransport_is_client :: "('u, 'j, 'd, 'l, 'z) dtls_scheme \<Rightarrow> bool" where
  "DtlsTransport_is_client w = dtls_is_client w"

definition DtlsTransport_remote_fingerprint :: "('u, 'j, 'd, 'l, 'z) dtls_scheme \<Rightarrow> fingerprint option" where
  "DtlsTransport_remote_fingerprint w = dtls_expected w"

definition DtlsTransport_callbacks :: "('u, 'j, 'd, 'l, 'z) dtls_scheme \<Rightarrow> 'd dtls_callbacks" where
  "DtlsTransport_callbacks w = 
     \<lparr>dc_on_state_change = dc_on_state_change (dtls_callbacks w), dc_on_data = dc_on_data (dtls_callbacks w)\<rparr>"

section \<open>The closures on ICE\<close>

text \<open>Errors of \<open>start\<close> and of the drain are logged and dropped by the hook.\<close>

definition auto_start ::
    "('u, 'j, 'je, 'd, 'l, 'w, 'e, 'h, 'z) dtls_environment \<Rightarrow> ice_state \<Rightarrow> ('u, 'j, 'd, 'l, 'z) dtls_scheme \<Rightarrow>
       ('u, 'j, 'd, 'l, 'z) dtls_scheme option" where
  "auto_start env s w =
     (if s \<in> {State_Connected, State_Completed} then
        Option.bind (DtlsTransport_start env w) (\<lambda>(_, w).
        Option.bind (lock_inner w) (\<lambda>w.
        Option.bind (drain_outbound_locked env w) (\<lambda>(_, w).
          Some (unlock_inner w))))
      else Some w)"

fun run_ice_state ::
    "('u, 'j, 'je, 'd, 'l, 'w, 'e, 'h, 'z) dtls_environment \<Rightarrow> 'u ice_closure \<Rightarrow> ice_state \<Rightarrow>
       ('u, 'j, 'd, 'l, 'z) dtls_scheme \<Rightarrow> ('u, 'j, 'd, 'l, 'z) dtls_scheme option" where
  "run_ice_state env (IceUser u) s w = call_state_change (de_ice env) (IceUser u) s w"
| "run_ice_state env (DtlsAutoStart prev) s w = Option.bind (auto_start env s w) (run_ice_state env prev s)"
| "run_ice_state env (DtlsStateHook prev) s w =
     Option.bind (run_ice_state env prev s w) (\<lambda>w.
       if s \<in> {State_Failed, State_Closed} then fail_transport env w else Some w)"
| "run_ice_state env DtlsPump s w = Some w"

fun run_ice_data ::
    "('u, 'j, 'je, 'd, 'l, 'w, 'e, 'h, 'z) dtls_environment \<Rightarrow> 'u ice_closure \<Rightarrow> bytes \<Rightarrow>
       ('u, 'j, 'd, 'l, 'z) dtls_scheme \<Rightarrow> ('u, 'j, 'd, 'l, 'z) dtls_scheme option" where
  "run_ice_data env (IceUser u) data w = call_data (de_ice env) (IceUser u) data w"
| "run_ice_data env DtlsPump data w = pump_inbound env data w"
| "run_ice_data env _ data w = Some w"

text \<open>
  The ICE environment of the whole stack: what the operations of \<open>Ice_Transport\<close> run when they
  fire a callback. A state hook is never installed as a receive shim nor the other way
  round, so that the last equations of the two functions are never used.
\<close>

definition stack_ice ::
    "('u, 'j, 'je, 'd, 'l, 'w, 'e, 'h, 'z) dtls_environment \<Rightarrow>
       ('u ice_closure, 'j, 'je, ('u, 'j, 'd, 'l, 'z) dtls_scheme) ice_env" where
  "stack_ice env = (de_ice env)\<lparr>call_state_change := run_ice_state env, call_data := run_ice_data env\<rparr>"

section \<open>Construction\<close>

datatype ssl_option = NO_SSLV3 | NO_COMPRESSION | NO_QUERY_MTU | NO_RENEGOTIATION

datatype ssl_verify_mode = VERIFY_PEER | VERIFY_FAIL_IF_NO_PEER_CERT

text \<open>The calls that build the context and the \<open>SSL\<close> object; a failed \<open>BIO_new\<close> is \<open>None\<close>.\<close>

record ('x, 'l, 'h, 'e) ssl_builder =
  SslContextBuilder_new_dtls :: "'e + 'x"
  ctx_set_options :: "ssl_option list \<Rightarrow> 'x \<Rightarrow> 'x"
  ctx_set_cipher_list :: "str \<Rightarrow> 'x \<Rightarrow> 'e + 'x"
  ctx_set_verify :: "ssl_verify_mode list \<Rightarrow> 'x \<Rightarrow> 'x"
  ctx_set_certificate :: "'h \<Rightarrow> 'x \<Rightarrow> 'e + 'x"
  ctx_set_private_key :: "'h \<Rightarrow> 'x \<Rightarrow> 'e + 'x"
  ctx_check_private_key :: "'x \<Rightarrow> 'e + unit"
  Ssl_new :: "'x \<Rightarrow> 'e + 'l"
  SSL_set_connect_state :: "'l \<Rightarrow> 'l"
  SSL_set_accept_state :: "'l \<Rightarrow> 'l"
  BIO_new_in :: "unit option"
  BIO_new_out :: "unit option"
  SSL_set_bio :: "int \<Rightarrow> 'l \<Rightarrow> 'l"

definition CIPHER_LIST :: str where
  "CIPHER_LIST = ''ALL:!SHA256:!SHA384:!aPSK:!ECDSA+SHA1:!ADH:!LOW:!EXP:!MD5:!3DES:!SSLv3:!TLSv1''"

definition BIO_EOF :: int where
  "BIO_EOF = -1"

definition ossl_err :: "'e + 'a \<Rightarrow> ('e, 'je) dtls_error + 'a" where
  "ossl_err r = (case r of Inl e \<Rightarrow> Inl (DtlsTransportError_OpenSsl e) | Inr x \<Rightarrow> Inr x)"

definition build_ssl_context ::
    "('x, 'l, 'h, 'e) ssl_builder \<Rightarrow> 'h certificate \<Rightarrow> ('e, 'je) dtls_error + 'x" where
  "build_ssl_context sb certificate =
     try_res (ossl_err (SslContextBuilder_new_dtls sb)) (\<lambda>builder.
     let builder = ctx_set_options sb [NO_SSLV3, NO_COMPRESSION, NO_QUERY_MTU, NO_RENEGOTIATION] builder in
     try_res (ossl_err (ctx_set_cipher_list sb CIPHER_LIST builder)) (\<lambda>builder.
     let builder = ctx_set_verify sb [VERIFY_PEER, VERIFY_FAIL_IF_NO_PEER_CERT] builder in
     try_res (ossl_err (ctx_set_certificate sb (cert_x509 certificate) builder)) (\<lambda>builder.
     try_res (ossl_err (ctx_set_private_key sb (cert_pkey certificate) builder)) (\<lambda>builder.
     try_res (ossl_err (ctx_check_private_key sb builder)) (\<lambda>_.
       Inr builder)))))"

definition DtlsTransport_new ::
    "('x, 'l, 'h, 'e) ssl_builder \<Rightarrow> 'h certificate \<Rightarrow> 'd dtls_callbacks \<Rightarrow> ('u ice_closure, 'j) ice \<Rightarrow>
       ('e, 'je) dtls_error + ('u, 'j, 'd, 'l) dtls" where
  "DtlsTransport_new sb certificate callbacks ice =
     (let is_client = (ice_role ice = Role_Active) in
      try_res (build_ssl_context sb certificate) (\<lambda>ctx.
      try_res (ossl_err (Ssl_new sb ctx)) (\<lambda>ssl.
      let ssl = (if is_client then SSL_set_connect_state sb ssl else SSL_set_accept_state sb ssl) in
      try_res (ok_or (BIO_new_in sb) DtlsTransportError_BioAlloc) (\<lambda>_.
      try_res (ok_or (BIO_new_out sb) DtlsTransportError_BioAlloc) (\<lambda>_.
      let ssl = SSL_set_bio sb BIO_EOF ssl;
          prev = ice_callbacks ice;
          ice = IceTransport_set_callbacks (prev\<lparr>on_state_change := DtlsAutoStart (on_state_change prev)\<rparr>) ice
      in Inr (ice.extend ice
           \<lparr>dtls_ssl = ssl, dtls_handshake_done = False, dtls_locked = False, dtls_state = DtlsState_New,
            dtls_callbacks = callbacks, dtls_closed = False, dtls_is_client = is_client,
            dtls_expected = None, dtls_started = False\<rparr>))))))"

section \<open>The outbound drain\<close>

text \<open>
  What OpenSSL documents of a memory BIO: it is a byte queue (\<open>content\<close>), and a read takes
  at most as many bytes as asked for and fails when there are none.
\<close>

definition bio_contract ::
    "('u, 'j, 'je, 'd, 'l, 'w, 'e, 'h, 's) dtls_env \<Rightarrow> ('l \<Rightarrow> bytes) \<Rightarrow> bool" where
  "bio_contract env content \<longleftrightarrow> (\<forall>n l. 0 < n \<longrightarrow>
     fst (BIO_read_out env n l) = (if content l = [] then None else Some (take n (content l))) \<and>
     content (snd (BIO_read_out env n l)) = drop n (content l))"

function chunks :: "nat \<Rightarrow> bytes \<Rightarrow> bytes list" where
  "chunks n bs = (if bs = [] \<or> n = 0 then [] else take n bs # chunks n (drop n bs))"
  by pat_completeness auto
termination by (relation "measure (\<lambda>(n, bs). length bs)") auto

declare chunks.simps [simp del]

lemma chunks_concat: "0 < n \<Longrightarrow> concat (chunks n bs) = bs"
  by (induction n bs rule: chunks.induct) (subst chunks.simps, auto)

text \<open>Sending in order until the agent refuses; the rest is what was not tried.\<close>

fun agent_sends :: "('j \<Rightarrow> bytes \<Rightarrow> ('je + unit) \<times> 'j) \<Rightarrow> 'j \<Rightarrow> bytes list \<Rightarrow> ('je + unit) \<times> 'j \<times> bytes list" where
  "agent_sends f j [] = (Inr (), j, [])"
| "agent_sends f j (c # cs) = (case f j c of (Inr u, j) \<Rightarrow> agent_sends f j cs | (Inl e, j) \<Rightarrow> (Inl e, j, cs))"

lemma drain_outbound_spec:
  assumes "bio_contract env content" "\<not> ice_closed w"
    and "agent_sends (juice_send (de_ice env)) (ice_agent w) (chunks 4096 (content (dtls_ssl w))) = (r, j, rest)"
  shows "\<exists>l. drain_outbound_locked env w =
      Some (case r of Inl e \<Rightarrow> Inl (DtlsTransportError_Ice (IceTransportError_Juice e)) | Inr u \<Rightarrow> Inr (),
            w\<lparr>dtls_ssl := l, ice_agent := j\<rparr>) \<and> content l = concat rest"
  using assms(2,3)
proof (induction "length (content (dtls_ssl w))" arbitrary: w rule: less_induct)
  case less
  obtain rd l where l: "BIO_read_out env 4096 (dtls_ssl w) = (rd, l)" by force
  have rd: "rd = (if content (dtls_ssl w) = [] then None else Some (take 4096 (content (dtls_ssl w))))"
    "content l = drop 4096 (content (dtls_ssl w))"
    using assms(1) l unfolding bio_contract_def by (metis fst_conv snd_conv zero_less_numeral)+
  show ?case
  proof (cases "content (dtls_ssl w) = []")
    case True
    with less.prems rd l show ?thesis
      by (subst drain_outbound_locked.simps) (auto simp: chunks.simps intro!: exI [of _ l])
  next
    case False
    let ?c = "take 4096 (content (dtls_ssl w))"
    have chunks: "chunks 4096 (content (dtls_ssl w)) = ?c # chunks 4096 (content l)"
      using False rd by (subst chunks.simps) simp
    obtain s j1 where s: "juice_send (de_ice env) (ice_agent w) ?c = (s, j1)" by force
    have unfold_drain: "drain_outbound_locked env w =
        (case map_juice_err s of
           Inr u \<Rightarrow> drain_outbound_locked env (w\<lparr>dtls_ssl := l, ice_agent := j1\<rparr>)
         | Inl e \<Rightarrow> (case e of IceTransportError_Closed \<Rightarrow> Some (Inr (), w\<lparr>dtls_ssl := l, ice_agent := j1\<rparr>)
             | _ \<Rightarrow> Some (Inl (DtlsTransportError_Ice e), w\<lparr>dtls_ssl := l, ice_agent := j1\<rparr>)))"
      using False l rd less.prems(1) s by (subst drain_outbound_locked.simps) (simp add: IceTransport_send_def)
    show ?thesis
    proof (cases s)
      case (Inl e)
      with less.prems(2) s chunks rd show ?thesis
        by (auto simp: unfold_drain map_juice_err_def chunks_concat intro!: exI [of _ l])
    next
      case (Inr u)
      let ?w = "w\<lparr>dtls_ssl := l, ice_agent := j1\<rparr>"
      have "length (content (dtls_ssl ?w)) < length (content (dtls_ssl w))" using False rd by simp
      moreover have "agent_sends (juice_send (de_ice env)) (ice_agent ?w) (chunks 4096 (content (dtls_ssl ?w))) = (r, j, rest)"
        using less.prems(2) s chunks Inr by simp
      ultimately obtain l' where "drain_outbound_locked env ?w =
          Some (case r of Inl e \<Rightarrow> Inl (DtlsTransportError_Ice (IceTransportError_Juice e)) | Inr u \<Rightarrow> Inr (),
            ?w\<lparr>dtls_ssl := l', ice_agent := j\<rparr>)" "content l' = concat rest"
        using less.hyps [of ?w] less.prems(1) by auto
      with Inr show ?thesis by (auto simp: unfold_drain map_juice_err_def intro!: exI [of _ l'])
    qed
  qed
qed

lemma drain_closed:
  assumes "ice_closed w"
  shows "\<exists>l. drain_outbound_locked env w = Some (Inr (), w\<lparr>dtls_ssl := l\<rparr>)"
  using assms by (subst drain_outbound_locked.simps) (auto simp: IceTransport_send_def split: prod.splits option.splits)

section \<open>Sequences of calls\<close>

text \<open>
  The calls of the DTLS transport and, as \<open>Dtls_ice\<close>, those of the ICE transport below it and
  of the agent's handlers, whose callbacks run the closures installed on ICE.
\<close>

datatype ('u, 'd) dtls_op =
    Dtls_start
  | Dtls_send bytes
  | Dtls_close
  | Dtls_set_callbacks "'d dtls_callbacks"
  | Dtls_set_remote_fingerprint fingerprint
  | Dtls_ice "'u ice_closure ice_op"

fun run_dtls ::
    "('u, 'j, 'je, 'd, 'l, 'w, 'e, 'h, 'z) dtls_environment \<Rightarrow> ('u, 'd) dtls_op \<Rightarrow>
       ('u, 'j, 'd, 'l, 'z) dtls_scheme \<Rightarrow> ('u, 'j, 'd, 'l, 'z) dtls_scheme option" where
  "run_dtls env Dtls_start w = map_option snd (DtlsTransport_start env w)"
| "run_dtls env (Dtls_send data) w = map_option snd (DtlsTransport_send env data w)"
| "run_dtls env Dtls_close w = map_option snd (DtlsTransport_close env w)"
| "run_dtls env (Dtls_set_callbacks cs) w = Some (DtlsTransport_set_callbacks cs w)"
| "run_dtls env (Dtls_set_remote_fingerprint fp) w = Some (DtlsTransport_set_remote_fingerprint fp w)"
| "run_dtls env (Dtls_ice op) w = run_ice (stack_ice env) op w"

fun dtls_gated :: "('u, 'd) dtls_op \<Rightarrow> bool" where
  "dtls_gated Dtls_start = True"
| "dtls_gated (Dtls_send data) = True"
| "dtls_gated Dtls_close = True"
| "dtls_gated op = False"

lemma bridge_close_eq: "bridge_close = DtlsTransport_close"
  by (intro ext) (simp add: bridge_close_def DtlsTransport_close_def)

lemma dtls_closed_ops:
  assumes "dtls_closed w"
  shows "DtlsTransport_start env w = Some (Inl DtlsTransportError_Closed, w)"
    "DtlsTransport_send env data w = Some (Inl DtlsTransportError_Closed, w)"
    "DtlsTransport_close env w = Some (Inr (), w)"
    "pump_inbound env data w = Some w"
  using assms by (simp_all add: DtlsTransport_start_def DtlsTransport_send_def DtlsTransport_close_def pump_inbound_def Let_def)

interpretation dtls_closable: closable "run_dtls env" dtls_closed dtls_gated for env
  by unfold_locales (case_tac op, simp_all add: dtls_closed_ops)

end
