(* ===== verification/Dtls_Runs.thy ===== *)
theory Dtls_Runs
  imports Dtls_Transport
begin

text \<open>
  Runs of the DTLS transport: the application's callbacks as programs over the operations of the
  whole stack, the interface that an invariant of such runs has to meet, and the two invariants
  that meet it, the life cycle of the transport and the authentication of the peer.
\<close>

section \<open>What the loops keep\<close>

lemma drain_preserves:
  assumes "drain_outbound_locked env w = Some (r, w')" "Q w"
    and read: "\<And>v k. Q v \<Longrightarrow> Q (v\<lparr>dtls_ssl := snd (BIO_read_out env k (dtls_ssl v))\<rparr>)"
    and send: "\<And>v data. Q v \<Longrightarrow> Q (snd (IceTransport_send (de_ice env) data v))"
  shows "Q w'"
proof -
  have "env' = env \<longrightarrow> Q w \<longrightarrow> Q (snd x)" if "drain_outbound_locked env' w = Some x" for env' w x
  proof (rule drain_outbound_locked.raw_induct [where P = "\<lambda>env' w x. env' = env \<longrightarrow> Q w \<longrightarrow> Q (snd x)", OF _ that])
    fix loop env' w x
    assume 1: "\<And>env' w x. loop env' w = Some x \<Longrightarrow> env' = env \<longrightarrow> Q w \<longrightarrow> Q (snd x)"
      "(case BIO_read_out env' 4096 (dtls_ssl w) of
          (None, l) \<Rightarrow> Some (Inr (), w\<lparr>dtls_ssl := l\<rparr>)
        | (Some rec, l) \<Rightarrow>
            (case IceTransport_send (de_ice env') rec (w\<lparr>dtls_ssl := l\<rparr>) of
               (Inr u, w) \<Rightarrow> loop env' w
             | (Inl e, w) \<Rightarrow>
                 (case e of
                    IceTransportError_Closed \<Rightarrow> Some (Inr (), w)
                  | _ \<Rightarrow> Some (Inl (DtlsTransportError_Ice e), w)))) = Some x"
    have "Q (snd x)" if "env' = env" "Q w"
    proof -
      obtain rd l where l: "BIO_read_out env 4096 (dtls_ssl w) = (rd, l)" by force
      with read [OF \<open>Q w\<close>, of 4096] have Q: "Q (w\<lparr>dtls_ssl := l\<rparr>)" by simp
      show ?thesis
      proof (cases rd)
        case None
        with 1(2) l Q \<open>env' = env\<close> show ?thesis by auto
      next
        case (Some data)
        obtain q v where v: "IceTransport_send (de_ice env) data (w\<lparr>dtls_ssl := l\<rparr>) = (q, v)" by force
        with send [OF Q, of data] have "Q v" by simp
        with 1 l v Some \<open>env' = env\<close> show ?thesis by (auto split: sum.splits ice_error.splits)
      qed
    qed
    then show "env' = env \<longrightarrow> Q w \<longrightarrow> Q (snd x)" by blast
  qed
  with assms(1,2) show ?thesis by fastforce
qed

lemma read_loop_preserves:
  assumes "read_loop env w = Some (b, w')" "Q w"
    and read: "\<And>v k. Q v \<Longrightarrow> Q (v\<lparr>dtls_ssl := snd (SSL_read env k (dtls_ssl v))\<rparr>)"
    and call: "\<And>d data v v'. call_dtls_data env d data v = Some v' \<Longrightarrow> Q v \<Longrightarrow> Q v'"
  shows "Q w'"
proof -
  have "env' = env \<longrightarrow> Q w \<longrightarrow> Q (snd x)" if "read_loop env' w = Some x" for env' w x
  proof (rule read_loop.raw_induct [where P = "\<lambda>env' w x. env' = env \<longrightarrow> Q w \<longrightarrow> Q (snd x)", OF _ that])
    fix loop env' w x
    assume 1: "\<And>env' w x. loop env' w = Some x \<Longrightarrow> env' = env \<longrightarrow> Q w \<longrightarrow> Q (snd x)"
      "(case SSL_read env' 4096 (dtls_ssl w) of
          ((ret, buf), l) \<Rightarrow>
            if ret \<le> 0 then
              Some (SSL_get_error env' l ret = SSL_ERROR_ZERO_RETURN, w\<lparr>dtls_ssl := l\<rparr>)
            else
              Option.bind (call_dtls_data env' (dc_on_data (dtls_callbacks w)) buf (w\<lparr>dtls_ssl := l\<rparr>)) (loop env')) = Some x"
    have "Q (snd x)" if "env' = env" "Q w"
    proof -
      obtain ret buf l where l: "SSL_read env 4096 (dtls_ssl w) = ((ret, buf), l)" by (metis surj_pair)
      with read [OF \<open>Q w\<close>, of 4096] have "Q (w\<lparr>dtls_ssl := l\<rparr>)" by simp
      with 1 l \<open>env' = env\<close> show ?thesis
        by (cases x) (auto simp: bind_eq_Some_conv split: if_splits dest!: call)
    qed
    then show "env' = env \<longrightarrow> Q w \<longrightarrow> Q (snd x)" by blast
  qed
  with assms(1,2) show ?thesis by fastforce
qed

section \<open>Callbacks as programs\<close>

text \<open>
  As for ICE: a callback is a sequence of calls, chosen from the closure, the event and the world.
  How the world takes note of an event (\<open>notify\<close>) is a parameter, so that a transport on top may
  keep its own record. \<open>n\<close> bounds the nesting of callbacks.
\<close>

datatype dtls_event = Ev_ice ice_event | Ev_dtls_state dtls_state | Ev_dtls_data bytes

type_synonym ('u, 'd, 's) dtls_script = "('u ice_closure + 'd) \<Rightarrow> dtls_event \<Rightarrow> 's \<Rightarrow> ('u, 'd) dtls_op list"

primrec scripted_dtls ::
    "(dtls_event \<Rightarrow> ('u, 'j, 'd, 'l, 'z) dtls_scheme \<Rightarrow> ('u, 'j, 'd, 'l, 'z) dtls_scheme) \<Rightarrow>
       ('u, 'd, ('u, 'j, 'd, 'l, 'z) dtls_scheme) dtls_script \<Rightarrow>
       ('u, 'j, 'je, 'd, 'l, 'w, 'e, 'h, 'z) dtls_environment \<Rightarrow> nat \<Rightarrow>
       ('u, 'j, 'je, 'd, 'l, 'w, 'e, 'h, 'z) dtls_environment" where
  "scripted_dtls notify script env 0 = env\<lparr>
     de_ice := (de_ice env)\<lparr>call_state_change := (\<lambda>_ _ _. None), call_gathering_state_change := (\<lambda>_ _ _. None),
       call_candidate := (\<lambda>_ _ _. None), call_data := (\<lambda>_ _ _. None)\<rparr>,
     call_dtls_state_change := (\<lambda>_ _ _. None), call_dtls_data := (\<lambda>_ _ _. None)\<rparr>"
| "scripted_dtls notify script env (Suc n) =
     (let run = (\<lambda>c e w. run_all (run_dtls (scripted_dtls notify script env n)) (script c e (notify e w)) (notify e w)) in
      env\<lparr>
        de_ice := (de_ice env)\<lparr>
          call_state_change := (\<lambda>c s. run (Inl c) (Ev_ice (Ev_state s))),
          call_gathering_state_change := (\<lambda>c g. run (Inl c) (Ev_ice (Ev_gathering g))),
          call_candidate := (\<lambda>c cand. run (Inl c) (Ev_ice (Ev_candidate cand))),
          call_data := (\<lambda>c data. run (Inl c) (Ev_ice (Ev_data data)))\<rparr>,
        call_dtls_state_change := (\<lambda>d s. run (Inr d) (Ev_dtls_state s)),
        call_dtls_data := (\<lambda>d data. run (Inr d) (Ev_dtls_data data))\<rparr>)"

text \<open>The fingerprints that an operation pins.\<close>

fun op_pins :: "('u, 'd) dtls_op \<Rightarrow> fingerprint set" where
  "op_pins (Dtls_set_remote_fingerprint fp) = {fp}"
| "op_pins op = {}"

section \<open>What the operations keep\<close>

text \<open>
  \<open>dtls_operations\<close> is what the closures and the operations of the whole stack keep when \<open>start\<close>, \<open>send\<close>, \<open>close\<close>,
  \<open>fail_transport\<close>, the pump and the drain do, and the predicate reads nothing of ICE.
\<close>

locale dtls_operations = ice_frame P
  for P :: "('u, 'j, 'd, 'l, 'z) dtls_scheme \<Rightarrow> bool" +
  fixes env :: "('u, 'j, 'je, 'd, 'l, 'w, 'e, 'h, 'z) dtls_environment"
    and pins :: "fingerprint set"
  assumes ops_callbacks: "P (w\<lparr>dtls_callbacks := ds\<rparr>) = P w"
    and ops_start: "DtlsTransport_start env w = Some (r, w') \<Longrightarrow> P w \<Longrightarrow> P w'"
    and ops_drain: "lock_inner w = Some v \<Longrightarrow> drain_outbound_locked env v = Some (q, v') \<Longrightarrow> P w \<Longrightarrow> P (unlock_inner v')"
    and ops_send: "DtlsTransport_send env data w = Some (r, w') \<Longrightarrow> P w \<Longrightarrow> P w'"
    and ops_close: "DtlsTransport_close env w = Some (r, w') \<Longrightarrow> P w \<Longrightarrow> P w'"
    and ops_fail: "fail_transport env w = Some w' \<Longrightarrow> P w \<Longrightarrow> P w'"
    and ops_pump: "pump_inbound env data w = Some w' \<Longrightarrow> P w \<Longrightarrow> P w'"
    and ops_pin: "P w \<Longrightarrow> fp \<in> pins \<Longrightarrow> P (w\<lparr>dtls_expected := Some fp\<rparr>)"
    and ops_ice: "ice_calls_keep (de_ice env) P"
begin

lemma auto_start_keeps: "auto_start env s w = Some w' \<Longrightarrow> P w \<Longrightarrow> P w'"
  by (auto simp: auto_start_def bind_eq_Some_conv split: if_splits intro: ops_drain ops_start)

lemma run_ice_state_keeps: "run_ice_state env c s w = Some w' \<Longrightarrow> P w \<Longrightarrow> P w'"
proof (induction c arbitrary: w w')
  case (IceUser u)
  then show ?case using ice_calls_keepD(1) [OF ops_ice] by simp
next
  case (DtlsAutoStart c)
  then show ?case by (auto simp: bind_eq_Some_conv dest: auto_start_keeps)
next
  case (DtlsStateHook c)
  then show ?case by (auto simp: bind_eq_Some_conv split: if_splits dest: ops_fail)
qed simp

lemma run_ice_data_keeps: "run_ice_data env c data w = Some w' \<Longrightarrow> P w \<Longrightarrow> P w'"
  using ops_pump ice_calls_keepD(4) [OF ops_ice] by (cases c) auto

lemma stack_calls_keep: "ice_calls_keep (stack_ice env) P"
  using ops_ice run_ice_state_keeps run_ice_data_keeps
  unfolding ice_calls_keep_def stack_ice_def by simp

lemma run_keeps:
  assumes "run_dtls env op w = Some w'" "op_pins op \<subseteq> pins" "P w"
  shows "P w'"
proof (cases op)
  case (Dtls_ice iop)
  with assms run_ice_keeps [OF stack_calls_keep] show ?thesis by simp
qed (use assms ops_start ops_send ops_close ops_pin in
    \<open>auto simp: DtlsTransport_set_callbacks_def DtlsTransport_set_remote_fingerprint_def ops_callbacks\<close>)

lemma run_all_keeps:
  "run_all (run_dtls env) ops w = Some w' \<Longrightarrow> (\<forall>op \<in> set ops. op_pins op \<subseteq> pins) \<Longrightarrow> P w \<Longrightarrow> P w'"
  by (induction ops arbitrary: w) (auto simp: bind_eq_Some_conv intro: run_keeps)

end

section \<open>The interface of an invariant\<close>

text \<open>
  \<open>dtls_guarantee\<close> lists what a predicate has to withstand to be an invariant of the transport: the
  single assignments of the code, each under the condition under which the code makes it, and
  every call into OpenSSL. \<open>finished\<close> is what a completed handshake establishes of
  the \<open>SSL\<close> object, \<open>pins\<close> the fingerprints that may be pinned.
\<close>

locale dtls_guarantee = ice_frame P
  for P :: "('u, 'j, 'd, 'l, 'z) dtls_scheme \<Rightarrow> bool" +
  fixes env :: "('u, 'j, 'je, 'd, 'l, 'w, 'e, 'h, 'z) dtls_environment"
    and notify :: "dtls_event \<Rightarrow> ('u, 'j, 'd, 'l, 'z) dtls_scheme \<Rightarrow> ('u, 'j, 'd, 'l, 'z) dtls_scheme"
    and finished :: "'l \<Rightarrow> bool"
    and pins :: "fingerprint set"
  assumes lock_frame: "P (w\<lparr>dtls_locked := b\<rparr>) = P w"
    and callbacks_frame: "P (w\<lparr>dtls_callbacks := ds\<rparr>) = P w"
    and notify_ice: "P w \<Longrightarrow> P (notify (Ev_ice e) w)"
    and notify_data: "P w \<Longrightarrow> P (notify (Ev_dtls_data data) w)"
    and bio_write: "P w \<Longrightarrow> P (w\<lparr>dtls_ssl := snd (BIO_write_in env data (dtls_ssl w))\<rparr>)"
    and bio_read: "P w \<Longrightarrow> P (w\<lparr>dtls_ssl := snd (BIO_read_out env k (dtls_ssl w))\<rparr>)"
    and ssl_write: "P w \<Longrightarrow> P (w\<lparr>dtls_ssl := snd (SSL_write env data (dtls_ssl w))\<rparr>)"
    and ssl_read: "P w \<Longrightarrow> P (w\<lparr>dtls_ssl := snd (SSL_read env k (dtls_ssl w))\<rparr>)"
    and ssl_mtu: "P w \<Longrightarrow> P (w\<lparr>dtls_ssl := SSL_set_mtu env k (dtls_ssl w)\<rparr>)"
    and handshake: "P w \<Longrightarrow>
      P (w\<lparr>dtls_ssl := snd (SSL_do_handshake env (verify_callback (de_openssl env) (dtls_expected w)) (dtls_ssl w))\<rparr>)"
    and handshake_finished: "P w \<Longrightarrow>
      SSL_do_handshake env (verify_callback (de_openssl env) (dtls_expected w)) (dtls_ssl w) = (ret, l) \<Longrightarrow>
      SSL_get_error env l ret = SSL_ERROR_NONE \<Longrightarrow> finished l"
    and finished_read: "finished l \<Longrightarrow> finished (snd (BIO_read_out env k l))"
    and set_started: "P w \<Longrightarrow> P (w\<lparr>dtls_started := True\<rparr>)"
    and set_connecting: "P w \<Longrightarrow> \<not> dtls_closed w \<Longrightarrow> \<not> dtls_started w \<Longrightarrow> dtls_state w = DtlsState_New \<Longrightarrow>
      P (notify (Ev_dtls_state DtlsState_Connecting) (w\<lparr>dtls_started := True, dtls_state := DtlsState_Connecting\<rparr>))"
    and set_connected: "P w \<Longrightarrow> finished (dtls_ssl w) \<Longrightarrow> \<not> dtls_handshake_done w \<Longrightarrow>
      P (notify (Ev_dtls_state DtlsState_Connected)
        (w\<lparr>dtls_handshake_done := True, dtls_ssl := SSL_set_mtu env 4097 (dtls_ssl w), dtls_state := DtlsState_Connected\<rparr>))"
    and set_failed: "P w \<Longrightarrow> dtls_state w \<notin> {DtlsState_Failed, DtlsState_Closed} \<Longrightarrow>
      P (notify (Ev_dtls_state DtlsState_Failed) (w\<lparr>dtls_state := DtlsState_Failed\<rparr>))"
    and set_closed: "P w \<Longrightarrow> \<not> dtls_closed w \<Longrightarrow> dtls_state w \<noteq> DtlsState_Closed \<Longrightarrow>
      P (notify (Ev_dtls_state DtlsState_Closed) (w\<lparr>dtls_closed := True, dtls_state := DtlsState_Closed\<rparr>))"
    and set_closed_quiet: "P w \<Longrightarrow> \<not> dtls_closed w \<Longrightarrow> dtls_state w = DtlsState_Closed \<Longrightarrow> P (w\<lparr>dtls_closed := True\<rparr>)"
    and set_pin: "P w \<Longrightarrow> fp \<in> pins \<Longrightarrow> P (w\<lparr>dtls_expected := Some fp\<rparr>)"

text \<open>An environment whose callbacks keep the predicate, once their event is noted.\<close>

locale dtls_running = dtls_guarantee +
  assumes state_call: "call_dtls_state_change env c s w = Some w' \<Longrightarrow> P (notify (Ev_dtls_state s) w) \<Longrightarrow> P w'"
    and data_call: "call_dtls_data env c data w = Some w' \<Longrightarrow> P w \<Longrightarrow> P w'"
    and ice_calls: "ice_calls_keep (de_ice env) P"
begin

lemmas frames = ice_frame lock_frame callbacks_frame

lemma send_keeps:
  "P (snd (IceTransport_send (de_ice env) data w)) = P w"
  "dtls_ssl (snd (IceTransport_send (de_ice env) data w)) = dtls_ssl w"
  by (simp_all add: IceTransport_send_def ice_frame split: prod.splits)

lemma drain_keeps:
  assumes "drain_outbound_locked env w = Some (r, w')" "P w"
  shows "P w'" "finished (dtls_ssl w) \<Longrightarrow> finished (dtls_ssl w')"
  using drain_preserves [OF assms(1), of P] assms(2) bio_read
    drain_preserves [OF assms(1), of "\<lambda>v. finished (dtls_ssl v)"] finished_read
  by (simp_all add: send_keeps)

lemma drive_keeps:
  assumes "drive_handshake_locked env w = Some (r, w')" "P w"
  shows "P w'"
proof -
  obtain ret l where l: "SSL_do_handshake env (verify_callback (de_openssl env) (dtls_expected w)) (dtls_ssl w) = (ret, l)"
    by force
  from handshake [OF assms(2)] l have P: "P (w\<lparr>dtls_ssl := l\<rparr>)" by simp
  from assms(1) l obtain q v where v: "drain_outbound_locked env (w\<lparr>dtls_ssl := l\<rparr>) = Some (q, v)"
    by (auto simp: drive_handshake_locked_def Let_def bind_eq_Some_conv)
  have "P v" using drain_keeps(1) [OF v P] .
  moreover have "finished (dtls_ssl v)" if "SSL_get_error env l ret = SSL_ERROR_NONE"
    using drain_keeps(2) [OF v P] handshake_finished [OF assms(2) l that] by simp
  ultimately show ?thesis
    using assms(1) l v
    by (auto simp: drive_handshake_locked_def Let_def fire_dtls_state_change_def bind_eq_Some_conv
        split: sum.splits ssl_error.splits if_splits intro: state_call set_connected)
qed

lemma fail_keeps: "fail_transport env w = Some w' \<Longrightarrow> P w \<Longrightarrow> P w'"
  by (auto simp: fail_transport_def fire_dtls_state_change_def split: if_splits intro: state_call set_failed)

lemma close_keeps: "DtlsTransport_close env w = Some (r, w') \<Longrightarrow> P w \<Longrightarrow> P w'"
  by (cases "dtls_closed w", simp add: dtls_closed_ops)
    (auto simp: DtlsTransport_close_def Let_def fire_dtls_state_change_def
      bind_eq_Some_conv split: if_splits intro: state_call set_closed set_closed_quiet)

lemma pump_keeps:
  assumes "pump_inbound env data w = Some w'" "P w"
  shows "P w'"
proof (cases "dtls_closed w")
  case False
  obtain wr l where l: "BIO_write_in env data (dtls_ssl w) = (wr, l)" by force
  let ?w = "w\<lparr>dtls_locked := True, dtls_ssl := l\<rparr>"
  have P: "P ?w" using bio_write [of "w\<lparr>dtls_locked := True\<rparr>" data] l assms(2) by (simp add: lock_frame)
  have unlock: "P (unlock_inner v) = P v" for v by (simp add: unlock_inner_def lock_frame)
  show ?thesis
  proof (cases "wr < 0 \<or> dtls_locked w")
    case True
    with assms(1) l P False show ?thesis by (auto simp: pump_inbound_def lock_inner_def unlock Let_def split: if_splits)
  next
    case False
    with assms(1) l \<open>\<not> dtls_closed w\<close> obtain r v where
      v: "(if dtls_state ?w = DtlsState_Connecting then drive_handshake_locked env ?w else Some (Inr (), ?w)) = Some (r, v)"
      and rest: "(case r of Inl e \<Rightarrow> fail_transport env (unlock_inner v)
        | Inr u \<Rightarrow> if dtls_state v = DtlsState_Connected
            then Option.bind (read_loop env v) (\<lambda>(zero_return, w).
              if zero_return then map_option snd (bridge_close env (unlock_inner w)) else Some (unlock_inner w))
            else Some (unlock_inner v)) = Some w'"
      by (auto simp: pump_inbound_def lock_inner_def Let_def bind_eq_Some_conv)
    have "P v" using v P drive_keeps by (auto split: if_splits)
    moreover have "P u" if "read_loop env v = Some (z, u)" for z u
      using read_loop_preserves [OF that, of P] \<open>P v\<close> ssl_read data_call by blast
    ultimately show ?thesis
      using rest by (auto simp: unlock bridge_close_eq bind_eq_Some_conv split: sum.splits if_splits
        dest: fail_keeps close_keeps)
  qed
qed (use assms in \<open>simp add: dtls_closed_ops\<close>)

lemma start_keeps:
  assumes "DtlsTransport_start env w = Some (r, w')" "P w"
  shows "P w'"
proof (cases "\<not> dtls_closed w \<and> \<not> dtls_started w \<and> dtls_state w = DtlsState_New")
  case True
  let ?w = "w\<lparr>dtls_started := True, dtls_state := DtlsState_Connecting\<rparr>"
  from True assms(1) obtain v where v: "fire_dtls_state_change env DtlsState_Connecting ?w = Some v"
    by (auto simp: DtlsTransport_start_def Let_def bind_eq_Some_conv)
  have "P v" using v set_connecting [OF assms(2)] True state_call by (auto simp: fire_dtls_state_change_def)
  let ?prev = "ice_callbacks v"
  let ?v = "IceTransport_set_callbacks
    (?prev\<lparr>on_state_change := DtlsStateHook (on_state_change ?prev), on_data := DtlsPump\<rparr>) v"
  define u where "u = ?v\<lparr>dtls_locked := True, dtls_ssl := SSL_set_mtu env (DEFAULT_MTU - 48) (dtls_ssl ?v)\<rparr>"
  have "P u"
    using \<open>P v\<close> ssl_mtu [of "?v\<lparr>dtls_locked := True\<rparr>" "DEFAULT_MTU - 48"]
    by (simp add: u_def IceTransport_set_callbacks_def frames)
  moreover have "(if dtls_is_client u then
      Option.bind (drive_handshake_locked env u) (\<lambda>(r, w).
        case r of
          Inl (DtlsTransportError_Ice e) \<Rightarrow> Some (Inr (), unlock_inner w)
        | Inl other \<Rightarrow> Some (Inl other, unlock_inner w)
        | Inr u \<Rightarrow> Some (Inr (), unlock_inner w))
      else Some (Inr (), unlock_inner u)) = Some (r, w')"
    using True assms(1) v by (simp add: DtlsTransport_start_def lock_inner_def Let_def u_def split: if_split_asm)
  then have "\<exists>q x. w' = unlock_inner x \<and> (x = u \<or> drive_handshake_locked env u = Some (q, x))"
    by (cases "drive_handshake_locked env u") (auto split: if_splits sum.split_asm dtls_error.split_asm, blast+)
  ultimately show ?thesis using drive_keeps by (auto simp: unlock_inner_def lock_frame)
qed (use assms set_started in \<open>auto simp: DtlsTransport_start_def Let_def split: if_splits\<close>)

lemma dtls_send_keeps:
  assumes "DtlsTransport_send env data w = Some (r, w')" "P w"
  shows "P w'"
proof -
  obtain ret l where l: "SSL_write env data (dtls_ssl w) = (ret, l)" by force
  have P: "P (w\<lparr>dtls_locked := True, dtls_ssl := l\<rparr>)"
    using ssl_write [of "w\<lparr>dtls_locked := True\<rparr>" data] l assms(2) by (simp add: lock_frame)
  have unlock: "P (unlock_inner v) = P v" for v by (simp add: unlock_inner_def lock_frame)
  show ?thesis
    using assms l P drain_keeps(1)
    by (auto simp: DtlsTransport_send_def lock_inner_def unlock Let_def bind_eq_Some_conv split: if_splits)
qed

lemma operations: "dtls_operations P env pins"
  by unfold_locales
    (auto simp: callbacks_frame lock_inner_def unlock_inner_def lock_frame ice_calls split: if_splits
      intro: start_keeps dtls_send_keeps close_keeps fail_keeps pump_keeps set_pin dest!: drain_keeps(1))

end

text \<open>A guarantee holds in the scripted environments, by induction over the nesting depth.\<close>

lemma guarantee_running:
  assumes guarantee: "dtls_guarantee P env notify finished pins"
    and script: "\<And>c e v op. op \<in> set (script c e v) \<Longrightarrow> op_pins op \<subseteq> pins"
  shows "dtls_running P (scripted_dtls notify script env n) notify finished pins"
proof (induction n)
  case 0
  have "dtls_guarantee P (scripted_dtls notify script env 0) notify finished pins"
    using guarantee unfolding dtls_guarantee_def dtls_guarantee_axioms_def by simp
  then show ?case
    by (simp add: dtls_running_def dtls_running_axioms_def ice_calls_keep_def)
next
  case (Suc n)
  note keeps = dtls_operations.run_all_keeps [OF dtls_running.operations [OF Suc]] and iface = dtls_running.axioms(1) [OF Suc]
  have guarantee: "dtls_guarantee P (scripted_dtls notify script env (Suc n)) notify finished pins"
    using guarantee unfolding dtls_guarantee_def dtls_guarantee_axioms_def by (simp add: Let_def)
  have runs: "P w'" if "run_all (run_dtls (scripted_dtls notify script env n)) (script c e v) w = Some w'" "P w" for c e v w w'
    using keeps [OF that(1) _ that(2)] script by blast
  have noted: "P (notify (Ev_ice e) w)" "P (notify (Ev_dtls_data data) w)" if "P w" for e data w
    using dtls_guarantee.notify_ice [OF iface that] dtls_guarantee.notify_data [OF iface that] .
  show ?case
    unfolding dtls_running_def dtls_running_axioms_def ice_calls_keep_def
    by (intro conjI guarantee) (auto simp: Let_def elim!: runs intro: noted)
qed

section \<open>The life cycle\<close>

record ('u, 'j, 'd, 'l) dtls_logged = "('u, 'j, 'd, 'l) dtls" +
  dtls_log :: "dtls_event list"

definition log_dtls :: "dtls_event \<Rightarrow> ('u, 'j, 'd, 'l, 'z) dtls_logged_scheme \<Rightarrow> ('u, 'j, 'd, 'l, 'z) dtls_logged_scheme" where
  "log_dtls e w = w\<lparr>dtls_log := dtls_log w @ [e]\<rparr>"

fun dtls_states :: "dtls_event list \<Rightarrow> dtls_state list" where
  "dtls_states [] = []"
| "dtls_states (Ev_dtls_state s # es) = s # dtls_states es"
| "dtls_states (e # es) = dtls_states es"

lemma dtls_states_append: "dtls_states (es @ es') = dtls_states es @ dtls_states es'"
  by (induction es rule: dtls_states.induct) simp_all

text \<open>
  The state is the one that was reported last; Closed has been reported once if the transport
  is closed and not otherwise, Connected once if the handshake is done, Connecting at most
  once and only after a start.
\<close>

definition lifecycle :: "('u, 'j, 'd, 'l, 'z) dtls_logged_scheme \<Rightarrow> bool" where
  "lifecycle w \<longleftrightarrow> (let states = dtls_states (dtls_log w) in
     dtls_state w = last (DtlsState_New # states) \<and>
     DtlsState_New \<notin> set states \<and>
     count_list states DtlsState_Closed = (if dtls_closed w then 1 else 0) \<and>
     count_list states DtlsState_Connected = (if dtls_handshake_done w then 1 else 0) \<and>
     count_list states DtlsState_Connecting \<le> (if dtls_started w then 1 else 0))"

lemma lifecycle_closed: "lifecycle w \<Longrightarrow> dtls_state w = DtlsState_Closed \<Longrightarrow> dtls_closed w"
  by (cases "dtls_states (dtls_log w)" rule: rev_cases) (auto simp: lifecycle_def Let_def split: if_splits)

lemmas lifecycle_simps = lifecycle_def Let_def log_dtls_def dtls_states_append

interpretation lifecycle: dtls_guarantee lifecycle env log_dtls "\<lambda>_. True" UNIV for env
  by unfold_locales (auto simp: lifecycle_simps split: if_splits, (metis count_list_0_iff last_in_set)+)

interpretation lifecycle_run: dtls_running lifecycle "scripted_dtls log_dtls script env n" log_dtls "\<lambda>_. True" UNIV
  for script env n
  by (rule guarantee_running, rule lifecycle.dtls_guarantee_axioms) simp


section \<open>Authentication of the peer\<close>

text \<open>
  What OpenSSL documents with \<open>VERIFY_PEER | VERIFY_FAIL_IF_NO_PEER_CERT\<close> and without
  renegotiation: \<open>peer\<close> is the certificate of the other side, if one was accepted. Only the
  handshake changes it, and only to a certificate for which the verify callback
  returned true, once; it does not report success without one.
\<close>

definition ssl_contract ::
    "('u, 'j, 'je, 'd, 'l, 'w, 'e, 'h, 's) dtls_env \<Rightarrow> ('l \<Rightarrow> 'h option) \<Rightarrow> bool" where
  "ssl_contract env peer \<longleftrightarrow>
     (\<forall>k l. peer (snd (BIO_read_out env k l)) = peer l) \<and>
     (\<forall>data l. peer (snd (BIO_write_in env data l)) = peer l) \<and>
     (\<forall>data l. peer (snd (SSL_write env data l)) = peer l) \<and>
     (\<forall>k l. peer (snd (SSL_read env k l)) = peer l) \<and>
     (\<forall>k l. peer (SSL_set_mtu env k l) = peer l) \<and>
     (\<forall>v l ret l'. SSL_do_handshake env v l = (ret, l') \<longrightarrow>
        (peer l \<noteq> None \<longrightarrow> peer l' = peer l) \<and>
        (\<forall>c. peer l = None \<longrightarrow> peer l' = Some c \<longrightarrow> (\<exists>ok. v ok (Some c) = Some True)) \<and>
        (SSL_get_error env l' ret = SSL_ERROR_NONE \<longrightarrow> peer l' \<noteq> None))"

lemma ssl_contractD:
  assumes "ssl_contract env peer"
  shows "peer (snd (BIO_read_out env k l)) = peer l" "peer (snd (BIO_write_in env data l)) = peer l"
    "peer (snd (SSL_write env data l)) = peer l" "peer (snd (SSL_read env k l)) = peer l"
    "peer (SSL_set_mtu env k l) = peer l"
  using assms unfolding ssl_contract_def by simp_all

lemma ssl_contract_handshake:
  assumes "ssl_contract env peer" "SSL_do_handshake env v l = (ret, l')"
  shows "peer l \<noteq> None \<Longrightarrow> peer l' = peer l"
    "peer l = None \<Longrightarrow> peer l' = Some c \<Longrightarrow> \<exists>ok. v ok (Some c) = Some True"
    "SSL_get_error env l' ret = SSL_ERROR_NONE \<Longrightarrow> peer l' \<noteq> None"
  using assms unfolding ssl_contract_def by meson+

text \<open>A certificate with the digest that one of the pinned fingerprints spells.\<close>

definition pinned_cert :: "('w, 'e, 'h) openssl \<Rightarrow> fingerprint set \<Rightarrow> 'h \<Rightarrow> bool" where
  "pinned_cert os pins c \<longleftrightarrow> (\<exists>fp\<in>pins. \<exists>d. X509_digest os c (message_digest_for (fp_algorithm fp)) = Inr d \<and>
     format_fingerprint d = Some (to_ascii_uppercase (fp_value fp)))"

definition authenticated ::
    "('w, 'e, 'h) openssl \<Rightarrow> ('l \<Rightarrow> 'h option) \<Rightarrow> fingerprint set \<Rightarrow> ('u, 'j, 'd, 'l, 'z) dtls_scheme \<Rightarrow> bool" where
  "authenticated os peer pins w \<longleftrightarrow>
     (dtls_state w = DtlsState_Connected \<longrightarrow> peer (dtls_ssl w) \<noteq> None) \<and>
     (\<forall>c. peer (dtls_ssl w) = Some c \<longrightarrow> pinned_cert os pins c) \<and>
     (\<forall>fp. dtls_expected w = Some fp \<longrightarrow> fp \<in> pins)"

lemma verify_pinned: "verify_callback os (Some fp) ok (Some c) = Some True \<Longrightarrow> fp \<in> pins \<Longrightarrow> pinned_cert os pins c"
  by (auto simp: verify_callback_eq pinned_cert_def format_fingerprint_total intro!: bexI [of _ fp])

lemma verify_none: "verify_callback os None ok c \<noteq> Some True"
  by (simp add: verify_callback_eq)

lemma handshake_authenticated:
  assumes contract: "ssl_contract env peer" and auth: "authenticated (de_openssl env) peer pins w"
    and l: "SSL_do_handshake env (verify_callback (de_openssl env) (dtls_expected w)) (dtls_ssl w) = (ret, l)"
    and c: "peer l = Some c"
  shows "pinned_cert (de_openssl env) pins c"
proof (cases "peer (dtls_ssl w) = None")
  case True
  from ssl_contract_handshake(2) [OF contract l True c] obtain ok where
    v: "verify_callback (de_openssl env) (dtls_expected w) ok (Some c) = Some True" by blast
  then obtain fp where "dtls_expected w = Some fp" using verify_none by (metis option.exhaust)
  with v auth show ?thesis by (auto simp: authenticated_def dest: verify_pinned)
next
  case False
  with ssl_contract_handshake(1) [OF contract l] auth c show ?thesis by (auto simp: authenticated_def)
qed

lemma authenticated_guarantee:
  assumes contract: "ssl_contract env peer"
  shows "dtls_guarantee (authenticated (de_openssl env) peer pins) env log_dtls (\<lambda>l. peer l \<noteq> None) pins"
proof unfold_locales
  let ?P = "authenticated (de_openssl env) peer pins"
  fix w
  assume w: "?P w"
  obtain ret l where l: "SSL_do_handshake env (verify_callback (de_openssl env) (dtls_expected w)) (dtls_ssl w) = (ret, l)"
    by force
  have "peer l \<noteq> None" if "dtls_state w = DtlsState_Connected"
    using that w ssl_contract_handshake(1) [OF contract l] by (simp add: authenticated_def)
  then show "?P (w\<lparr>dtls_ssl := snd (SSL_do_handshake env (verify_callback (de_openssl env) (dtls_expected w)) (dtls_ssl w))\<rparr>)"
    using w l handshake_authenticated [OF contract w l] by (simp add: authenticated_def)
qed (simp_all add: authenticated_def log_dtls_def ssl_contractD [OF contract] ssl_contract_handshake(3) [OF contract])

section \<open>A small stack for the witnesses\<close>

text \<open>
  An agent that sends once it is connected, and an OpenSSL whose handshake is one
  datagram: the first byte that arrives names the peer's certificate.
\<close>

record toy_agent =
  agent_connected :: bool
  agent_sent :: "bytes list"

record toy_ssl =
  toy_in :: bytes
  toy_out :: bytes
  toy_peer :: "nat option"

fun toy_handshake :: "(bool \<Rightarrow> nat option \<Rightarrow> bool option) \<Rightarrow> toy_ssl \<Rightarrow> int \<times> toy_ssl" where
  "toy_handshake v l =
     (case toy_peer l of
        Some c \<Rightarrow> (1, l)
      | None \<Rightarrow>
          (case toy_in l of
             [] \<Rightarrow> (-1, l\<lparr>toy_out := toy_out l @ [22]\<rparr>)
           | b # bs \<Rightarrow>
               if v False (Some (unat b)) = Some True then (1, l\<lparr>toy_in := bs, toy_peer := Some (unat b)\<rparr>)
               else (-2, l\<lparr>toy_in := bs\<rparr>)))"

definition toy_ice :: "(nat ice_closure, toy_agent, unit, 's) ice_env" where
  "toy_ice = \<lparr>call_state_change = (\<lambda>_ _. Some), call_gathering_state_change = (\<lambda>_ _. Some),
     call_candidate = (\<lambda>_ _. Some), call_data = (\<lambda>_ _. Some),
     juice_gather_candidates = Pair (Inr ()), juice_get_local_description = Pair (Inr []),
     juice_set_remote_description = (\<lambda>j _. (Inr (), j)), juice_add_remote_candidate = (\<lambda>j _. (Inr (), j)),
     juice_set_remote_gathering_done = Pair (Inr ()),
     juice_send = (\<lambda>j data. if agent_connected j then (Inr (), j\<lparr>agent_sent := agent_sent j @ [data]\<rparr>) else (Inl (), j)),
     juice_get_selected_candidates = Pair (Inl ()), juice_get_selected_addresses = Pair (Inl ())\<rparr>"

definition toy_env :: "(nat, toy_agent, unit, 'd, toy_ssl, unit, unit, nat, 's) dtls_env" where
  "toy_env = \<lparr>de_ice = toy_ice, de_openssl = sample_openssl,
     call_dtls_state_change = (\<lambda>_ _. Some), call_dtls_data = (\<lambda>_ _. Some),
     SSL_do_handshake = toy_handshake,
     SSL_get_error = (\<lambda>l ret. if ret = 1 then SSL_ERROR_NONE else if ret = -1 then SSL_ERROR_WANT_READ else SSL_ERROR_OTHER 1),
     SSL_write = (\<lambda>data l. (int (length data), l\<lparr>toy_out := toy_out l @ data\<rparr>)),
     SSL_read = (\<lambda>k l. if toy_in l = [] then ((-1, []), l)
       else ((int (length (take k (toy_in l))), take k (toy_in l)), l\<lparr>toy_in := drop k (toy_in l)\<rparr>)),
     SSL_set_mtu = (\<lambda>_ l. l),
     BIO_read_out = (\<lambda>k l. if toy_out l = [] then (None, l)
       else (Some (take k (toy_out l)), l\<lparr>toy_out := drop k (toy_out l)\<rparr>)),
     BIO_write_in = (\<lambda>data l. (int (length data), l\<lparr>toy_in := toy_in l @ data\<rparr>))\<rparr>"

definition toy_new :: "toy_ssl" where
  "toy_new = \<lparr>toy_in = [], toy_out = [], toy_peer = None\<rparr>"

lemma toy_bio: "bio_contract toy_env toy_out"
  by (simp add: bio_contract_def toy_env_def)

lemma toy_contract: "ssl_contract toy_env toy_peer"
  by (auto simp: ssl_contract_def toy_env_def split: list.splits option.splits if_splits)

text \<open>Fresh transports, as \<open>new\<close> makes them.\<close>

definition dtls_fresh :: "('u, 'j, 'd, 'l, 'z) dtls_scheme \<Rightarrow> bool" where
  "dtls_fresh w \<longleftrightarrow> dtls_state w = DtlsState_New \<and> \<not> dtls_closed w \<and> \<not> dtls_started w \<and>
     \<not> dtls_handshake_done w \<and> \<not> dtls_locked w \<and> dtls_expected w = None"

lemma DtlsTransport_new_fresh: "DtlsTransport_new sb certificate callbacks ice = Inr w \<Longrightarrow> dtls_fresh w"
  by (auto simp: DtlsTransport_new_def dtls_fresh_def ice.defs Let_def result_iffs split: if_splits)

definition toy_callbacks :: "nat ice_closure ice_callbacks" where
  "toy_callbacks = \<lparr>on_state_change = DtlsAutoStart (IceUser 1), on_gathering_state_change = IceUser 2,
     on_candidate = IceUser 3, on_data = IceUser 4\<rparr>"

definition toy_world :: "bool \<Rightarrow> bool \<Rightarrow> (nat, toy_agent, nat, toy_ssl) dtls_logged" where
  "toy_world connected client = \<lparr>ice_agent = \<lparr>agent_connected = connected, agent_sent = []\<rparr>,
     ice_role = (if client then Role_Active else Role_Passive), ice_state = State_New,
     ice_gathering = GatheringState_New, ice_mid = ''0'', ice_callbacks = toy_callbacks, ice_closed = False,
     dtls_ssl = toy_new, dtls_handshake_done = False, dtls_locked = False, dtls_state = DtlsState_New,
     dtls_callbacks = \<lparr>dc_on_state_change = 5, dc_on_data = 6\<rparr>, dtls_closed = False, dtls_is_client = client,
     dtls_expected = None, dtls_started = False, dtls_log = []\<rparr>"

lemma toy_world_fresh: "dtls_fresh (toy_world connected client)"
  by (simp add: dtls_fresh_def toy_world_def)

text \<open>Rules that evaluate the loops on it.\<close>

lemma scripted_ssl [simp]:
  "de_openssl (scripted_dtls notify script env n) = de_openssl env"
  "SSL_do_handshake (scripted_dtls notify script env n) = SSL_do_handshake env"
  "SSL_get_error (scripted_dtls notify script env n) = SSL_get_error env"
  "SSL_write (scripted_dtls notify script env n) = SSL_write env"
  "SSL_read (scripted_dtls notify script env n) = SSL_read env"
  "SSL_set_mtu (scripted_dtls notify script env n) = SSL_set_mtu env"
  "BIO_read_out (scripted_dtls notify script env n) = BIO_read_out env"
  "BIO_write_in (scripted_dtls notify script env n) = BIO_write_in env"
  "juice_send (de_ice (scripted_dtls notify script env n)) = juice_send (de_ice env)"
  by (cases n; simp add: Let_def)+

definition run_script ::
    "(dtls_event \<Rightarrow> ('u, 'j, 'd, 'l, 'z) dtls_scheme \<Rightarrow> ('u, 'j, 'd, 'l, 'z) dtls_scheme) \<Rightarrow>
       ('u, 'd, ('u, 'j, 'd, 'l, 'z) dtls_scheme) dtls_script \<Rightarrow>
       ('u, 'j, 'je, 'd, 'l, 'w, 'e, 'h, 'z) dtls_environment \<Rightarrow> nat \<Rightarrow> 'u ice_closure + 'd \<Rightarrow> dtls_event \<Rightarrow>
       ('u, 'j, 'd, 'l, 'z) dtls_scheme \<Rightarrow> ('u, 'j, 'd, 'l, 'z) dtls_scheme option" where
  "run_script notify script env n c e w =
     run_all (run_dtls (scripted_dtls notify script env n)) (script c e (notify e w)) (notify e w)"

lemma scripted_calls [simp]:
  "call_state_change (de_ice (scripted_dtls notify script env (Suc n))) ic st w =
     run_script notify script env n (Inl ic) (Ev_ice (Ev_state st)) w"
  "call_data (de_ice (scripted_dtls notify script env (Suc n))) ic data w =
     run_script notify script env n (Inl ic) (Ev_ice (Ev_data data)) w"
  "call_dtls_state_change (scripted_dtls notify script env (Suc n)) d s w =
     run_script notify script env n (Inr d) (Ev_dtls_state s) w"
  "call_dtls_data (scripted_dtls notify script env (Suc n)) d data w =
     run_script notify script env n (Inr d) (Ev_dtls_data data) w"
  by (simp_all add: run_script_def Let_def)

declare scripted_dtls.simps [simp del]

lemma toy_fields [simp]:
  "de_openssl toy_env = sample_openssl" "de_ice toy_env = toy_ice" "SSL_do_handshake toy_env = toy_handshake"
  "SSL_get_error toy_env l ret = (if ret = 1 then SSL_ERROR_NONE else if ret = -1 then SSL_ERROR_WANT_READ else SSL_ERROR_OTHER 1)"
  "SSL_write toy_env data l = (int (length data), l\<lparr>toy_out := toy_out l @ data\<rparr>)"
  "SSL_read toy_env k l = (if toy_in l = [] then ((-1, []), l)
       else ((int (length (take k (toy_in l))), take k (toy_in l)), l\<lparr>toy_in := drop k (toy_in l)\<rparr>))"
  "SSL_set_mtu toy_env k l = l"
  "BIO_read_out toy_env k l = (if toy_out l = [] then (None, l)
       else (Some (take k (toy_out l)), l\<lparr>toy_out := drop k (toy_out l)\<rparr>))"
  "BIO_write_in toy_env data l = (int (length data), l\<lparr>toy_in := toy_in l @ data\<rparr>)"
  "juice_send toy_ice j data = (if agent_connected j then (Inr (), j\<lparr>agent_sent := agent_sent j @ [data]\<rparr>) else (Inl (), j))"
  by (simp_all add: toy_env_def toy_ice_def)

lemma drain_empty:
  "BIO_read_out env 4096 (dtls_ssl w) = (None, l) \<Longrightarrow> drain_outbound_locked env w = Some (Inr (), w\<lparr>dtls_ssl := l\<rparr>)"
  by (subst drain_outbound_locked.simps) simp

lemma drain_step:
  "BIO_read_out env 4096 (dtls_ssl w) = (Some data, l) \<Longrightarrow>
   IceTransport_send (de_ice env) data (w\<lparr>dtls_ssl := l\<rparr>) = (Inr (), w') \<Longrightarrow>
   drain_outbound_locked env w = drain_outbound_locked env w'"
  by (subst drain_outbound_locked.simps) simp

lemma drain_refused:
  "BIO_read_out env 4096 (dtls_ssl w) = (Some data, l) \<Longrightarrow>
   IceTransport_send (de_ice env) data (w\<lparr>dtls_ssl := l\<rparr>) = (Inl (IceTransportError_Juice e), w') \<Longrightarrow>
   drain_outbound_locked env w = Some (Inl (DtlsTransportError_Ice (IceTransportError_Juice e)), w')"
  by (subst drain_outbound_locked.simps) simp

lemma read_loop_stop:
  "SSL_read env 4096 (dtls_ssl w) = ((ret, buf), l) \<Longrightarrow> ret \<le> 0 \<Longrightarrow>
   read_loop env w = Some (SSL_get_error env l ret = SSL_ERROR_ZERO_RETURN, w\<lparr>dtls_ssl := l\<rparr>)"
  by (subst read_loop.simps) simp

lemma read_loop_step:
  "SSL_read env 4096 (dtls_ssl w) = ((ret, buf), l) \<Longrightarrow> 0 < ret \<Longrightarrow>
   read_loop env w = Option.bind (call_dtls_data env (dc_on_data (dtls_callbacks w)) buf (w\<lparr>dtls_ssl := l\<rparr>)) (read_loop env)"
  by (subst read_loop.simps) simp

lemmas loop_rules = drain_empty drain_step drain_refused read_loop_stop read_loop_step

lemmas toy_eval = toy_new_def toy_world_def toy_callbacks_def

definition toy_pin :: fingerprint where
  "toy_pin = \<lparr>fp_algorithm = FingerprintAlgorithm_Sha256, fp_value = fingerprint_str (replicate 32 7)\<rparr>"

lemma toy_verify: "verify_callback sample_openssl (Some toy_pin) ok (Some 7) = Some True"
  using sample_digest [of 7 FingerprintAlgorithm_Sha256]
  by (auto simp: verify_callback_eq toy_pin_def fingerprint_str_upper)

definition toy_ops :: "(nat, nat) dtls_op list" where
  "toy_ops = [Dtls_set_remote_fingerprint toy_pin, Dtls_ice (Op_on_juice_state Juice_Connected), Dtls_ice (Op_on_juice_recv [7])]"

lemmas dtls_op_defs = DtlsTransport_start_def DtlsTransport_send_def DtlsTransport_close_def
  DtlsTransport_set_callbacks_def DtlsTransport_set_remote_fingerprint_def pump_inbound_def auto_start_def
  drive_handshake_locked_def fail_transport_def bridge_close_def fire_dtls_state_change_def lock_inner_def unlock_inner_def

lemma toy_run:
  "\<exists>w. run_all (run_dtls (scripted_dtls log_dtls (\<lambda>_ _ _. []) toy_env (Suc 0))) toy_ops (toy_world True True) = Some w \<and>
     dtls_state w = DtlsState_Connected \<and> toy_peer (dtls_ssl w) = Some 7 \<and>
     agent_sent (ice_agent w) = [[22]] \<and>
     dtls_log w = [Ev_dtls_state DtlsState_Connecting, Ev_ice (Ev_state State_Connected), Ev_dtls_state DtlsState_Connected]"
  by (simp add: toy_ops_def Let_def stack_ice_def ice_op_defs dtls_op_defs loop_rules toy_verify map_juice_err_def
    run_script_def log_dtls_def toy_eval)

section \<open>Properties\<close>

text \<open>C8: in every run of a fresh transport, whatever OpenSSL answers and whatever the callbacks
  do, the state is the one reported last; Closed is reported exactly once if the
  transport is closed and never otherwise, Connected exactly once if the handshake is done,
  Connecting at most once.\<close>

theorem dtls_states_reachable:
  assumes "dtls_fresh w0" "dtls_log w0 = []"
    and "run_all (run_dtls (scripted_dtls log_dtls script env n)) ops w0 = Some w"
  shows "dtls_state w = last (DtlsState_New # dtls_states (dtls_log w)) \<and>
    (dtls_state w = DtlsState_Closed \<longrightarrow> dtls_closed w) \<and>
    count_list (dtls_states (dtls_log w)) DtlsState_Closed = (if dtls_closed w then 1 else 0) \<and>
    count_list (dtls_states (dtls_log w)) DtlsState_Connected = (if dtls_handshake_done w then 1 else 0) \<and>
    count_list (dtls_states (dtls_log w)) DtlsState_Connecting \<le> 1"
proof -
  have "lifecycle w0" using assms(1,2) by (simp add: lifecycle_def dtls_fresh_def Let_def)
  with dtls_operations.run_all_keeps [OF lifecycle_run.operations assms(3)] have "lifecycle w" by simp
  with lifecycle_closed [of w] show ?thesis by (auto simp: lifecycle_def Let_def split: if_splits)
qed

theorem dtls_states_reachable_witness:
  "\<exists>w. run_all (run_dtls (scripted_dtls log_dtls (\<lambda>_ _ _. []) toy_env (Suc 0))) toy_ops (toy_world True True) = Some w \<and>
     dtls_state w = DtlsState_Connected \<and> dtls_state w = last (DtlsState_New # dtls_states (dtls_log w))"
  using toy_run dtls_states_reachable [OF toy_world_fresh, of True True "\<lambda>_ _ _. []" toy_env "Suc 0" toy_ops]
  by (fastforce simp: toy_world_def)

lemma run_authenticated:
  assumes "ssl_contract env peer" "dtls_fresh w0" "peer (dtls_ssl w0) = None"
    and "\<And>op. op \<in> set ops \<Longrightarrow> op_pins op \<subseteq> pins"
    and "\<And>c e v op. op \<in> set (script c e v) \<Longrightarrow> op_pins op \<subseteq> pins"
    and "run_all (run_dtls (scripted_dtls log_dtls script env n)) ops w0 = Some w"
    and "dtls_state w = DtlsState_Connected"
  shows "\<exists>c fp d. peer (dtls_ssl w) = Some c \<and> fp \<in> pins \<and>
    X509_digest (de_openssl env) c (message_digest_for (fp_algorithm fp)) = Inr d \<and>
    format_fingerprint d = Some (to_ascii_uppercase (fp_value fp))"
proof -
  have "authenticated (de_openssl env) peer pins w0"
    using assms(2,3) by (simp add: authenticated_def dtls_fresh_def)
  moreover have "dtls_running (authenticated (de_openssl env) peer pins) (scripted_dtls log_dtls script env n)
      log_dtls (\<lambda>l. peer l \<noteq> None) pins"
    by (rule guarantee_running [OF authenticated_guarantee [OF assms(1)]]) (rule assms(5))
  ultimately have "authenticated (de_openssl env) peer pins w"
    using dtls_operations.run_all_keeps [OF dtls_running.operations assms(6)] assms(4) by blast
  with assms(7) show ?thesis unfolding authenticated_def pinned_cert_def by blast
qed

text \<open>C3: authentication. A transport is connected only to a peer whose certificate has the
  digest of a fingerprint that was pinned: by an operation of the run, or by a callback, at any
  depth. Without any pinned fingerprint it is never connected.\<close>

theorem dtls_authenticates:
  assumes "ssl_contract env peer" "dtls_fresh w0" "peer (dtls_ssl w0) = None"
    and "\<And>op. op \<in> set ops \<Longrightarrow> op_pins op \<subseteq> pins"
    and "\<And>c e v op. op \<in> set (script c e v) \<Longrightarrow> op_pins op \<subseteq> pins"
    and "run_all (run_dtls (scripted_dtls log_dtls script env n)) ops w0 = Some w"
    and "dtls_state w = DtlsState_Connected"
  shows "\<exists>c fp d. peer (dtls_ssl w) = Some c \<and> fp \<in> pins \<and>
    X509_digest (de_openssl env) c (message_digest_for (fp_algorithm fp)) = Inr d \<and>
    format_fingerprint d = Some (to_ascii_uppercase (fp_value fp))"
  using assms by (rule run_authenticated)

theorem dtls_authenticates_witness:
  "\<exists>w c d. run_all (run_dtls (scripted_dtls log_dtls (\<lambda>_ _ _. []) toy_env (Suc 0))) toy_ops (toy_world True True) = Some w \<and>
     toy_peer (dtls_ssl w) = Some c \<and> X509_digest sample_openssl c MessageDigest_sha256 = Inr d \<and>
     format_fingerprint d = Some (to_ascii_uppercase (fp_value toy_pin))"
proof -
  obtain w where w: "run_all (run_dtls (scripted_dtls log_dtls (\<lambda>_ _ _. []) toy_env (Suc 0))) toy_ops (toy_world True True) = Some w"
    "dtls_state w = DtlsState_Connected"
    using toy_run by blast
  have peer: "toy_peer (dtls_ssl (toy_world True True)) = None" by (simp add: toy_eval)
  have pins: "op_pins op \<subseteq> {toy_pin}" if "op \<in> set toy_ops" for op using that by (auto simp: toy_ops_def)
  from dtls_authenticates [OF toy_contract toy_world_fresh peer pins _ w] obtain c fp d where
    "toy_peer (dtls_ssl w) = Some c" "fp \<in> {toy_pin}"
    "X509_digest (de_openssl toy_env) c (message_digest_for (fp_algorithm fp)) = Inr d"
    "format_fingerprint d = Some (to_ascii_uppercase (fp_value fp))"
    by auto
  with w(1) show ?thesis by (auto simp: toy_pin_def toy_fields)
qed

end
