(* ===== verification/Dtls_Flow.thy ===== *)
theory Dtls_Flow
  imports Dtls_Runs
begin

text \<open>
  The data paths of the DTLS transport: what the drain sends and loses, what the pump delivers,
  what the lock forbids to callbacks, and what closing stops and does not stop.
\<close>

section \<open>Closing\<close>

text \<open>After \<open>close\<close> nothing moves: start and send return the error Closed, close succeeds, an
  inbound datagram is dropped, and any sequence of these leaves the transport as it is, without
  a callback.\<close>

theorem dtls_closed_gates:
  assumes "dtls_closed w" "list_all dtls_gated ops"
  shows "run_all (run_dtls env) ops w = Some w \<and>
    DtlsTransport_start env w = Some (Inl DtlsTransportError_Closed, w) \<and>
    DtlsTransport_send env data w = Some (Inl DtlsTransportError_Closed, w) \<and>
    DtlsTransport_close env w = Some (Inr (), w) \<and> pump_inbound env data w = Some w"
  by (simp add: dtls_closable.closed_run_all [OF assms] dtls_closed_ops [OF assms(1)])

theorem dtls_closed_gates_witness:
  "run_all (run_dtls toy_env) [Dtls_start, Dtls_close, Dtls_send [1]] ((toy_world True True)\<lparr>dtls_closed := True\<rparr>) =
     Some ((toy_world True True)\<lparr>dtls_closed := True\<rparr>)"
  using dtls_closed_gates [of "(toy_world True True)\<lparr>dtls_closed := True\<rparr>" "[Dtls_start, Dtls_close, Dtls_send [1]]" toy_env]
  by simp

section \<open>The outbound path\<close>

lemma agent_sends_all: "agent_sends f j cs = (Inr u, j', rest) \<Longrightarrow> rest = []"
  by (induction f j cs rule: agent_sends.induct) (auto split: sum.splits prod.splits)

text \<open>C23: the drain ends and sends the bytes of the outbound BIO in order, in chunks of at most 4096
  bytes, until the agent refuses one. A refused chunk has left the BIO and is lost; the chunks
  after it stay in the BIO.\<close>

theorem drain_in_order:
  assumes "bio_contract env content" "\<not> ice_closed w"
    and "agent_sends (juice_send (de_ice env)) (ice_agent w) (chunks 4096 (content (dtls_ssl w))) = (r, j, rest)"
  shows "\<exists>l. drain_outbound_locked env w =
      Some (case r of Inl e \<Rightarrow> Inl (DtlsTransportError_Ice (IceTransportError_Juice e)) | Inr u \<Rightarrow> Inr (),
            w\<lparr>dtls_ssl := l, ice_agent := j\<rparr>) \<and>
    content l = concat rest \<and> concat (chunks 4096 (content (dtls_ssl w))) = content (dtls_ssl w) \<and>
    (r = Inr () \<longrightarrow> content l = [])"
proof -
  have "r = Inr () \<longrightarrow> rest = []" using assms(3) by (auto dest: agent_sends_all)
  with drain_outbound_spec [OF assms] show ?thesis by (auto simp: chunks_concat)
qed

theorem drain_in_order_witness:
  "\<exists>l. drain_outbound_locked toy_env ((toy_world True True)\<lparr>dtls_ssl := toy_new\<lparr>toy_out := [1, 2, 3]\<rparr>\<rparr>) =
     Some (Inr (), (toy_world True True)\<lparr>dtls_ssl := l, ice_agent := \<lparr>agent_connected = True, agent_sent = [[1, 2, 3]]\<rparr>\<rparr>) \<and>
     toy_out l = []"
  using drain_in_order [OF toy_bio, of "(toy_world True True)\<lparr>dtls_ssl := toy_new\<lparr>toy_out := [1, 2, 3]\<rparr>\<rparr>"]
  by (simp add: toy_eval chunks.simps)

lemma start_again: "dtls_started w \<Longrightarrow> \<not> dtls_closed w \<Longrightarrow> DtlsTransport_start env w = Some (Inr (), w)"
  by (simp add: DtlsTransport_start_def Let_def)

text \<open>C33: a first flight that ICE cannot send yet is not stranded but lost. When a client is started
  before ICE is connected and the agent refuses the ClientHello, \<open>start\<close> reports success, the
  outbound BIO is empty, and the hook that runs when ICE becomes connected sends nothing: the
  agent is left as it is, and the transport goes on waiting in Connecting.\<close>

theorem client_hello_lost:
  assumes "bio_contract env content"
    and w: "dtls_fresh w" "dtls_is_client w" "\<not> ice_closed w"
    and call: "fire_dtls_state_change env DtlsState_Connecting
      (w\<lparr>dtls_started := True, dtls_state := DtlsState_Connecting\<rparr>) =
      Some (w\<lparr>dtls_started := True, dtls_state := DtlsState_Connecting\<rparr>)"
    and hello: "SSL_do_handshake env (verify_callback (de_openssl env) None) (SSL_set_mtu env 1232 (dtls_ssl w)) = (ret, l)"
      "content l \<noteq> []" "length (content l) \<le> 4096"
    and refuse: "juice_send (de_ice env) (ice_agent w) (content l) = (Inl e, j)"
  shows "\<exists>w1 w2. DtlsTransport_start env w = Some (Inr (), w1) \<and> dtls_state w1 = DtlsState_Connecting \<and>
    content (dtls_ssl w1) = [] \<and> ice_agent w1 = j \<and>
    auto_start env State_Connected w1 = Some w2 \<and> ice_agent w2 = j \<and> dtls_state w2 = DtlsState_Connecting"
proof -
  let ?u = "w\<lparr>dtls_started := True, dtls_state := DtlsState_Connecting,
    ice_callbacks := (ice_callbacks w)\<lparr>on_state_change := DtlsStateHook (on_state_change (ice_callbacks w)), on_data := DtlsPump\<rparr>,
    dtls_locked := True, dtls_ssl := l\<rparr>"
  have one: "chunks 4096 (content l) = [content l]"
    using hello(2,3) by (subst chunks.simps) (simp add: chunks.simps)
  have "\<exists>l'. drain_outbound_locked env ?u = Some (Inl (DtlsTransportError_Ice (IceTransportError_Juice e)), ?u\<lparr>dtls_ssl := l', ice_agent := j\<rparr>) \<and>
      content l' = []"
    using drain_outbound_spec [OF assms(1), of ?u "Inl e" j "[]"] w refuse by (simp add: one)
  then obtain l' where drained: "content l' = []"
    "drain_outbound_locked env ?u = Some (Inl (DtlsTransportError_Ice (IceTransportError_Juice e)), ?u\<lparr>dtls_ssl := l', ice_agent := j\<rparr>)"
    by blast
  define w1 where "w1 = ?u\<lparr>dtls_ssl := l', ice_agent := j, dtls_locked := False\<rparr>"
  have start: "DtlsTransport_start env w = Some (Inr (), w1)"
    using w hello(1) drained(2)
    by (simp add: DtlsTransport_start_def dtls_fresh_def Let_def call lock_inner_def unlock_inner_def DEFAULT_MTU_def
        IceTransport_set_callbacks_def drive_handshake_locked_def w1_def)
  have w1: "dtls_started w1" "\<not> dtls_closed w1" "\<not> dtls_locked w1" "\<not> ice_closed w1" "dtls_state w1 = DtlsState_Connecting"
    "ice_agent w1 = j" "content (dtls_ssl w1) = []"
    using w drained(1) by (simp_all add: w1_def dtls_fresh_def)
  then have "\<exists>w2. auto_start env State_Connected w1 = Some w2 \<and> ice_agent w2 = j \<and> dtls_state w2 = DtlsState_Connecting"
    using drain_outbound_spec [OF assms(1), of "w1\<lparr>dtls_locked := True\<rparr>" "Inr ()" j "[]"]
    by (auto simp: auto_start_def start_again lock_inner_def unlock_inner_def chunks.simps)
  with start drained(1) show ?thesis by (auto simp: w1_def)
qed

theorem client_hello_lost_witness:
  "\<exists>w1 w2. DtlsTransport_start toy_env (toy_world False True) = Some (Inr (), w1) \<and>
     auto_start toy_env State_Connected w1 = Some w2 \<and> agent_sent (ice_agent w2) = [] \<and> toy_out (dtls_ssl w1) = []"
proof -
  let ?w = "toy_world False True"
  have w: "dtls_is_client ?w" "\<not> ice_closed ?w" by (simp_all add: toy_world_def)
  have call: "fire_dtls_state_change toy_env DtlsState_Connecting (?w\<lparr>dtls_started := True, dtls_state := DtlsState_Connecting\<rparr>) =
      Some (?w\<lparr>dtls_started := True, dtls_state := DtlsState_Connecting\<rparr>)"
    by (simp add: fire_dtls_state_change_def toy_env_def)
  have hello: "SSL_do_handshake toy_env (verify_callback (de_openssl toy_env) None) (SSL_set_mtu toy_env 1232 (dtls_ssl ?w)) =
      (-1, toy_new\<lparr>toy_out := [22]\<rparr>)" "toy_out (toy_new\<lparr>toy_out := [22]\<rparr>) \<noteq> []"
    "length (toy_out (toy_new\<lparr>toy_out := [22]\<rparr>)) \<le> 4096"
    by (simp_all add: toy_eval)
  have refuse: "juice_send (de_ice toy_env) (ice_agent ?w) (toy_out (toy_new\<lparr>toy_out := [22]\<rparr>)) = (Inl (), ice_agent ?w)"
    by (simp add: toy_world_def)
  have "agent_sent (ice_agent ?w) = []" by (simp add: toy_world_def)
  with client_hello_lost [OF toy_bio toy_world_fresh w call hello refuse] show ?thesis by metis
qed

section \<open>The inner lock\<close>

text \<open>C36: the callbacks of the pump run under the inner lock, so that a callback must not send: when
  the application answers a datagram from within \<open>on_data\<close>, the pump never returns.\<close>

theorem send_in_callback_deadlocks:
  assumes "dtls_state w = DtlsState_Connected" "\<not> dtls_closed w"
    and "BIO_write_in env data (dtls_ssl w) = (wr, l)" "0 \<le> wr"
    and "SSL_read env 4096 l = ((ret, buf), l')" "0 < ret"
    and "\<And>v. script (Inr (dc_on_data (dtls_callbacks w))) (Ev_dtls_data buf) v = [Dtls_send reply]"
  shows "pump_inbound (scripted_dtls log_dtls script env (Suc n)) data w = None"
proof -
  have "read_loop (scripted_dtls log_dtls script env (Suc n)) (w\<lparr>dtls_locked := True, dtls_ssl := l\<rparr>) = None"
    using assms by (subst read_loop_step) (auto simp: run_script_def log_dtls_def DtlsTransport_send_def lock_inner_def)
  then show ?thesis using assms by (simp add: pump_inbound_def lock_inner_def)
qed

theorem send_in_callback_deadlocks_witness:
  "pump_inbound (scripted_dtls log_dtls (\<lambda>_ e _. case e of Ev_dtls_data bs \<Rightarrow> [Dtls_send bs] | _ \<Rightarrow> []) toy_env (Suc 1)) [1]
     ((toy_world True True)\<lparr>dtls_state := DtlsState_Connected\<rparr>) = None"
  by (rule send_in_callback_deadlocks [where wr = 1 and l = "toy_new\<lparr>toy_in := [1]\<rparr>" and ret = 1 and buf = "[1]" and l' = toy_new
        and reply = "[1]"])
    (simp_all add: toy_eval)

section \<open>The inbound path\<close>

text \<open>What \<open>SSL_read\<close> yields: the plaintexts, whether it ended with close_notify, and the object.\<close>

inductive plaintexts ::
    "('u, 'j, 'je, 'd, 'l, 'w, 'e, 'h, 's) dtls_env \<Rightarrow> 'l \<Rightarrow> bytes list \<Rightarrow> bool \<Rightarrow> 'l \<Rightarrow> bool"
  for env where
  plaintexts_stop: "SSL_read env 4096 l = ((ret, buf), l') \<Longrightarrow> ret \<le> 0 \<Longrightarrow>
     plaintexts env l [] (SSL_get_error env l' ret = SSL_ERROR_ZERO_RETURN) l'"
| plaintexts_more: "SSL_read env 4096 l = ((ret, buf), l') \<Longrightarrow> 0 < ret \<Longrightarrow> plaintexts env l' ps z l'' \<Longrightarrow>
     plaintexts env l (buf # ps) z l''"

inductive_cases plaintexts_NilE: "plaintexts env l [] z l'"
inductive_cases plaintexts_ConsE: "plaintexts env l (p # ps) z l'"

lemma read_loop_plaintexts:
  assumes "plaintexts env (dtls_ssl w) ps z l"
    and "\<And>bs v. script (Inr (dc_on_data (dtls_callbacks w))) (Ev_dtls_data bs) v = []"
  shows "read_loop (scripted_dtls log_dtls script env (Suc n)) w =
    Some (z, w\<lparr>dtls_ssl := l, dtls_log := dtls_log w @ map Ev_dtls_data ps\<rparr>)"
  using assms
proof (induction "dtls_ssl w" ps z l arbitrary: w)
  case (plaintexts_stop ret buf l')
  then show ?case by (subst read_loop_stop) auto
next
  case (plaintexts_more ret buf l' ps z l'')
  from plaintexts_more.hyps(4) [of "log_dtls (Ev_dtls_data buf) (w\<lparr>dtls_ssl := l'\<rparr>)"] plaintexts_more(1,2,5)
  show ?case by (subst read_loop_step) (auto simp: run_script_def log_dtls_def)
qed

lemma snd_bind_unit: "map_option snd (Option.bind r (\<lambda>w. Some (Inr (), w))) = r"
  by (cases r) simp_all

lemma pump_plaintexts:
  assumes "dtls_state w = DtlsState_Connected" "\<not> dtls_closed w" "\<not> dtls_locked w"
    and "BIO_write_in env data (dtls_ssl w) = (wr, l)" "0 \<le> wr" "plaintexts env l ps z l'"
    and "\<And>bs v. script (Inr (dc_on_data (dtls_callbacks w))) (Ev_dtls_data bs) v = []"
  shows "pump_inbound (scripted_dtls log_dtls script env (Suc n)) data w =
    (let w' = w\<lparr>dtls_ssl := l', dtls_log := dtls_log w @ map Ev_dtls_data ps\<rparr> in
     if z then run_script log_dtls script env n (Inr (dc_on_state_change (dtls_callbacks w))) (Ev_dtls_state DtlsState_Closed)
       (w'\<lparr>dtls_closed := True, dtls_state := DtlsState_Closed\<rparr>)
     else Some w')"
proof -
  have read: "read_loop (scripted_dtls log_dtls script env (Suc n)) (w\<lparr>dtls_locked := True, dtls_ssl := l\<rparr>) =
      Some (z, w\<lparr>dtls_locked := True, dtls_ssl := l', dtls_log := dtls_log w @ map Ev_dtls_data ps\<rparr>)"
    using assms(6,7) read_loop_plaintexts [of env "w\<lparr>dtls_locked := True, dtls_ssl := l\<rparr>" ps z l' script n] by simp
  have unlocked: "unlock_inner (w\<lparr>dtls_locked := True, dtls_ssl := l', dtls_log := dtls_log w @ map Ev_dtls_data ps\<rparr>) =
      w\<lparr>dtls_ssl := l', dtls_log := dtls_log w @ map Ev_dtls_data ps\<rparr>"
    using assms(3) by (simp add: unlock_inner_def)
  show ?thesis
    using assms(1-5) by (simp add: pump_inbound_def lock_inner_def read unlocked snd_bind_unit bridge_close_def fire_dtls_state_change_def Let_def)
qed

text \<open>C13: if \<open>on_data\<close>, which runs under the inner lock, makes no call back into the stack, a connected transport hands
  it every plaintext that OpenSSL has, once and in order, and the lock is free again. Then the pump returns or, if the peer
  sent close_notify, closes the transport and ends with what \<open>on_state_change\<close> does about Closed.\<close>

theorem pump_delivers:
  assumes "dtls_state w = DtlsState_Connected" "\<not> dtls_closed w" "\<not> dtls_locked w"
    and "BIO_write_in env data (dtls_ssl w) = (wr, l)" "0 \<le> wr" "plaintexts env l ps z l'"
    and "\<And>bs v. script (Inr (dc_on_data (dtls_callbacks w))) (Ev_dtls_data bs) v = []"
  shows "pump_inbound (scripted_dtls log_dtls script env (Suc n)) data w =
    (let w' = w\<lparr>dtls_ssl := l', dtls_log := dtls_log w @ map Ev_dtls_data ps\<rparr> in
     if z then run_script log_dtls script env n (Inr (dc_on_state_change (dtls_callbacks w))) (Ev_dtls_state DtlsState_Closed)
       (w'\<lparr>dtls_closed := True, dtls_state := DtlsState_Closed\<rparr>)
     else Some w')"
  using assms by (rule pump_plaintexts)

theorem pump_delivers_witness:
  "pump_inbound (scripted_dtls log_dtls (\<lambda>_ _ _. []) toy_env (Suc 0)) [1, 2]
     ((toy_world True True)\<lparr>dtls_state := DtlsState_Connected\<rparr>) =
   Some ((toy_world True True)\<lparr>dtls_state := DtlsState_Connected, dtls_log := [Ev_dtls_data [1, 2]]\<rparr>)"
proof -
  let ?w = "(toy_world True True)\<lparr>dtls_state := DtlsState_Connected\<rparr>"
  have "plaintexts toy_env (toy_new\<lparr>toy_in := [1, 2]\<rparr>) [[1, 2]] False toy_new"
    using plaintexts_stop [of toy_env toy_new "-1" "[]" toy_new]
    by (intro plaintexts_more [where ret = 2 and l' = toy_new]) (simp_all add: toy_new_def)
  from pump_delivers [of ?w toy_env "[1, 2]" 2, OF _ _ _ _ _ this, of "\<lambda>_ _ _. []" 0]
  show ?thesis by (simp add: toy_eval)
qed

section \<open>Construction and the closures\<close>

text \<open>\<open>new\<close> takes the client side exactly for the active role, does nothing to ICE but put the
  auto-start hook in front of the application's state callback, and returns a fresh transport;
  if the context, the object or a BIO cannot be made, the error is returned. Failing ICE
  reaches the transport only through the hook of \<open>start\<close>: after it, a failed or closed ICE fails
  every transport that is not closed, and before it the transport stays in New.\<close>

theorem dtls_new_hooks:
  assumes "DtlsTransport_new sb certificate callbacks ice = Inr w" "s \<in> {State_Failed, State_Closed}"
  shows "(dtls_is_client w \<longleftrightarrow> ice_role ice = Role_Active) \<and> dtls_fresh w \<and> dtls_callbacks w = callbacks \<and>
    (\<exists>ssl. dtls_ssl w = SSL_set_bio sb BIO_EOF
       ((if ice_role ice = Role_Active then SSL_set_connect_state sb else SSL_set_accept_state sb) ssl)) \<and>
    ice_callbacks w = (ice_callbacks ice)\<lparr>on_state_change := DtlsAutoStart (on_state_change (ice_callbacks ice))\<rparr> \<and>
    run_ice_state env (on_state_change (ice_callbacks w)) s v = run_ice_state env (on_state_change (ice_callbacks ice)) s v \<and>
    run_ice_state env (DtlsStateHook prev) s v = Option.bind (run_ice_state env prev s v) (fail_transport env)"
proof -
  have fields: "dtls_is_client w \<longleftrightarrow> ice_role ice = Role_Active" "dtls_callbacks w = callbacks"
    "ice_callbacks w = (ice_callbacks ice)\<lparr>on_state_change := DtlsAutoStart (on_state_change (ice_callbacks ice))\<rparr>"
    using assms(1)
    by (auto simp: DtlsTransport_new_def ice.defs Let_def result_iffs IceTransport_set_callbacks_def split: if_splits)
  moreover have "\<exists>ssl. dtls_ssl w = SSL_set_bio sb BIO_EOF
       ((if ice_role ice = Role_Active then SSL_set_connect_state sb else SSL_set_accept_state sb) ssl)"
    using assms(1) by (cases "ice_role ice = Role_Active")
      (auto simp: DtlsTransport_new_def ice.defs Let_def result_iffs IceTransport_set_callbacks_def)
  moreover have "auto_start env s v = Some v" for v using assms(2) by (auto simp: auto_start_def)
  ultimately show ?thesis using DtlsTransport_new_fresh [OF assms(1)] assms(2) by auto
qed

definition toy_builder :: "(unit, toy_ssl, nat, unit) ssl_builder" where
  "toy_builder = \<lparr>SslContextBuilder_new_dtls = Inr (), ctx_set_options = (\<lambda>_ x. x), ctx_set_cipher_list = (\<lambda>_. Inr),
     ctx_set_verify = (\<lambda>_ x. x), ctx_set_certificate = (\<lambda>_. Inr), ctx_set_private_key = (\<lambda>_. Inr),
     ctx_check_private_key = (\<lambda>_. Inr ()), Ssl_new = (\<lambda>_. Inr toy_new), SSL_set_connect_state = (\<lambda>l. l),
     SSL_set_accept_state = (\<lambda>l. l), BIO_new_in = Some (), BIO_new_out = Some (), SSL_set_bio = (\<lambda>_ l. l)\<rparr>"

theorem dtls_new_hooks_witness:
  "\<exists>w. DtlsTransport_new toy_builder \<lparr>cert_x509 = 7, cert_pkey = 3\<rparr> \<lparr>dc_on_state_change = 5 :: nat, dc_on_data = 6\<rparr>
      (initial_ice \<lparr>agent_connected = False, agent_sent = []\<rparr> Role_Active
        (toy_callbacks\<lparr>on_state_change := IceUser 1\<rparr>)) = (Inr w :: (unit, unit) dtls_error + (nat, toy_agent, nat, toy_ssl) dtls) \<and>
     dtls_is_client w \<and> on_state_change (ice_callbacks w) = DtlsAutoStart (IceUser 1)"
proof -
  obtain w where w: "DtlsTransport_new toy_builder \<lparr>cert_x509 = 7, cert_pkey = 3\<rparr> \<lparr>dc_on_state_change = 5 :: nat, dc_on_data = 6\<rparr>
      (initial_ice \<lparr>agent_connected = False, agent_sent = []\<rparr> Role_Active
        (toy_callbacks\<lparr>on_state_change := IceUser 1\<rparr>)) = (Inr w :: (unit, unit) dtls_error + (nat, toy_agent, nat, toy_ssl) dtls)"
    by (simp add: DtlsTransport_new_def build_ssl_context_def toy_builder_def ossl_err_def Let_def ok_or_def)
  from dtls_new_hooks [OF w, of State_Failed toy_env w "IceUser 1"] w show ?thesis
    by (simp add: initial_ice_def)
qed

section \<open>Closing from a callback\<close>

text \<open>
  The closed flag is read on entry only. A transport that the application closes from its
  Connecting callback still installs its closures and sends the ClientHello; one that it closes
  from \<open>on_data\<close> goes on delivering data after the Closed event.
\<close>

lemma hello_after_close:
  "\<exists>w. DtlsTransport_start (scripted_dtls log_dtls
        (\<lambda>_ e _. if e = Ev_dtls_state DtlsState_Connecting then [Dtls_close] else []) toy_env (Suc (Suc 0)))
      (toy_world True True) = Some (Inr (), w) \<and>
    dtls_closed w \<and> agent_sent (ice_agent w) = [[22]] \<and>
    dtls_log w = [Ev_dtls_state DtlsState_Connecting, Ev_dtls_state DtlsState_Closed]"
  by (simp add: ice_op_defs dtls_op_defs loop_rules map_juice_err_def Let_def log_dtls_def run_script_def toy_eval)

lemma data_after_close:
  assumes "dtls_state w = DtlsState_Connected" "\<not> dtls_closed w" "\<not> dtls_locked w"
    and "BIO_write_in env data (dtls_ssl w) = (wr, l)" "0 \<le> wr" "plaintexts env l [p, q] z l'"
    and "\<And>c e v. script c e v = (if e = Ev_dtls_data p then [Dtls_close] else [])" "p \<noteq> q"
  shows "\<exists>w'. pump_inbound (scripted_dtls log_dtls script env (Suc (Suc n))) data w = Some w' \<and>
    dtls_log w' = dtls_log w @ [Ev_dtls_data p, Ev_dtls_state DtlsState_Closed, Ev_dtls_data q]"
proof -
  obtain r1 l1 r2 l2 r3 b3 where reads: "SSL_read env 4096 l = ((r1, p), l1)" "0 < r1"
    "SSL_read env 4096 l1 = ((r2, q), l2)" "0 < r2" "SSL_read env 4096 l2 = ((r3, b3), l')" "r3 \<le> 0"
    using assms(6) by (auto elim!: plaintexts_ConsE plaintexts_NilE)
  then show ?thesis
    using assms(1-5,7,8)
    by (simp add: pump_inbound_def lock_inner_def unlock_inner_def bridge_close_def read_loop_step read_loop_stop
        run_script_def log_dtls_def DtlsTransport_close_def fire_dtls_state_change_def Let_def)
qed

end
