(* ===== verification/Negotiation.thy ===== *)
theory Negotiation
  imports Dtls_Flow
begin

text \<open>
  From the offer to the connection: what the negotiation in SDP (\<open>description.rs\<close>, \<open>certificate.rs\<close>,
  \<open>ice_transport.rs\<close>) means for the DTLS transport that is built on it.
\<close>

section \<open>The pinned peer\<close>

text \<open>C1: the chain of trust end to end. An offer carries the fingerprint of a certificate; its text
  travels; the receiver pins what it parsed and pins nothing else, in any run of calls, datagrams
  and nested callbacks. If its transport gets connected, the peer at the other end holds
  a certificate with the digest of the one in the offer.\<close>

theorem negotiated_peer:
  assumes offer: "digest_length (de_openssl env)" "description_ok d"
      "Certificate_fingerprint (de_openssl env) cert alg = Some (Inr fp)"
      "Description_parse now (Description_to_sdp (Description_set_fingerprint d fp)) = Inr d'"
      "d_fingerprint d' = Some pin"
    and run: "ssl_contract env peer" "dtls_fresh w0" "peer (dtls_ssl w0) = None"
      "\<And>op. op \<in> set ops \<Longrightarrow> op_pins op \<subseteq> {pin}"
      "\<And>c e v op. op \<in> set (script c e v) \<Longrightarrow> op_pins op \<subseteq> {pin}"
      "run_all (run_dtls (scripted_dtls log_dtls script env n)) ops w0 = Some w"
      "dtls_state w = DtlsState_Connected"
  shows "\<exists>c. peer (dtls_ssl w) = Some c \<and>
    X509_digest (de_openssl env) c (message_digest_for alg) =
    X509_digest (de_openssl env) (cert_x509 cert) (message_digest_for alg)"
proof -
  obtain bs where bs: "pin = \<lparr>fp_algorithm = alg, fp_value = fingerprint_str bs\<rparr>"
    "X509_digest (de_openssl env) (cert_x509 cert) (message_digest_for alg) = Inr bs"
    using offer_pins [OF offer(1-3), of now] offer(4,5) by auto
  have "\<exists>c fp d. peer (dtls_ssl w) = Some c \<and> fp \<in> {pin} \<and>
      X509_digest (de_openssl env) c (message_digest_for (fp_algorithm fp)) = Inr d \<and>
      format_fingerprint d = Some (to_ascii_uppercase (fp_value fp))"
    by (rule run_authenticated [OF run(1-3) _ _ run(6,7)]) (rule run(4,5), assumption)+
  then obtain c x where
    "peer (dtls_ssl w) = Some c" "X509_digest (de_openssl env) c (message_digest_for (fp_algorithm pin)) = Inr x"
    "format_fingerprint x = Some (to_ascii_uppercase (fp_value pin))"
    by auto
  with bs show ?thesis by (auto simp: format_fingerprint_total fingerprint_str_upper fingerprint_str_inj)
qed

theorem negotiated_peer_witness:
  "\<exists>fp d' pin w c.
    Certificate_fingerprint sample_openssl \<lparr>cert_x509 = 7, cert_pkey = 3\<rparr> FingerprintAlgorithm_Sha256 = Some (Inr fp) \<and>
    Description_parse None (Description_to_sdp (Description_set_fingerprint sample_description fp)) = Inr d' \<and>
    d_fingerprint d' = Some pin \<and>
    run_all (run_dtls (scripted_dtls log_dtls (\<lambda>_ _ _. []) toy_env (Suc 0))) toy_ops (toy_world True True) = Some w \<and>
    toy_peer (dtls_ssl w) = Some c \<and>
    X509_digest sample_openssl c MessageDigest_sha256 = X509_digest sample_openssl 7 MessageDigest_sha256"
proof -
  let ?cert = "\<lparr>cert_x509 = 7 :: nat, cert_pkey = 3\<rparr>"
  have fp: "Certificate_fingerprint sample_openssl ?cert FingerprintAlgorithm_Sha256 = Some (Inr toy_pin)"
    using sample_digest [of 7 FingerprintAlgorithm_Sha256] by (auto simp: Certificate_fingerprint_eq toy_pin_def)
  from offer_pins [OF sample_digest_length sample_ok fp, of None] obtain d' where
    d': "Description_parse None (Description_to_sdp (Description_set_fingerprint sample_description toy_pin)) = Inr d'"
    "d_fingerprint d' = Some toy_pin"
    by auto
  obtain w where w: "run_all (run_dtls (scripted_dtls log_dtls (\<lambda>_ _ _. []) toy_env (Suc 0))) toy_ops (toy_world True True) = Some w"
    "dtls_state w = DtlsState_Connected"
    using toy_run by blast
  have peer: "toy_peer (dtls_ssl (toy_world True True)) = None" by (simp add: toy_eval)
  have pins: "op_pins op \<subseteq> {toy_pin}" if "op \<in> set toy_ops" for op using that by (auto simp: toy_ops_def)
  obtain c where "toy_peer (dtls_ssl w) = Some c"
    "X509_digest (de_openssl toy_env) c (message_digest_for FingerprintAlgorithm_Sha256) =
     X509_digest (de_openssl toy_env) (cert_x509 ?cert) (message_digest_for FingerprintAlgorithm_Sha256)"
    using negotiated_peer [OF _ sample_ok _ d' toy_contract toy_world_fresh peer pins _ w, of ?cert FingerprintAlgorithm_Sha256]
      sample_digest_length fp
    by auto
  then show ?thesis using fp d' w(1) by (intro exI [of _ toy_pin] exI [of _ d'] exI [of _ toy_pin] exI [of _ w] exI [of _ c]) (auto simp: toy_fields)
qed

section \<open>The sides\<close>

text \<open>C34: the side is fixed too early. The constructor takes the client side from the role that ICE has at
  that moment. When the answerer builds its transport before it has applied the offer, the
  negotiation still makes its ICE role active, but the transport is a server: when ICE is connected it starts,
  sends nothing, and waits in Connecting for a ClientHello that the passive offerer, a server as well,
  does not send.\<close>

theorem early_transport_stalls:
  assumes new: "DtlsTransport_new sb certificate callbacks ice = Inr w" "ice_role ice = Role_ActPass" "\<not> ice_closed ice"
    and offer: "d_role offer = Role_ActPass"
      "IceTransport_set_remote_description ienv offer w = (r, w1)"
    and bio: "bio_contract env content" "content (SSL_set_mtu env 1232 (dtls_ssl w1)) = []"
    and quiet: "\<And>v. fire_dtls_state_change env DtlsState_Connecting v = Some v"
  shows "ice_role w1 = Role_Active \<and> \<not> dtls_is_client w1 \<and>
    (\<exists>w2. auto_start env State_Connected w1 = Some w2 \<and> ice_agent w2 = ice_agent w1 \<and>
       dtls_state w2 = DtlsState_Connecting \<and>
       (\<exists>w3. auto_start env State_Completed w2 = Some w3 \<and> ice_agent w3 = ice_agent w1 \<and> dtls_state w3 = DtlsState_Connecting))"
proof -
  have made: "\<not> dtls_is_client w" "ice_role w = Role_ActPass" "\<not> ice_closed w" "dtls_fresh w"
    using new DtlsTransport_new_fresh [OF new(1)]
    by (auto simp: DtlsTransport_new_def ice.defs Let_def result_iffs IceTransport_set_callbacks_def split: if_splits)
  have w1: "ice_role w1 = Role_Active" "\<not> dtls_is_client w1" "dtls_fresh w1"
    using offer made
    by (auto simp: IceTransport_set_remote_description_def Let_def resolve_role_def dtls_fresh_def split: prod.splits)
  obtain l where l: "BIO_read_out env 4096 (SSL_set_mtu env 1232 (dtls_ssl w1)) = (None, l)" "content l = []"
    using bio unfolding bio_contract_def by (metis drop_Nil prod.collapse zero_less_numeral)
  obtain l' where l': "BIO_read_out env 4096 l = (None, l')"
    using bio(1) l(2) unfolding bio_contract_def by (metis prod.collapse zero_less_numeral)
  let ?u = "w1\<lparr>dtls_started := True, dtls_state := DtlsState_Connecting,
    ice_callbacks := (ice_callbacks w1)\<lparr>on_state_change := DtlsStateHook (on_state_change (ice_callbacks w1)), on_data := DtlsPump\<rparr>,
    dtls_ssl := l\<rparr>"
  have first: "auto_start env State_Connected w1 = Some (?u\<lparr>dtls_locked := False\<rparr>)"
    using w1 l(1)
    by (simp add: auto_start_def DtlsTransport_start_def dtls_fresh_def Let_def quiet lock_inner_def unlock_inner_def DEFAULT_MTU_def
        IceTransport_set_callbacks_def drain_empty)
  have "auto_start env State_Completed (?u\<lparr>dtls_locked := False\<rparr>) = Some (?u\<lparr>dtls_locked := False, dtls_ssl := l'\<rparr>)"
    using w1 l' by (simp add: auto_start_def start_again dtls_fresh_def lock_inner_def unlock_inner_def drain_empty)
  with first w1 show ?thesis by simp
qed

theorem early_transport_stalls_witness:
  "\<exists>w r w1 w2. DtlsTransport_new toy_builder \<lparr>cert_x509 = 7, cert_pkey = 3\<rparr> \<lparr>dc_on_state_change = 5 :: nat, dc_on_data = 6\<rparr>
      (initial_ice \<lparr>agent_connected = True, agent_sent = []\<rparr> Role_ActPass toy_callbacks) =
      (Inr w :: (unit, unit) dtls_error + (nat, toy_agent, nat, toy_ssl) dtls) \<and>
    IceTransport_set_remote_description toy_ice (Description_new None Type_Offer Role_ActPass) w = (r, w1) \<and>
    ice_role w1 = Role_Active \<and> auto_start toy_env State_Connected w1 = Some w2 \<and>
    dtls_state w2 = DtlsState_Connecting \<and> agent_sent (ice_agent w2) = []"
proof -
  let ?ice = "initial_ice \<lparr>agent_connected = True, agent_sent = []\<rparr> Role_ActPass toy_callbacks"
  let ?offer = "Description_new None Type_Offer Role_ActPass"
  obtain w where w: "DtlsTransport_new toy_builder \<lparr>cert_x509 = 7, cert_pkey = 3\<rparr> \<lparr>dc_on_state_change = 5 :: nat, dc_on_data = 6\<rparr>
      ?ice = (Inr w :: (unit, unit) dtls_error + (nat, toy_agent, nat, toy_ssl) dtls)"
    "dtls_ssl w = toy_new" "ice_agent w = \<lparr>agent_connected = True, agent_sent = []\<rparr>" "\<not> ice_closed w"
    by (simp add: DtlsTransport_new_def build_ssl_context_def toy_builder_def ossl_err_def Let_def ok_or_def ice.defs initial_ice_def
        IceTransport_set_callbacks_def)
  obtain r w1 where set: "IceTransport_set_remote_description toy_ice ?offer w = (r, w1)" by fastforce
  then have w1: "dtls_ssl w1 = toy_new" "ice_agent w1 = \<lparr>agent_connected = True, agent_sent = []\<rparr>"
    using w(2,3,4) by (auto simp: IceTransport_set_remote_description_def toy_ice_def Let_def split: prod.splits)
  have "ice_role ?ice = Role_ActPass" "\<not> ice_closed ?ice" "d_role ?offer = Role_ActPass"
    "toy_out (SSL_set_mtu toy_env 1232 (dtls_ssl w1)) = []"
    "\<And>v :: (nat, toy_agent, nat, toy_ssl) dtls. fire_dtls_state_change toy_env DtlsState_Connecting v = Some v"
    using w1 by (simp_all add: initial_ice_def Description_new_def toy_new_def fire_dtls_state_change_def toy_env_def)
  from early_transport_stalls [OF w(1) this(1,2,3) set toy_bio this(4,5)] show ?thesis
    using w(1) set w1(2) by auto
qed

end
