(* ===== verification/Network.thy ===== *)
theory Network
  imports Dtls_Flow
begin

text \<open>
  Two peers over a network. What one peer sends goes down through DTLS and ICE, as datagrams that the
  network delivers or loses, and up through the agent's handler and the pump of the other.
\<close>

section \<open>What the ends rely on\<close>

text \<open>
  An agent that is up takes every datagram and puts it on the wire (\<open>wire\<close> is what it has sent so far).
\<close>

definition agent_contract :: "('u, 'j, 'je, 'd, 'l, 'w, 'e, 'h, 's) dtls_env \<Rightarrow> ('j \<Rightarrow> bool) \<Rightarrow> ('j \<Rightarrow> bytes list) \<Rightarrow> bool" where
  "agent_contract env up wire \<longleftrightarrow> (\<forall>j data. up j \<longrightarrow>
     (\<exists>j'. juice_send (de_ice env) j data = (Inr (), j') \<and> up j' \<and> wire j' = wire j @ [data]))"

text \<open>
  What DTLS gives two associated objects \<open>l\<close> and \<open>l'\<close>: a message of at most \<open>m\<close> bytes becomes one record that fits
  the drain's buffer; the association survives when the record is lost, and when it arrives
  the reader has exactly that message to read.
\<close>

definition record_contract ::
    "('u, 'j, 'je, 'd, 'l, 'w, 'e, 'h, 's) dtls_env \<Rightarrow> ('l \<Rightarrow> bytes) \<Rightarrow> ('l \<Rightarrow> 'l \<Rightarrow> bool) \<Rightarrow> nat \<Rightarrow> bool" where
  "record_contract env content associated m \<longleftrightarrow> (\<forall>l l'. associated l l' \<longrightarrow>
     associated l' l \<and> content l = [] \<and>
     (\<forall>data. data \<noteq> [] \<and> length data \<le> m \<longrightarrow>
        (let (ret, l1) = SSL_write env data l; l2 = snd (BIO_read_out env 4096 (snd (BIO_read_out env 4096 l1))) in
         0 < ret \<and> content l1 \<noteq> [] \<and> length (content l1) \<le> 4096 \<and> associated l2 l' \<and>
         (\<exists>n l3 l4. BIO_write_in env (content l1) l' = (n, l3) \<and> 0 \<le> n \<and> plaintexts env l3 [data] False l4 \<and>
            associated l2 l4))))"

lemma record_contractD:
  assumes "record_contract env content associated m" "associated l l'"
  shows "associated l' l" "content l = []"
    and "data \<noteq> [] \<Longrightarrow> length data \<le> m \<Longrightarrow> SSL_write env data l = (ret, l1) \<Longrightarrow>
      l2 = snd (BIO_read_out env 4096 (snd (BIO_read_out env 4096 l1))) \<Longrightarrow>
      0 < ret \<and> content l1 \<noteq> [] \<and> length (content l1) \<le> 4096 \<and> associated l2 l' \<and>
      (\<exists>n l3 l4. BIO_write_in env (content l1) l' = (n, l3) \<and> 0 \<le> n \<and> plaintexts env l3 [data] False l4 \<and> associated l2 l4)"
  using assms unfolding record_contract_def by (fastforce simp: Let_def)+

text \<open>An end of the connection: both layers are up and the shim of \<open>start\<close> is installed.\<close>

definition linked :: "('j \<Rightarrow> bool) \<Rightarrow> ('u, 'j, 'd, 'l, 'z) dtls_scheme \<Rightarrow> bool" where
  "linked up w \<longleftrightarrow> dtls_state w = DtlsState_Connected \<and> \<not> dtls_closed w \<and> \<not> dtls_locked w \<and>
     \<not> ice_closed w \<and> up (ice_agent w) \<and> on_data (ice_callbacks w) = DtlsPump"

section \<open>One message\<close>

lemma drain_record:
  assumes "bio_contract env content" "content (dtls_ssl w) \<noteq> []" "length (content (dtls_ssl w)) \<le> 4096" "\<not> ice_closed w"
    and "juice_send (de_ice env) (ice_agent w) (content (dtls_ssl w)) = (Inr (), j)"
  shows "drain_outbound_locked env w = Some (Inr (),
    w\<lparr>dtls_ssl := snd (BIO_read_out env 4096 (snd (BIO_read_out env 4096 (dtls_ssl w)))), ice_agent := j\<rparr>)"
proof -
  obtain l where l: "BIO_read_out env 4096 (dtls_ssl w) = (Some (content (dtls_ssl w)), l)" "content l = []"
    using assms(1-3) unfolding bio_contract_def by (metis drop_all fst_conv prod.collapse snd_conv take_all zero_less_numeral)
  obtain l2 where l2: "BIO_read_out env 4096 l = (None, l2)"
    using assms(1) l(2) unfolding bio_contract_def by (metis prod.collapse zero_less_numeral)
  have "IceTransport_send (de_ice env) (content (dtls_ssl w)) (w\<lparr>dtls_ssl := l\<rparr>) = (Inr (), w\<lparr>dtls_ssl := l, ice_agent := j\<rparr>)"
    using assms(4,5) by (simp add: IceTransport_send_def map_juice_err_def)
  with l l2 show ?thesis by (simp add: drain_step [OF l(1)] drain_empty)
qed

abbreviation quiet :: "('u, 'j, 'je, 'd, 'l, 'w, 'e, 'h, ('u, 'j, 'd, 'l, 'z) dtls_logged_scheme) dtls_env \<Rightarrow>
    ('u, 'j, 'je, 'd, 'l, 'w, 'e, 'h, ('u, 'j, 'd, 'l, 'z) dtls_logged_scheme) dtls_env" where
  "quiet env \<equiv> scripted_dtls log_dtls (\<lambda>_ _ _. []) env (Suc 0)"

lemma contracts_quiet [simp]: "bio_contract (quiet env) content = bio_contract env content"
  by (simp add: bio_contract_def)

lemma send_message:
  assumes "agent_contract env up wire" "bio_contract env content" "record_contract env content associated m"
    and "linked up a" "associated (dtls_ssl a) l'" "data \<noteq> []" "length data \<le> m"
  shows "\<exists>a' rec n l3 l4. DtlsTransport_send (quiet env) data a = Some (Inr (), a') \<and> linked up a' \<and>
    dtls_log a' = dtls_log a \<and> wire (ice_agent a') = wire (ice_agent a) @ [rec] \<and> associated (dtls_ssl a') l' \<and>
    BIO_write_in env rec l' = (n, l3) \<and> 0 \<le> n \<and> plaintexts env l3 [data] False l4 \<and> associated (dtls_ssl a') l4"
proof -
  obtain ret l1 where w: "SSL_write env data (dtls_ssl a) = (ret, l1)" by force
  note rc = record_contractD(3) [OF assms(3,5-7) w refl]
  obtain j where j: "juice_send (de_ice env) (ice_agent a) (content l1) = (Inr (), j)" "up j"
    "wire j = wire (ice_agent a) @ [content l1]"
    using assms(1,4) unfolding agent_contract_def linked_def by blast
  let ?w = "a\<lparr>dtls_locked := True, dtls_ssl := l1\<rparr>"
  have "drain_outbound_locked (quiet env) ?w = Some (Inr (),
      ?w\<lparr>dtls_ssl := snd (BIO_read_out env 4096 (snd (BIO_read_out env 4096 l1))), ice_agent := j\<rparr>)"
    using drain_record [of "quiet env" content ?w j] assms(2,4) rc j(1) by (simp add: linked_def)
  then have "DtlsTransport_send (quiet env) data a = Some (Inr (),
      a\<lparr>dtls_ssl := snd (BIO_read_out env 4096 (snd (BIO_read_out env 4096 l1))), ice_agent := j\<rparr>)"
    using assms(4) w rc by (simp add: DtlsTransport_send_def linked_def lock_inner_def unlock_inner_def)
  with rc j assms(4) show ?thesis by (fastforce simp: linked_def)
qed

lemma receive_message:
  assumes "linked up b" "BIO_write_in env rec (dtls_ssl b) = (n, l3)" "0 \<le> n" "plaintexts env l3 [data] False l4"
  shows "Bridge_on_juice_recv (stack_ice (quiet env)) rec b =
    Some (b\<lparr>dtls_ssl := l4, dtls_log := dtls_log b @ [Ev_dtls_data data]\<rparr>)"
  using assms pump_plaintexts [of b env rec n l3 "[data]" False l4 "\<lambda>_ _ _. []" 0]
  by (simp add: Bridge_on_juice_recv_def linked_def stack_ice_def Let_def)

section \<open>Long records\<close>

lemma agent_sends_up:
  "agent_contract env up wire \<Longrightarrow> up j \<Longrightarrow>
   \<exists>j'. agent_sends (juice_send (de_ice env)) j cs = (Inr (), j', []) \<and> wire j' = wire j @ cs"
proof (induction cs arbitrary: j)
  case (Cons c cs)
  then obtain j1 where "juice_send (de_ice env) j c = (Inr (), j1)" "up j1" "wire j1 = wire j @ [c]"
    unfolding agent_contract_def by blast
  with Cons.IH [of j1] Cons.prems show ?case by auto
qed simp

lemma chunks_bound: "c \<in> set (chunks n bs) \<Longrightarrow> length c \<le> n"
  by (induction n bs rule: chunks.induct) (subst (asm) (2) chunks.simps, auto split: if_splits)

text \<open>
  The bound on the record is needed: the drain reads the outbound BIO in pieces of its buffer, so that a longer
  record leaves as several datagrams, and the record itself is none of them.
\<close>

lemma long_record_split:
  assumes "agent_contract env up wire" "bio_contract env content" "\<not> ice_closed w" "up (ice_agent w)"
    and "4096 < length (content (dtls_ssl w))"
  shows "\<exists>w' datagrams. drain_outbound_locked env w = Some (Inr (), w') \<and>
    wire (ice_agent w') = wire (ice_agent w) @ datagrams \<and> concat datagrams = content (dtls_ssl w) \<and>
    content (dtls_ssl w) \<notin> set datagrams"
proof -
  let ?cs = "chunks 4096 (content (dtls_ssl w))"
  obtain j where j: "agent_sends (juice_send (de_ice env)) (ice_agent w) ?cs = (Inr (), j, [])"
    "wire j = wire (ice_agent w) @ ?cs"
    using agent_sends_up [OF assms(1,4)] by blast
  from drain_outbound_spec [OF assms(2,3) j(1)] obtain l where
    "drain_outbound_locked env w = Some (Inr (), w\<lparr>dtls_ssl := l, ice_agent := j\<rparr>)" by auto
  moreover have "content (dtls_ssl w) \<notin> set ?cs" using assms(5) chunks_bound [of _ 4096 "content (dtls_ssl w)"] by force
  ultimately show ?thesis using j(2) by (intro exI [of _ "w\<lparr>dtls_ssl := l, ice_agent := j\<rparr>"] exI [of _ ?cs]) (simp add: chunks_concat)
qed

section \<open>A conversation\<close>

text \<open>
  A message is who sends it (\<open>True\<close> for the first peer), its bytes, and whether the network delivers the
  datagrams it became.
\<close>

type_synonym message = "bool \<times> bytes \<times> bool"

definition send_over ::
    "('u, 'j, 'je, 'd, 'l, 'w, 'e, 'h, 'z) dtls_environment \<Rightarrow> ('j \<Rightarrow> bytes list) \<Rightarrow> bytes \<Rightarrow> bool \<Rightarrow>
       ('u, 'j, 'd, 'l, 'z) dtls_scheme \<Rightarrow> ('u, 'j, 'd, 'l, 'z) dtls_scheme \<Rightarrow>
       (('u, 'j, 'd, 'l, 'z) dtls_scheme \<times> ('u, 'j, 'd, 'l, 'z) dtls_scheme) option" where
  "send_over env wire data arrives a b =
     Option.bind (DtlsTransport_send env data a) (\<lambda>(r, a').
       let datagrams = drop (length (wire (ice_agent a))) (wire (ice_agent a')) in
       map_option (Pair a')
         (if arrives then run_all (Bridge_on_juice_recv (stack_ice env)) datagrams b else Some b))"

fun exchange ::
    "('u, 'j, 'je, 'd, 'l, 'w, 'e, 'h, 'z) dtls_environment \<Rightarrow> ('j \<Rightarrow> bytes list) \<Rightarrow> message list \<Rightarrow>
       ('u, 'j, 'd, 'l, 'z) dtls_scheme \<times> ('u, 'j, 'd, 'l, 'z) dtls_scheme \<Rightarrow>
       (('u, 'j, 'd, 'l, 'z) dtls_scheme \<times> ('u, 'j, 'd, 'l, 'z) dtls_scheme) option" where
  "exchange env wire [] ends = Some ends"
| "exchange env wire ((first, data, arrives) # ms) (a, b) =
     Option.bind (if first then send_over env wire data arrives a b
                  else map_option prod.swap (send_over env wire data arrives b a))
       (exchange env wire ms)"

text \<open>The messages of one side that arrive.\<close>

fun arriving :: "bool \<Rightarrow> message list \<Rightarrow> bytes list" where
  "arriving side [] = []"
| "arriving side ((first, data, arrives) # ms) = (if arrives \<and> first = side then data # arriving side ms else arriving side ms)"

lemma send_over_linked:
  assumes "agent_contract env up wire" "bio_contract env content" "record_contract env content associated m"
    and "linked up a" "linked up b" "associated (dtls_ssl a) (dtls_ssl b)" "data \<noteq> []" "length data \<le> m"
  shows "\<exists>a' b'. send_over (quiet env) wire data arrives a b = Some (a', b') \<and> linked up a' \<and> linked up b' \<and>
    associated (dtls_ssl a') (dtls_ssl b') \<and> dtls_log a' = dtls_log a \<and>
    dtls_log b' = dtls_log b @ (if arrives then [Ev_dtls_data data] else [])"
proof -
  obtain a' rec n l3 l4 where a': "DtlsTransport_send (quiet env) data a = Some (Inr (), a')" "linked up a'"
    "dtls_log a' = dtls_log a" "wire (ice_agent a') = wire (ice_agent a) @ [rec]" "associated (dtls_ssl a') (dtls_ssl b)"
    and b': "BIO_write_in env rec (dtls_ssl b) = (n, l3)" "0 \<le> n" "plaintexts env l3 [data] False l4" "associated (dtls_ssl a') l4"
    using send_message [OF assms(1-4,6-8)] by blast
  show ?thesis
    using a' assms(5) receive_message [OF assms(5) b'(1-3)] b'(4) by (cases arrives) (auto simp: send_over_def linked_def)
qed

lemma exchange_linked:
  assumes "agent_contract env up wire" "bio_contract env content" "record_contract env content associated m"
    and "linked up a" "linked up b" "associated (dtls_ssl a) (dtls_ssl b)"
    and "\<forall>(first, data, arrives) \<in> set ms. data \<noteq> [] \<and> length data \<le> m"
  shows "\<exists>a' b'. exchange (quiet env) wire ms (a, b) = Some (a', b') \<and> linked up a' \<and> linked up b' \<and>
    dtls_log a' = dtls_log a @ map Ev_dtls_data (arriving False ms) \<and>
    dtls_log b' = dtls_log b @ map Ev_dtls_data (arriving True ms)"
  using assms(4-)
proof (induction ms arbitrary: a b)
  case (Cons msg ms)
  obtain first data arrives where msg: "msg = (first, data, arrives)" by (cases msg)
  with Cons.prems(4) have data: "data \<noteq> []" "length data \<le> m" by auto
  have rest: "\<forall>(first, data, arrives) \<in> set ms. data \<noteq> [] \<and> length data \<le> m" using Cons.prems(4) by simp
  note sym = record_contractD(1) [OF assms(3)]
  show ?case
  proof (cases first)
    case True
    from send_over_linked [OF assms(1-3) Cons.prems(1-3) data, of arrives] obtain a1 b1 where
      one: "send_over (quiet env) wire data arrives a b = Some (a1, b1)" "linked up a1" "linked up b1"
      "associated (dtls_ssl a1) (dtls_ssl b1)" "dtls_log a1 = dtls_log a"
      "dtls_log b1 = dtls_log b @ (if arrives then [Ev_dtls_data data] else [])"
      by blast
    from Cons.IH [OF one(2-4) rest] True one(1,5,6) show ?thesis by (auto simp: msg)
  next
    case False
    from send_over_linked [OF assms(1-3) Cons.prems(2,1) sym [OF Cons.prems(3)] data, of arrives] obtain b1 a1 where
      one: "send_over (quiet env) wire data arrives b a = Some (b1, a1)" "linked up b1" "linked up a1"
      "associated (dtls_ssl b1) (dtls_ssl a1)" "dtls_log b1 = dtls_log b"
      "dtls_log a1 = dtls_log a @ (if arrives then [Ev_dtls_data data] else [])"
      by blast
    from Cons.IH [OF one(3,2) sym [OF one(4)] rest] False one(1,5,6) show ?thesis by (auto simp: msg)
  qed
qed simp

text \<open>C14: the stack as a message channel. Between two connected peers whose callbacks only take note, every message of 1 to
  \<open>m\<close> bytes is accepted, where \<open>m\<close> is such that its record fits the 4096 bytes of the drain's buffer (\<open>record_contract\<close>), and each side's
  \<open>on_data\<close> is called with exactly the messages of the other that arrive, whole, once and in order, whatever the
  interleaving of the two directions and whichever datagrams the network loses; both sides stay connected. The bound
  is needed: \<open>long_record_split\<close>.\<close>

theorem messages_cross:
  assumes "agent_contract env up wire" "bio_contract env content" "record_contract env content associated m"
    and "linked up a" "linked up b" "associated (dtls_ssl a) (dtls_ssl b)"
    and "\<forall>(first, data, arrives) \<in> set ms. data \<noteq> [] \<and> length data \<le> m"
  shows "\<exists>a' b'. exchange (quiet env) wire ms (a, b) = Some (a', b') \<and> linked up a' \<and> linked up b' \<and>
    dtls_log a' = dtls_log a @ map Ev_dtls_data (arriving False ms) \<and>
    dtls_log b' = dtls_log b @ map Ev_dtls_data (arriving True ms)"
  using assms by (rule exchange_linked)

declare exchange.simps [simp del]

lemma toy_agent_contract: "agent_contract toy_env agent_connected agent_sent"
  by (auto simp: agent_contract_def)

definition toy_associated :: "toy_ssl \<Rightarrow> toy_ssl \<Rightarrow> bool" where
  "toy_associated l l' \<longleftrightarrow> toy_in l = [] \<and> toy_out l = [] \<and> toy_in l' = [] \<and> toy_out l' = []"

lemma toy_records: "record_contract toy_env toy_out toy_associated 4096"
proof -
  have "plaintexts toy_env (l\<lparr>toy_in := data\<rparr>) [data] False l" if "data \<noteq> []" "length data \<le> 4096" "toy_in l = []" for data l
    using that plaintexts_stop [of toy_env l "-1" "[]" l]
    by (intro plaintexts_more [where ret = "int (length data)" and l' = l]) simp_all
  then show ?thesis
    by (auto simp: record_contract_def toy_associated_def Let_def)
qed

theorem messages_cross_witness:
  "\<exists>a b. exchange (quiet toy_env) agent_sent [(True, [1, 2], True), (True, [3], False), (False, [4], True), (True, [5], True)]
      ((toy_world True True)\<lparr>dtls_state := DtlsState_Connected, ice_callbacks := toy_callbacks\<lparr>on_data := DtlsPump\<rparr>\<rparr>,
       (toy_world True False)\<lparr>dtls_state := DtlsState_Connected, ice_callbacks := toy_callbacks\<lparr>on_data := DtlsPump\<rparr>\<rparr>) = Some (a, b) \<and>
    dtls_log a = [Ev_dtls_data [4]] \<and> dtls_log b = [Ev_dtls_data [1, 2], Ev_dtls_data [5]]"
proof -
  let ?w = "\<lambda>c. (toy_world True c)\<lparr>dtls_state := DtlsState_Connected, ice_callbacks := toy_callbacks\<lparr>on_data := DtlsPump\<rparr>\<rparr>"
  have "linked agent_connected (?w c)" for c by (simp add: linked_def toy_world_def)
  moreover have "toy_associated (dtls_ssl (?w True)) (dtls_ssl (?w False))" by (simp add: toy_associated_def toy_eval)
  moreover have "dtls_log (?w c) = []" for c by (simp add: toy_world_def)
  ultimately show ?thesis
    using messages_cross [OF toy_agent_contract toy_bio toy_records, of "?w True" "?w False"
      "[(True, [1, 2], True), (True, [3], False), (False, [4], True), (True, [5], True)]"]
    by auto
qed

end
