(* ===== verification/Handshake.thy ===== *)
theory Handshake
  imports Network
begin

text \<open>
  The handshake between two peers: what becomes of the flights that OpenSSL hands out on both sides, through the
  hooks of ICE, the drain, the network and the pumps, until both transports are connected or one refuses
  the certificate of the other.
\<close>

section \<open>What the ends rely on\<close>

text \<open>A memory BIO that has nothing to read is left as it is.\<close>

definition bio_still :: "('u, 'j, 'je, 'd, 'l, 'w, 'e, 'h, 's) dtls_env \<Rightarrow> ('l \<Rightarrow> bytes) \<Rightarrow> bool" where
  "bio_still env content \<longleftrightarrow> bio_contract env content \<and> (\<forall>l. content l = [] \<longrightarrow> BIO_read_out env 4096 l = (None, l))"

abbreviation drained :: "('u, 'j, 'je, 'd, 'l, 'w, 'e, 'h, 's) dtls_env \<Rightarrow> 'l \<Rightarrow> 'l" where
  "drained env l \<equiv> snd (BIO_read_out env 4096 l)"

abbreviation flight :: "('l \<Rightarrow> bytes) \<Rightarrow> 'l \<Rightarrow> bytes list" where
  "flight content l \<equiv> (if content l = [] then [] else [content l])"

type_synonym 'h verifier = "bool \<Rightarrow> 'h option \<Rightarrow> bool option"

text \<open>
  The conversation of two objects whose verify callbacks accept each other's certificates. \<open>l\<close> has a flight to read,
  \<open>l'\<close> waits; \<open>over\<close> tells whether the handshake of \<open>l'\<close> is over; \<open>m\<close> and \<open>m'\<close> are the objects at the end.
  A flight fits one datagram. An object whose handshake ends has no application data to read yet.
\<close>

inductive agree ::
    "('u, 'j, 'je, 'd, 'l, 'w, 'e, 'h, 's) dtls_env \<Rightarrow> ('l \<Rightarrow> bytes) \<Rightarrow> 'h verifier \<Rightarrow> 'h verifier \<Rightarrow> bool \<Rightarrow> 'l \<Rightarrow> 'l \<Rightarrow> 'l \<Rightarrow> 'l \<Rightarrow> bool"
  for env content where
  agree_reply: "SSL_do_handshake env v l = (ret, l1) \<Longrightarrow> SSL_get_error env l1 ret = SSL_ERROR_WANT_READ \<Longrightarrow>
     content l1 \<noteq> [] \<Longrightarrow> length (content l1) \<le> 4096 \<Longrightarrow>
     BIO_write_in env (content l1) l' = (n, l3) \<Longrightarrow> 0 \<le> n \<Longrightarrow> agree env content v' v False l3 (drained env l1) m' m \<Longrightarrow>
     agree env content v v' False l l' m m'"
| agree_finish: "SSL_do_handshake env v l = (ret, l1) \<Longrightarrow> SSL_get_error env l1 ret = SSL_ERROR_NONE \<Longrightarrow>
     content l1 \<noteq> [] \<Longrightarrow> length (content l1) \<le> 4096 \<Longrightarrow>
     plaintexts env (SSL_set_mtu env 4097 (drained env l1)) [] False l2 \<Longrightarrow>
     BIO_write_in env (content l1) l' = (n, l3) \<Longrightarrow> 0 \<le> n \<Longrightarrow> agree env content v' v True l3 l2 m' m \<Longrightarrow>
     agree env content v v' False l l' m m'"
| agree_last: "SSL_do_handshake env v l = (ret, l1) \<Longrightarrow> SSL_get_error env l1 ret = SSL_ERROR_NONE \<Longrightarrow>
     content l1 = [] \<Longrightarrow> plaintexts env (SSL_set_mtu env 4097 l1) [] False m \<Longrightarrow>
     agree env content v v' True l l' m l'"

text \<open>
  The conversation that ends with a refusal: by the object that reads if \<open>own\<close>, else by the other. The alert that
  is sent, if any, does not complete the handshake of its reader, nor is it answered.
\<close>

inductive refuse ::
    "('u, 'j, 'je, 'd, 'l, 'w, 'e, 'h, 's) dtls_env \<Rightarrow> ('l \<Rightarrow> bytes) \<Rightarrow> 'h verifier \<Rightarrow> 'h verifier \<Rightarrow> 'l \<Rightarrow> 'l \<Rightarrow> bool \<Rightarrow> bool"
  for env content where
  refuse_reply: "SSL_do_handshake env v l = (ret, l1) \<Longrightarrow> SSL_get_error env l1 ret = SSL_ERROR_WANT_READ \<Longrightarrow>
     content l1 \<noteq> [] \<Longrightarrow> length (content l1) \<le> 4096 \<Longrightarrow>
     BIO_write_in env (content l1) l' = (n, l3) \<Longrightarrow> 0 \<le> n \<Longrightarrow> refuse env content v' v l3 (drained env l1) own \<Longrightarrow>
     refuse env content v v' l l' (\<not> own)"
| refuse_here: "SSL_do_handshake env v l = (ret, l1) \<Longrightarrow>
     SSL_get_error env l1 ret \<notin> {SSL_ERROR_NONE, SSL_ERROR_WANT_READ, SSL_ERROR_WANT_WRITE} \<Longrightarrow>
     length (content l1) \<le> 4096 \<Longrightarrow>
     (content l1 \<noteq> [] \<Longrightarrow> \<exists>n l3 ret' l4. BIO_write_in env (content l1) l' = (n, l3) \<and> 0 \<le> n \<and>
        SSL_do_handshake env v' l3 = (ret', l4) \<and> SSL_get_error env l4 ret' \<notin> {SSL_ERROR_NONE, SSL_ERROR_WANT_WRITE} \<and> content l4 = []) \<Longrightarrow>
     refuse env content v v' l l' True"

definition accepts :: "'h verifier \<Rightarrow> 'h \<Rightarrow> bool" where
  "accepts v c \<longleftrightarrow> (\<forall>ok. v ok (Some c) = Some True)"

definition rejects :: "'h verifier \<Rightarrow> 'h \<Rightarrow> bool" where
  "rejects v c \<longleftrightarrow> (\<forall>ok. v ok (Some c) = Some False)"

text \<open>
  What DTLS gives a fresh client \<open>l\<close> and a fresh server \<open>l'\<close>, which present the certificates \<open>own l\<close> and \<open>own l'\<close>: the
  client's first flight starts a conversation that ends by agreement if both accept, and else is broken off by one who does not.
\<close>

definition first_flight ::
    "('u, 'j, 'je, 'd, 'l, 'w, 'e, 'h, 's) dtls_env \<Rightarrow> ('l \<Rightarrow> bytes) \<Rightarrow> ('l \<Rightarrow> 'l \<Rightarrow> bool) \<Rightarrow> 'h verifier \<Rightarrow> 'h verifier \<Rightarrow> 'h \<Rightarrow> 'h \<Rightarrow>
       int \<Rightarrow> 'l \<Rightarrow> int \<Rightarrow> 'l \<Rightarrow> bool" where
  "first_flight env content associated v v' c c' ret l1 n l3 \<longleftrightarrow>
     SSL_get_error env l1 ret = SSL_ERROR_WANT_READ \<and> content l1 \<noteq> [] \<and> length (content l1) \<le> 4096 \<and> 0 \<le> n \<and>
     (accepts v c' \<and> accepts v' c \<longrightarrow> (\<exists>m m'. agree env content v' v False l3 (drained env l1) m' m \<and> associated m m')) \<and>
     (rejects v c' \<longrightarrow> refuse env content v' v l3 (drained env l1) False) \<and>
     (accepts v c' \<and> rejects v' c \<longrightarrow> refuse env content v' v l3 (drained env l1) True)"

definition handshake_contract ::
    "('u, 'j, 'je, 'd, 'l, 'w, 'e, 'h, 's) dtls_env \<Rightarrow> ('l \<Rightarrow> bytes) \<Rightarrow> ('l \<Rightarrow> bool) \<Rightarrow> ('l \<Rightarrow> bool) \<Rightarrow> ('l \<Rightarrow> 'h) \<Rightarrow> ('l \<Rightarrow> 'l \<Rightarrow> bool) \<Rightarrow> bool" where
  "handshake_contract env content client server own associated \<longleftrightarrow>
     (\<forall>l k. content (SSL_set_mtu env k l) = content l \<and> own (SSL_set_mtu env k l) = own l) \<and>
     (\<forall>l k. client l \<longrightarrow> client (SSL_set_mtu env k l)) \<and>
     (\<forall>l k. server l \<longrightarrow> content l = [] \<and> server (SSL_set_mtu env k l)) \<and>
     (\<forall>l l' v v'. client l \<and> server l' \<longrightarrow> (\<exists>ret l1 n l3. SSL_do_handshake env v l = (ret, l1) \<and>
        BIO_write_in env (content l1) l' = (n, l3) \<and> first_flight env content associated v v' (own l) (own l') ret l1 n l3))"

section \<open>One flight\<close>

text \<open>A transport in the middle of its handshake, and the verify callback it gives to OpenSSL.\<close>

definition waiting :: "('j \<Rightarrow> bool) \<Rightarrow> ('u, 'j, 'd, 'l, 'z) dtls_scheme \<Rightarrow> bool" where
  "waiting up w \<longleftrightarrow> dtls_state w = DtlsState_Connecting \<and> \<not> dtls_closed w \<and> \<not> dtls_locked w \<and> \<not> dtls_handshake_done w \<and>
     \<not> ice_closed w \<and> up (ice_agent w) \<and> on_data (ice_callbacks w) = DtlsPump"

abbreviation pinning :: "('u, 'j, 'je, 'd, 'l, 'w, 'e, 'h, 's) dtls_env \<Rightarrow> ('u, 'j, 'd, 'l, 'z) dtls_scheme \<Rightarrow> 'h verifier" where
  "pinning env w \<equiv> verify_callback (de_openssl env) (dtls_expected w)"

lemma drain_flight:
  assumes "agent_contract env up wire" "bio_still env content" "\<not> ice_closed w" "up (ice_agent w)"
    and "length (content (dtls_ssl w)) \<le> 4096"
  obtains j where "drain_outbound_locked (quiet env) w = Some (Inr (), w\<lparr>dtls_ssl := drained env (dtls_ssl w), ice_agent := j\<rparr>)"
    "up j" "wire j = wire (ice_agent w) @ flight content (dtls_ssl w)" "content (drained env (dtls_ssl w)) = []"
proof (cases "content (dtls_ssl w) = []")
  case True
  with assms(2) have "BIO_read_out env 4096 (dtls_ssl w) = (None, dtls_ssl w)" by (simp add: bio_still_def)
  with True assms(4) show ?thesis by (intro that [of "ice_agent w"]) (simp_all add: drain_empty)
next
  case False
  obtain j where j: "juice_send (de_ice env) (ice_agent w) (content (dtls_ssl w)) = (Inr (), j)" "up j"
    "wire j = wire (ice_agent w) @ [content (dtls_ssl w)]"
    using assms(1,4) unfolding agent_contract_def by blast
  have bio: "bio_contract env content" and still: "\<And>l. content l = [] \<Longrightarrow> BIO_read_out env 4096 l = (None, l)"
    using assms(2) by (simp_all add: bio_still_def)
  have "content (drained env (dtls_ssl w)) = []" using bio assms(5) unfolding bio_contract_def by simp
  with drain_record [of "quiet env" content w j] bio still False assms(3,5) j show ?thesis
    by (intro that [of j]) simp_all
qed

lemma receive_flight:
  assumes "agent_contract env up wire" "bio_still env content" "waiting up w"
    and "BIO_write_in env d (dtls_ssl w) = (n, l)" "0 \<le> n" "SSL_do_handshake env (pinning env w) l = (ret, l1)"
    and "length (content l1) \<le> 4096"
  obtains j where "up j" "wire j = wire (ice_agent w) @ flight content l1" "content (drained env l1) = []"
    and "SSL_get_error env l1 ret = SSL_ERROR_WANT_READ \<Longrightarrow>
      Bridge_on_juice_recv (stack_ice (quiet env)) d w = Some (w\<lparr>dtls_ssl := drained env l1, ice_agent := j\<rparr>)"
    and "\<And>l2. SSL_get_error env l1 ret = SSL_ERROR_NONE \<Longrightarrow>
      plaintexts env (SSL_set_mtu env 4097 (drained env l1)) [] False l2 \<Longrightarrow>
      Bridge_on_juice_recv (stack_ice (quiet env)) d w = Some (w\<lparr>dtls_ssl := l2, ice_agent := j, dtls_handshake_done := True,
        dtls_state := DtlsState_Connected, dtls_log := dtls_log w @ [Ev_dtls_state DtlsState_Connected]\<rparr>)"
    and "SSL_get_error env l1 ret \<notin> {SSL_ERROR_NONE, SSL_ERROR_WANT_READ, SSL_ERROR_WANT_WRITE} \<Longrightarrow>
      Bridge_on_juice_recv (stack_ice (quiet env)) d w = Some (w\<lparr>dtls_ssl := drained env l1, ice_agent := j,
        dtls_state := DtlsState_Failed, dtls_log := dtls_log w @ [Ev_dtls_state DtlsState_Failed]\<rparr>)"
proof -
  let ?w = "w\<lparr>dtls_locked := True, dtls_ssl := l\<rparr>"
  note w = assms(3) [unfolded waiting_def]
  obtain j where j: "drain_outbound_locked (quiet env) (w\<lparr>dtls_locked := True, dtls_ssl := l1\<rparr>) =
      Some (Inr (), w\<lparr>dtls_locked := True, dtls_ssl := drained env l1, ice_agent := j\<rparr>)"
    "up j" "wire j = wire (ice_agent w) @ flight content l1" "content (drained env l1) = []"
    by (rule drain_flight [OF assms(1,2), of "w\<lparr>dtls_locked := True, dtls_ssl := l1\<rparr>"]) (use w assms(7) in simp_all)
  have recv: "Bridge_on_juice_recv (stack_ice (quiet env)) d w = pump_inbound (quiet env) d w"
    using w by (simp add: Bridge_on_juice_recv_def stack_ice_def)
  show ?thesis
  proof (rule that [OF j(2-4)])
    assume "SSL_get_error env l1 ret = SSL_ERROR_WANT_READ"
    with w j(1) assms(4-6) show "Bridge_on_juice_recv (stack_ice (quiet env)) d w = Some (w\<lparr>dtls_ssl := drained env l1, ice_agent := j\<rparr>)"
      unfolding recv by (simp add: pump_inbound_def drive_handshake_locked_def lock_inner_def unlock_inner_def Let_def)
  next
    fix l2
    let ?v = "w\<lparr>dtls_locked := True, ice_agent := j, dtls_handshake_done := True, dtls_ssl := SSL_set_mtu env 4097 (drained env l1),
        dtls_state := DtlsState_Connected, dtls_log := dtls_log w @ [Ev_dtls_state DtlsState_Connected]\<rparr>"
    assume none: "SSL_get_error env l1 ret = SSL_ERROR_NONE" and "plaintexts env (SSL_set_mtu env 4097 (drained env l1)) [] False l2"
    then have "read_loop (quiet env) ?v = Some (False, ?v\<lparr>dtls_ssl := l2\<rparr>)"
      using read_loop_plaintexts [of env ?v "[]" False l2 "\<lambda>_ _ _. []" 0] by simp
    with none w j(1) assms(4-6)
    show "Bridge_on_juice_recv (stack_ice (quiet env)) d w = Some (w\<lparr>dtls_ssl := l2, ice_agent := j, dtls_handshake_done := True,
        dtls_state := DtlsState_Connected, dtls_log := dtls_log w @ [Ev_dtls_state DtlsState_Connected]\<rparr>)"
      unfolding recv by (simp add: pump_inbound_def drive_handshake_locked_def lock_inner_def unlock_inner_def Let_def
          fire_dtls_state_change_def run_script_def log_dtls_def)
  next
    assume "SSL_get_error env l1 ret \<notin> {SSL_ERROR_NONE, SSL_ERROR_WANT_READ, SSL_ERROR_WANT_WRITE}"
    with w j(1) assms(4-6)
    show "Bridge_on_juice_recv (stack_ice (quiet env)) d w = Some (w\<lparr>dtls_ssl := drained env l1, ice_agent := j,
        dtls_state := DtlsState_Failed, dtls_log := dtls_log w @ [Ev_dtls_state DtlsState_Failed]\<rparr>)"
      unfolding recv by (cases "SSL_get_error env l1 ret")
        (simp_all add: pump_inbound_def drive_handshake_locked_def lock_inner_def unlock_inner_def fail_transport_def Let_def
          fire_dtls_state_change_def run_script_def log_dtls_def)
  qed
qed

section \<open>The datagrams between two peers\<close>

text \<open>
  What \<open>a\<close> has sent from its datagram \<open>n\<close> on goes to \<open>b\<close>, then what \<open>b\<close> answers goes to \<open>a\<close>, until nobody has sent
  anything new. \<open>None\<close> when the fuel ran out first.
\<close>

fun shuttle ::
    "('u, 'j, 'je, 'd, 'l, 'w, 'e, 'h, 'z) dtls_environment \<Rightarrow> ('j \<Rightarrow> bytes list) \<Rightarrow> nat \<Rightarrow>
       ('u, 'j, 'd, 'l, 'z) dtls_scheme \<Rightarrow> ('u, 'j, 'd, 'l, 'z) dtls_scheme \<Rightarrow> nat \<Rightarrow>
       (('u, 'j, 'd, 'l, 'z) dtls_scheme \<times> ('u, 'j, 'd, 'l, 'z) dtls_scheme) option" where
  "shuttle env wire 0 a b n = None"
| "shuttle env wire (Suc k) a b n =
     (let datagrams = drop n (wire (ice_agent a)) in
      if datagrams = [] then Some (a, b)
      else Option.bind (run_all (Bridge_on_juice_recv (stack_ice env)) datagrams b) (\<lambda>b'.
             map_option prod.swap (shuttle env wire k b' a (length (wire (ice_agent b))))))"

lemma shuttle_more: "shuttle env wire k a b n = Some r \<Longrightarrow> k \<le> k' \<Longrightarrow> shuttle env wire k' a b n = Some r"
proof (induction k arbitrary: a b n r k')
  case (Suc k)
  then obtain k'' where k'': "k' = Suc k''" "k \<le> k''" by (cases k') auto
  show ?case
  proof (cases "drop n (wire (ice_agent a)) = []")
    case False
    with Suc.prems(1) obtain b' q where "run_all (Bridge_on_juice_recv (stack_ice env)) (drop n (wire (ice_agent a))) b = Some b'"
      "shuttle env wire k b' a (length (wire (ice_agent b))) = Some q" "r = prod.swap q"
      by (auto simp: Let_def bind_eq_Some_conv simp del: drop_eq_Nil)
    with False Suc.IH [OF this(2) k''(2)] k''(1) show ?thesis by (simp add: Let_def)
  qed (use Suc.prems k'' in simp)
qed simp

lemma shuttle_one:
  assumes "drop n (wire (ice_agent x)) = [d]" "Bridge_on_juice_recv (stack_ice env) d y = Some y'"
    and "shuttle env wire k y' x (length (wire (ice_agent y))) = Some (y'', x'')"
  shows "shuttle env wire (Suc k) x y n = Some (x'', y'')"
  using assms by (simp add: Let_def)

lemma agree_shuttle:
  assumes contracts: "agent_contract env up wire" "bio_still env content"
    and "agree env content v v' over l l' m m'"
    and "pinning env y = v" "pinning env x = v'" "waiting up y" "if over then linked up x else waiting up x"
    and "dtls_ssl x = l'" "BIO_write_in env d (dtls_ssl y) = (i, l)" "0 \<le> i" "drop n (wire (ice_agent x)) = [d]"
  shows "\<exists>k x' y'. shuttle (quiet env) wire k x y n = Some (x', y') \<and> linked up x' \<and> linked up y' \<and>
    dtls_ssl x' = m' \<and> dtls_ssl y' = m \<and> dtls_log y' = dtls_log y @ [Ev_dtls_state DtlsState_Connected] \<and>
    dtls_log x' = dtls_log x @ (if over then [] else [Ev_dtls_state DtlsState_Connected])"
  using assms(3-)
proof (induction v v' over l l' m m' arbitrary: x y d i n rule: agree.induct)
  case (agree_reply v l ret l1 l' k l3 v' m' m)
  from receive_flight [OF contracts agree_reply.prems(3,6,7), of ret l1] agree_reply.prems(1) agree_reply.hyps(1,2,4)
  obtain j where j: "up j" "wire j = wire (ice_agent y) @ flight content l1"
    "Bridge_on_juice_recv (stack_ice (quiet env)) d y = Some (y\<lparr>dtls_ssl := drained env l1, ice_agent := j\<rparr>)"
    by metis
  let ?y = "y\<lparr>dtls_ssl := drained env l1, ice_agent := j\<rparr>"
  have "\<exists>k y' x'. shuttle (quiet env) wire k ?y x (length (wire (ice_agent y))) = Some (y', x') \<and> linked up y' \<and> linked up x' \<and>
    dtls_ssl y' = m \<and> dtls_ssl x' = m' \<and> dtls_log x' = dtls_log x @ [Ev_dtls_state DtlsState_Connected] \<and>
    dtls_log y' = dtls_log ?y @ (if False then [] else [Ev_dtls_state DtlsState_Connected])"
    by (rule agree_reply.IH [of x ?y "content l1" k]) (use agree_reply j in \<open>simp_all add: waiting_def\<close>)
  then obtain k y' x' where "shuttle (quiet env) wire k ?y x (length (wire (ice_agent y))) = Some (y', x')"
    "linked up y'" "linked up x'" "dtls_ssl y' = m" "dtls_ssl x' = m'"
    "dtls_log x' = dtls_log x @ [Ev_dtls_state DtlsState_Connected]" "dtls_log y' = dtls_log y @ [Ev_dtls_state DtlsState_Connected]"
    by auto
  with shuttle_one [where wire = wire, OF agree_reply.prems(8) j(3)] show ?case by (metis (full_types))
next
  case (agree_finish v l ret l1 l2 l' k l3 v' m' m)
  from receive_flight [OF contracts agree_finish.prems(3,6,7), of ret l1] agree_finish.prems(1) agree_finish.hyps(1,2,4,5)
  obtain j where j: "up j" "wire j = wire (ice_agent y) @ flight content l1"
    "Bridge_on_juice_recv (stack_ice (quiet env)) d y = Some (y\<lparr>dtls_ssl := l2, ice_agent := j, dtls_handshake_done := True,
        dtls_state := DtlsState_Connected, dtls_log := dtls_log y @ [Ev_dtls_state DtlsState_Connected]\<rparr>)"
    by metis
  let ?y = "y\<lparr>dtls_ssl := l2, ice_agent := j, dtls_handshake_done := True,
        dtls_state := DtlsState_Connected, dtls_log := dtls_log y @ [Ev_dtls_state DtlsState_Connected]\<rparr>"
  have "\<exists>k y' x'. shuttle (quiet env) wire k ?y x (length (wire (ice_agent y))) = Some (y', x') \<and> linked up y' \<and> linked up x' \<and>
    dtls_ssl y' = m \<and> dtls_ssl x' = m' \<and> dtls_log x' = dtls_log x @ [Ev_dtls_state DtlsState_Connected] \<and>
    dtls_log y' = dtls_log ?y @ (if True then [] else [Ev_dtls_state DtlsState_Connected])"
    by (rule agree_finish.IH [of x ?y "content l1" k]) (use agree_finish j in \<open>simp_all add: waiting_def linked_def\<close>)
  then obtain k y' x' where "shuttle (quiet env) wire k ?y x (length (wire (ice_agent y))) = Some (y', x')"
    "linked up y'" "linked up x'" "dtls_ssl y' = m" "dtls_ssl x' = m'"
    "dtls_log x' = dtls_log x @ [Ev_dtls_state DtlsState_Connected]" "dtls_log y' = dtls_log y @ [Ev_dtls_state DtlsState_Connected]"
    by auto
  with shuttle_one [where wire = wire, OF agree_finish.prems(8) j(3)] show ?case by (metis (full_types))
next
  case (agree_last v l ret l1 m v' l')
  have "drained env l1 = l1" using contracts(2) agree_last.hyps(3) by (simp add: bio_still_def)
  with receive_flight [OF contracts agree_last.prems(3,6,7), of ret l1] agree_last.prems(1) agree_last.hyps
  obtain j where j: "up j" "wire j = wire (ice_agent y) @ flight content l1"
    "Bridge_on_juice_recv (stack_ice (quiet env)) d y = Some (y\<lparr>dtls_ssl := m, ice_agent := j, dtls_handshake_done := True,
        dtls_state := DtlsState_Connected, dtls_log := dtls_log y @ [Ev_dtls_state DtlsState_Connected]\<rparr>)"
    by (metis list.size(3) zero_le)
  let ?y = "y\<lparr>dtls_ssl := m, ice_agent := j, dtls_handshake_done := True,
        dtls_state := DtlsState_Connected, dtls_log := dtls_log y @ [Ev_dtls_state DtlsState_Connected]\<rparr>"
  have "shuttle (quiet env) wire (Suc 0) ?y x (length (wire (ice_agent y))) = Some (?y, x)"
    using j(2) agree_last.hyps(3) by simp
  from shuttle_one [where wire = wire, OF agree_last.prems(8) j(3) this] agree_last.prems agree_last.hyps j(1) show ?case
    by (intro exI [of _ "Suc (Suc 0)"] exI [of _ x] exI [of _ ?y]) (simp add: waiting_def linked_def)
qed

text \<open>The same for a conversation that is broken off.\<close>

definition refused :: "('u, 'j, 'd, 'l, 'z) dtls_logged_scheme \<Rightarrow> ('u, 'j, 'd, 'l, 'z) dtls_logged_scheme \<Rightarrow> bool" where
  "refused w w' \<longleftrightarrow> dtls_state w' = DtlsState_Failed \<and> dtls_log w' = dtls_log w @ [Ev_dtls_state DtlsState_Failed]"

definition abandoned :: "('u, 'j, 'd, 'l, 'z) dtls_logged_scheme \<Rightarrow> ('u, 'j, 'd, 'l, 'z) dtls_logged_scheme \<Rightarrow> bool" where
  "abandoned w w' \<longleftrightarrow> refused w w' \<or> dtls_state w' = DtlsState_Connecting \<and> dtls_log w' = dtls_log w"

lemma refuse_shuttle:
  assumes contracts: "agent_contract env up wire" "bio_still env content"
    and "refuse env content v v' l l' own"
    and "pinning env y = v" "pinning env x = v'" "waiting up y" "waiting up x"
    and "dtls_ssl x = l'" "BIO_write_in env d (dtls_ssl y) = (i, l)" "0 \<le> i" "drop n (wire (ice_agent x)) = [d]"
  shows "\<exists>k x' y'. shuttle (quiet env) wire k x y n = Some (x', y') \<and>
    (if own then refused y y' \<and> abandoned x x' else refused x x' \<and> abandoned y y')"
  using assms(3-)
proof (induction v v' l l' own arbitrary: x y d i n rule: refuse.induct)
  case (refuse_reply v l ret l1 l' k l3 v' own)
  from receive_flight [OF contracts refuse_reply.prems(3,6,7), of ret l1] refuse_reply.prems(1) refuse_reply.hyps(1,2,4)
  obtain j where j: "up j" "wire j = wire (ice_agent y) @ flight content l1"
    "Bridge_on_juice_recv (stack_ice (quiet env)) d y = Some (y\<lparr>dtls_ssl := drained env l1, ice_agent := j\<rparr>)"
    by metis
  let ?y = "y\<lparr>dtls_ssl := drained env l1, ice_agent := j\<rparr>"
  have "\<exists>k y' x'. shuttle (quiet env) wire k ?y x (length (wire (ice_agent y))) = Some (y', x') \<and>
    (if own then refused x x' \<and> abandoned ?y y' else refused ?y y' \<and> abandoned x x')"
    by (rule refuse_reply.IH [of x ?y "content l1" k]) (use refuse_reply j in \<open>simp_all add: waiting_def\<close>)
  then obtain k y' x' where k: "shuttle (quiet env) wire k ?y x (length (wire (ice_agent y))) = Some (y', x')"
    "if own then refused x x' \<and> abandoned y y' else refused y y' \<and> abandoned x x'"
    by (auto simp: refused_def abandoned_def split: if_splits)
  with shuttle_one [where wire = wire, OF refuse_reply.prems(8) j(3) k(1)] show ?case
    by (intro exI [of _ "Suc k"] exI [of _ x'] exI [of _ y']) (auto split: if_splits)
next
  case (refuse_here v l ret l1 l' v')
  from receive_flight [OF contracts refuse_here.prems(3,6,7), of ret l1] refuse_here.prems(1) refuse_here.hyps(1-3)
  obtain j where j: "up j" "wire j = wire (ice_agent y) @ flight content l1"
    "Bridge_on_juice_recv (stack_ice (quiet env)) d y = Some (y\<lparr>dtls_ssl := drained env l1, ice_agent := j,
        dtls_state := DtlsState_Failed, dtls_log := dtls_log y @ [Ev_dtls_state DtlsState_Failed]\<rparr>)"
    by metis
  let ?y = "y\<lparr>dtls_ssl := drained env l1, ice_agent := j, dtls_state := DtlsState_Failed,
    dtls_log := dtls_log y @ [Ev_dtls_state DtlsState_Failed]\<rparr>"
  have "\<exists>k x'. shuttle (quiet env) wire k ?y x (length (wire (ice_agent y))) = Some (?y, x') \<and> abandoned x x'"
  proof (cases "content l1 = []")
    case True
    with j(2) have "shuttle (quiet env) wire (Suc 0) ?y x (length (wire (ice_agent y))) = Some (?y, x)" by simp
    with refuse_here.prems(4) show ?thesis by (fastforce simp: abandoned_def waiting_def)
  next
    case False
    with refuse_here.hyps(4) obtain i3 l3 ret' l4 where alert: "BIO_write_in env (content l1) l' = (i3, l3)" "0 \<le> i3"
      "SSL_do_handshake env v' l3 = (ret', l4)" "SSL_get_error env l4 ret' \<notin> {SSL_ERROR_NONE, SSL_ERROR_WANT_WRITE}" "content l4 = []"
      by blast
    have len: "length (content l4) \<le> 4096" using alert(5) by simp
    have "BIO_write_in env (content l1) (dtls_ssl x) = (i3, l3)" "SSL_do_handshake env (pinning env x) l3 = (ret', l4)"
      using alert(1,3) refuse_here.prems(2,5) by simp_all
    note recv = receive_flight [OF contracts refuse_here.prems(4) this(1) alert(2) this(2) len]
    obtain x' where x': "Bridge_on_juice_recv (stack_ice (quiet env)) (content l1) x = Some x'" "abandoned x x'"
      "wire (ice_agent x') = wire (ice_agent x)"
    proof (cases "SSL_get_error env l4 ret' = SSL_ERROR_WANT_READ")
      case True
      with recv obtain j' where j': "wire j' = wire (ice_agent x) @ flight content l4"
        "Bridge_on_juice_recv (stack_ice (quiet env)) (content l1) x = Some (x\<lparr>dtls_ssl := drained env l4, ice_agent := j'\<rparr>)"
        by metis
      with refuse_here.prems(4) alert(5) that [OF j'(2)] show ?thesis by (simp add: abandoned_def waiting_def)
    next
      case False
      with alert(4) have fatal: "SSL_get_error env l4 ret' \<notin> {SSL_ERROR_NONE, SSL_ERROR_WANT_READ, SSL_ERROR_WANT_WRITE}" by blast
      obtain j' where j': "wire j' = wire (ice_agent x) @ flight content l4"
        "Bridge_on_juice_recv (stack_ice (quiet env)) (content l1) x = Some (x\<lparr>dtls_ssl := drained env l4, ice_agent := j',
          dtls_state := DtlsState_Failed, dtls_log := dtls_log x @ [Ev_dtls_state DtlsState_Failed]\<rparr>)"
        by (rule recv) (rule that, assumption, use fatal in blast)
      with alert(5) that [OF j'(2)] show ?thesis by (simp add: abandoned_def refused_def)
    qed
    have quiet: "shuttle (quiet env) wire (Suc 0) x' ?y (length (wire (ice_agent x))) = Some (x', ?y)" using x'(3) by simp
    have "drop (length (wire (ice_agent y))) (wire (ice_agent ?y)) = [content l1]" using j(2) False by simp
    from shuttle_one [where wire = wire, OF this x'(1) quiet] x'(2) show ?thesis by blast
  qed
  then obtain k x' where "shuttle (quiet env) wire k ?y x (length (wire (ice_agent y))) = Some (?y, x')" "abandoned x x'"
    by blast
  with shuttle_one [where wire = wire, OF refuse_here.prems(8) j(3)] show ?case
    by (intro exI [of _ "Suc k"] exI [of _ x'] exI [of _ ?y]) (simp add: refused_def)
qed

section \<open>Coming up\<close>

text \<open>
  A transport as the constructor leaves it, with a closure \<open>u\<close> of the application below its hook, over an agent that
  is up but has not announced it.
\<close>

definition constructed :: "('j \<Rightarrow> bool) \<Rightarrow> ('u, 'j, 'd, 'l, 'z) dtls_scheme \<Rightarrow> bool" where
  "constructed up w \<longleftrightarrow> dtls_state w = DtlsState_New \<and> \<not> dtls_closed w \<and> \<not> dtls_started w \<and> \<not> dtls_handshake_done w \<and>
     \<not> dtls_locked w \<and> \<not> ice_closed w \<and> up (ice_agent w) \<and> ice_state w \<noteq> State_Connected \<and>
     (\<exists>u. on_state_change (ice_callbacks w) = DtlsAutoStart (IceUser u))"

definition came_up :: "('j \<Rightarrow> bool) \<Rightarrow> ('u, 'j, 'd, 'l, 'z) dtls_logged_scheme \<Rightarrow> ('u, 'j, 'd, 'l, 'z) dtls_logged_scheme \<Rightarrow> bool" where
  "came_up up w w' \<longleftrightarrow> waiting up w' \<and> dtls_expected w' = dtls_expected w \<and>
     dtls_log w' = dtls_log w @ [Ev_dtls_state DtlsState_Connecting, Ev_ice (Ev_state State_Connected)]"

lemmas coming_up = constructed_def came_up_def waiting_def Bridge_on_juice_state_def fire_state_change_def stack_ice_def
  auto_start_def DtlsTransport_start_def fire_dtls_state_change_def lock_inner_def unlock_inner_def Let_def run_script_def log_dtls_def
  DEFAULT_MTU_def IceTransport_set_callbacks_def

lemma server_up:
  assumes "bio_still env content" "constructed up w" "\<not> dtls_is_client w" "content (SSL_set_mtu env 1232 (dtls_ssl w)) = []"
  obtains w' where "Bridge_on_juice_state (stack_ice (quiet env)) Juice_Connected w = Some w'" "came_up up w w'"
    "dtls_ssl w' = SSL_set_mtu env 1232 (dtls_ssl w)" "ice_agent w' = ice_agent w"
proof -
  have "BIO_read_out env 4096 (SSL_set_mtu env 1232 (dtls_ssl w)) = (None, SSL_set_mtu env 1232 (dtls_ssl w))"
    using assms(1,4) by (simp add: bio_still_def)
  with assms(2,3) that show ?thesis by (auto simp: coming_up drain_empty)
qed

lemma client_up:
  assumes "agent_contract env up wire" "bio_still env content" "constructed up w" "dtls_is_client w"
    and "SSL_do_handshake env (pinning env w) (SSL_set_mtu env 1232 (dtls_ssl w)) = (ret, l1)"
    and "SSL_get_error env l1 ret = SSL_ERROR_WANT_READ" "length (content l1) \<le> 4096"
  obtains w' where "Bridge_on_juice_state (stack_ice (quiet env)) Juice_Connected w = Some w'" "came_up up w w'"
    "dtls_ssl w' = drained env l1" "wire (ice_agent w') = wire (ice_agent w) @ flight content l1"
proof -
  obtain u where u: "on_state_change (ice_callbacks w) = DtlsAutoStart (IceUser u)" using assms(3) by (auto simp: constructed_def)
  let ?v = "w\<lparr>ice_state := State_Connected, dtls_started := True, dtls_state := DtlsState_Connecting,
    dtls_log := dtls_log w @ [Ev_dtls_state DtlsState_Connecting],
    ice_callbacks := (ice_callbacks w)\<lparr>on_state_change := DtlsStateHook (DtlsAutoStart (IceUser u)), on_data := DtlsPump\<rparr>,
    dtls_locked := True, dtls_ssl := l1\<rparr>"
  obtain j where j: "drain_outbound_locked (quiet env) ?v = Some (Inr (), ?v\<lparr>dtls_ssl := drained env l1, ice_agent := j\<rparr>)"
    "up j" "wire j = wire (ice_agent w) @ flight content l1" "content (drained env l1) = []"
    by (rule drain_flight [OF assms(1,2), of ?v]) (use assms(3,7) in \<open>simp_all add: constructed_def\<close>)
  then have "BIO_read_out env 4096 (drained env l1) = (None, drained env l1)" using assms(2) by (simp add: bio_still_def)
  with assms(3-7) u j that show ?thesis by (auto simp: coming_up drive_handshake_locked_def drain_empty)
qed

section \<open>The handshake\<close>

text \<open>The certificate that the pinned fingerprint of a transport admits.\<close>

definition trusts :: "('u, 'j, 'je, 'd, 'l, 'w, 'e, 'h, 's) dtls_env \<Rightarrow> ('u, 'j, 'd, 'l, 'z) dtls_scheme \<Rightarrow> 'h \<Rightarrow> bool" where
  "trusts env w c \<longleftrightarrow> verify_callback (de_openssl env) (dtls_expected w) False (Some c) = Some True"

lemma trusts_accepts: "trusts env w c \<Longrightarrow> accepts (pinning env w) c"
  by (simp add: trusts_def accepts_def verify_callback_eq)

lemma not_trusts_rejects: "\<not> trusts env w c \<Longrightarrow> rejects (pinning env w) c"
  by (simp add: trusts_def rejects_def verify_callback_eq)

text \<open>
  ICE is announced to the server, then to the client; from then on the datagrams go back and forth until nobody
  sends any more.
\<close>

lemma handshake_outcome:
  assumes contracts: "agent_contract env up wire" "bio_still env content" "handshake_contract env content client server own associated"
    and a: "constructed up a" "dtls_is_client a" "client (dtls_ssl a)"
    and b: "constructed up b" "\<not> dtls_is_client b" "server (dtls_ssl b)"
  shows "\<exists>a1 b1 k a2 b2.
    Bridge_on_juice_state (stack_ice (quiet env)) Juice_Connected b = Some b1 \<and> came_up up b b1 \<and>
    Bridge_on_juice_state (stack_ice (quiet env)) Juice_Connected a = Some a1 \<and> came_up up a a1 \<and>
    shuttle (quiet env) wire k a1 b1 (length (wire (ice_agent a))) = Some (a2, b2) \<and>
    (if \<not> trusts env a (own (dtls_ssl b)) then refused a1 a2 \<and> abandoned b1 b2
     else if \<not> trusts env b (own (dtls_ssl a)) then refused b1 b2 \<and> abandoned a1 a2
     else linked up a2 \<and> linked up b2 \<and> associated (dtls_ssl a2) (dtls_ssl b2) \<and>
       dtls_log a2 = dtls_log a1 @ [Ev_dtls_state DtlsState_Connected] \<and>
       dtls_log b2 = dtls_log b1 @ [Ev_dtls_state DtlsState_Connected])"
proof -
  let ?la = "SSL_set_mtu env 1232 (dtls_ssl a)" and ?lb = "SSL_set_mtu env 1232 (dtls_ssl b)"
  have objects: "client ?la" "server ?lb" "own ?la = own (dtls_ssl a)" "own ?lb = own (dtls_ssl b)" "content ?lb = []"
    using contracts(3) a(3) b(3) unfolding handshake_contract_def by auto
  obtain b1 where b1: "Bridge_on_juice_state (stack_ice (quiet env)) Juice_Connected b = Some b1" "came_up up b b1" "dtls_ssl b1 = ?lb"
    using server_up [OF contracts(2) b(1,2) objects(5)] by metis
  obtain ret l1 n l3 where hello: "SSL_do_handshake env (pinning env a) ?la = (ret, l1)" "BIO_write_in env (content l1) ?lb = (n, l3)"
    and "first_flight env content associated (pinning env a) (pinning env b) (own ?la) (own ?lb) ret l1 n l3"
    using contracts(3) objects(1,2) unfolding handshake_contract_def by blast
  note opened = this(3) [unfolded first_flight_def objects(3,4)]
  obtain a1 where a1: "Bridge_on_juice_state (stack_ice (quiet env)) Juice_Connected a = Some a1" "came_up up a a1"
    "dtls_ssl a1 = drained env l1" "wire (ice_agent a1) = wire (ice_agent a) @ [content l1]"
    by (rule client_up [OF contracts(1,2) a(1,2) hello(1)]) (use opened in \<open>simp_all add: that\<close>)
  have wait: "waiting up a1" "waiting up b1" "pinning env a1 = pinning env a" "pinning env b1 = pinning env b"
    using a1(2) b1(2) by (simp_all add: came_up_def)
  have sent: "drop (length (wire (ice_agent a))) (wire (ice_agent a1)) = [content l1]"
    "BIO_write_in env (content l1) (dtls_ssl b1) = (n, l3)" "0 \<le> n"
    using a1(4) hello(2) b1(3) opened by simp_all
  note refusal = refuse_shuttle [OF contracts(1,2) _ wait(4,3,2,1) a1(3) sent(2,3,1)]
  have "\<exists>k a2 b2. shuttle (quiet env) wire k a1 b1 (length (wire (ice_agent a))) = Some (a2, b2) \<and>
    (if \<not> trusts env a (own (dtls_ssl b)) then refused a1 a2 \<and> abandoned b1 b2
     else if \<not> trusts env b (own (dtls_ssl a)) then refused b1 b2 \<and> abandoned a1 a2
     else linked up a2 \<and> linked up b2 \<and> associated (dtls_ssl a2) (dtls_ssl b2) \<and>
       dtls_log a2 = dtls_log a1 @ [Ev_dtls_state DtlsState_Connected] \<and>
       dtls_log b2 = dtls_log b1 @ [Ev_dtls_state DtlsState_Connected])"
  proof (cases "trusts env a (own (dtls_ssl b))")
    case False
    from not_trusts_rejects [OF this] opened
    have "refuse env content (pinning env b) (pinning env a) l3 (drained env l1) False" by simp
    from refusal [OF this] False show ?thesis by auto
  next
    case True
    then have accept: "accepts (pinning env a) (own (dtls_ssl b))" by (rule trusts_accepts)
    show ?thesis
    proof (cases "trusts env b (own (dtls_ssl a))")
      case False
      from not_trusts_rejects [OF this] accept opened
      have "refuse env content (pinning env b) (pinning env a) l3 (drained env l1) True" by simp
      from refusal [OF this] True False show ?thesis by auto
    next
      case both: True
      from trusts_accepts [OF this] accept opened obtain m m' where
        m: "agree env content (pinning env b) (pinning env a) False l3 (drained env l1) m' m" "associated m m'" by blast
      from agree_shuttle [OF contracts(1,2) m(1) wait(4,3,2) _ a1(3) sent(2,3,1)] wait(1) obtain k a2 b2 where
        "shuttle (quiet env) wire k a1 b1 (length (wire (ice_agent a))) = Some (a2, b2)" "linked up a2" "linked up b2"
        "dtls_ssl a2 = m" "dtls_ssl b2 = m'" "dtls_log b2 = dtls_log b1 @ [Ev_dtls_state DtlsState_Connected]"
        "dtls_log a2 = dtls_log a1 @ [Ev_dtls_state DtlsState_Connected]"
        by auto
      with True both m(2) show ?thesis by auto
    qed
  qed
  then show ?thesis using a1(1,2) b1(1,2) by blast
qed

section \<open>A sample DTLS for the witnesses\<close>

text \<open>
  Four flights: a hello, the server's certificate, the client's certificate, and the server's confirmation. The first
  byte of a datagram is its kind; 21 is an alert, 23 an application record.
\<close>

datatype pair_stage = Idle | Hello_sent | Certificate_sent | Established | Broken

record pair_ssl =
  ps_server :: bool
  ps_cert :: nat
  ps_stage :: pair_stage
  ps_in :: bytes
  ps_out :: bytes

definition pair_new :: "bool \<Rightarrow> nat \<Rightarrow> pair_ssl" where
  "pair_new server cert = \<lparr>ps_server = server, ps_cert = cert, ps_stage = Idle, ps_in = [], ps_out = []\<rparr>"

definition pair_handshake :: "nat verifier \<Rightarrow> pair_ssl \<Rightarrow> int \<times> pair_ssl" where
  "pair_handshake v l =
     (let say = (\<lambda>bs st. l\<lparr>ps_in := [], ps_out := ps_out l @ bs, ps_stage := st\<rparr>);
          checked = (\<lambda>ok. if v False (Some (unat (hd (tl (ps_in l))))) = Some True then ok else (-2, say [21] Broken))
      in if ps_stage l = Established then (1, l)
         else if ps_in l = [] then
           (if \<not> ps_server l \<and> ps_stage l = Idle then (-1, say [1] Hello_sent) else (-1, l))
         else if hd (ps_in l) = 21 then (-2, say [] Broken)
         else if ps_server l \<and> ps_stage l = Idle \<and> hd (ps_in l) = 1 then (-1, say [2, of_nat (ps_cert l)] Hello_sent)
         else if \<not> ps_server l \<and> ps_stage l = Hello_sent \<and> hd (ps_in l) = 2 then
           checked (-1, say [3, of_nat (ps_cert l)] Certificate_sent)
         else if ps_server l \<and> ps_stage l = Hello_sent \<and> hd (ps_in l) = 3 then checked (1, say [4] Established)
         else if \<not> ps_server l \<and> ps_stage l = Certificate_sent \<and> hd (ps_in l) = 4 then (1, say [] Established)
         else (-1, say [] (ps_stage l)))"

definition pair_env :: "('w, 'e, nat) openssl \<Rightarrow> (nat ice_closure, 'j, 'je, 's) ice_env \<Rightarrow>
    (nat, 'j, 'je, nat, pair_ssl, 'w, 'e, nat, 's) dtls_env" where
  "pair_env os ice = \<lparr>de_ice = ice, de_openssl = os,
     call_dtls_state_change = (\<lambda>_ _. Some), call_dtls_data = (\<lambda>_ _. Some),
     SSL_do_handshake = pair_handshake,
     SSL_get_error = (\<lambda>l ret. if ret = 1 then SSL_ERROR_NONE else if ret = -1 then SSL_ERROR_WANT_READ else SSL_ERROR_OTHER 1),
     SSL_write = (\<lambda>data l. (int (length data), l\<lparr>ps_out := ps_out l @ 23 # data\<rparr>)),
     SSL_read = (\<lambda>k l. if ps_in l = [] \<or> hd (ps_in l) \<noteq> 23 then ((-1, []), l\<lparr>ps_in := []\<rparr>)
       else ((int (length (tl (ps_in l))), tl (ps_in l)), l\<lparr>ps_in := []\<rparr>)),
     SSL_set_mtu = (\<lambda>_ l. l),
     BIO_read_out = (\<lambda>k l. if ps_out l = [] then (None, l)
       else (Some (take k (ps_out l)), l\<lparr>ps_out := drop k (ps_out l)\<rparr>)),
     BIO_write_in = (\<lambda>data l. (int (length data), l\<lparr>ps_in := ps_in l @ data\<rparr>))\<rparr>"

lemma pair_fields [simp]:
  "de_openssl (pair_env os ice) = os" "de_ice (pair_env os ice) = ice" "SSL_do_handshake (pair_env os ice) = pair_handshake"
  "SSL_get_error (pair_env os ice) l ret = (if ret = 1 then SSL_ERROR_NONE else if ret = -1 then SSL_ERROR_WANT_READ else SSL_ERROR_OTHER 1)"
  "SSL_write (pair_env os ice) data l = (int (length data), l\<lparr>ps_out := ps_out l @ 23 # data\<rparr>)"
  "SSL_read (pair_env os ice) k l = (if ps_in l = [] \<or> hd (ps_in l) \<noteq> 23 then ((-1, []), l\<lparr>ps_in := []\<rparr>)
       else ((int (length (tl (ps_in l))), tl (ps_in l)), l\<lparr>ps_in := []\<rparr>))"
  "SSL_set_mtu (pair_env os ice) k l = l"
  "BIO_read_out (pair_env os ice) k l = (if ps_out l = [] then (None, l)
       else (Some (take k (ps_out l)), l\<lparr>ps_out := drop k (ps_out l)\<rparr>))"
  "BIO_write_in (pair_env os ice) data l = (int (length data), l\<lparr>ps_in := ps_in l @ data\<rparr>)"
  by (simp_all add: pair_env_def)

definition pair_fresh :: "bool \<Rightarrow> pair_ssl \<Rightarrow> bool" where
  "pair_fresh server l \<longleftrightarrow> (\<exists>c < 256. l = pair_new server c)"

definition pair_associated :: "pair_ssl \<Rightarrow> pair_ssl \<Rightarrow> bool" where
  "pair_associated l l' \<longleftrightarrow> ps_in l = [] \<and> ps_out l = [] \<and> ps_in l' = [] \<and> ps_out l' = []"

lemma pair_still: "bio_still (pair_env os ice) ps_out"
  by (simp add: bio_still_def bio_contract_def)

lemma pair_records: "record_contract (pair_env os ice) ps_out pair_associated 4095"
proof -
  have "plaintexts (pair_env os ice) (l\<lparr>ps_in := 23 # data\<rparr>) [data] False l" if "data \<noteq> []" "ps_in l = []" for data l
    using that plaintexts_stop [of "pair_env os ice" l "-1" "[]" l]
    by (intro plaintexts_more [where ret = "int (length data)" and l' = l]) (cases l, simp_all)
  then show ?thesis
    by (auto simp: record_contract_def pair_associated_def Let_def)
qed

lemma pair_agrees:
  fixes c c' :: nat
  assumes "accepts v c'" "accepts v' c" "c < 256" "c' < 256"
  shows "\<exists>m m'. agree (pair_env os ice) ps_out v' v False ((pair_new True c')\<lparr>ps_in := [1]\<rparr>)
    ((pair_new False c)\<lparr>ps_stage := Hello_sent\<rparr>) m' m \<and> pair_associated m m'"
proof -
  let ?env = "pair_env os ice"
  let ?m = "(pair_new False c)\<lparr>ps_stage := Established\<rparr>" and ?m' = "(pair_new True c')\<lparr>ps_stage := Established\<rparr>"
  have nat: "unat (of_nat c :: u8) = c" "unat (of_nat c' :: u8) = c'" using assms(3,4) by (simp_all add: unat_of_nat)
  have quiet: "plaintexts ?env l [] False l" if "ps_in l = []" for l
    using that plaintexts_stop [of ?env l "-1" "[]" l] by simp
  have last: "agree ?env ps_out v v' True ((pair_new False c)\<lparr>ps_stage := Certificate_sent, ps_in := [4]\<rparr>) ?m' ?m ?m'"
    by (rule agree_last [where ret = 1 and ?l1.0 = ?m]) (simp_all add: pair_handshake_def pair_new_def Let_def quiet)
  have finish: "agree ?env ps_out v' v False ((pair_new True c')\<lparr>ps_stage := Hello_sent, ps_in := [3, of_nat c]\<rparr>)
      ((pair_new False c)\<lparr>ps_stage := Certificate_sent\<rparr>) ?m' ?m"
    by (rule agree_finish [where ret = 1 and ?l1.0 = "?m'\<lparr>ps_out := [4]\<rparr>" and ?l2.0 = ?m' and n = 1, OF _ _ _ _ _ _ _ last])
      (use assms(2) nat(1) quiet [of ?m'] in \<open>simp_all add: pair_handshake_def pair_new_def Let_def accepts_def\<close>)
  have reply: "agree ?env ps_out v v' False ((pair_new False c)\<lparr>ps_stage := Hello_sent, ps_in := [2, of_nat c']\<rparr>)
      ((pair_new True c')\<lparr>ps_stage := Hello_sent\<rparr>) ?m ?m'"
    by (rule agree_reply [where ret = "-1" and ?l1.0 = "(pair_new False c)\<lparr>ps_stage := Certificate_sent, ps_out := [3, of_nat c]\<rparr>"
          and n = 2 and ?l3.0 = "(pair_new True c')\<lparr>ps_stage := Hello_sent, ps_in := [3, of_nat c]\<rparr>"])
      (use assms(1) nat(2) finish in \<open>simp_all add: pair_handshake_def pair_new_def Let_def accepts_def\<close>)
  have "agree ?env ps_out v' v False ((pair_new True c')\<lparr>ps_in := [1]\<rparr>) ((pair_new False c)\<lparr>ps_stage := Hello_sent\<rparr>) ?m' ?m"
    by (rule agree_reply [where ret = "-1" and ?l1.0 = "(pair_new True c')\<lparr>ps_stage := Hello_sent, ps_out := [2, of_nat c']\<rparr>"
          and n = 2 and ?l3.0 = "(pair_new False c)\<lparr>ps_stage := Hello_sent, ps_in := [2, of_nat c']\<rparr>"])
      (use reply in \<open>simp_all add: pair_handshake_def pair_new_def Let_def\<close>)
  then show ?thesis by (intro exI [of _ ?m] exI [of _ ?m']) (simp add: pair_associated_def pair_new_def)
qed

lemma pair_refuses:
  fixes c c' :: nat
  assumes "c < 256" "c' < 256"
  shows "rejects v c' \<Longrightarrow> refuse (pair_env os ice) ps_out v' v ((pair_new True c')\<lparr>ps_in := [1]\<rparr>)
      ((pair_new False c)\<lparr>ps_stage := Hello_sent\<rparr>) False"
    and "accepts v c' \<Longrightarrow> rejects v' c \<Longrightarrow> refuse (pair_env os ice) ps_out v' v ((pair_new True c')\<lparr>ps_in := [1]\<rparr>)
      ((pair_new False c)\<lparr>ps_stage := Hello_sent\<rparr>) True"
proof -
  let ?env = "pair_env os ice"
  have nat: "unat (of_nat c :: u8) = c" "unat (of_nat c' :: u8) = c'" using assms by (simp_all add: unat_of_nat)
  have hello: "refuse ?env ps_out v' v ((pair_new True c')\<lparr>ps_in := [1]\<rparr>) ((pair_new False c)\<lparr>ps_stage := Hello_sent\<rparr>) (\<not> who)"
    if "refuse ?env ps_out v v' ((pair_new False c)\<lparr>ps_stage := Hello_sent, ps_in := [2, of_nat c']\<rparr>)
      ((pair_new True c')\<lparr>ps_stage := Hello_sent\<rparr>) who" for who
    by (rule refuse_reply [where ret = "-1" and ?l1.0 = "(pair_new True c')\<lparr>ps_stage := Hello_sent, ps_out := [2, of_nat c']\<rparr>"
          and n = 2 and ?l3.0 = "(pair_new False c)\<lparr>ps_stage := Hello_sent, ps_in := [2, of_nat c']\<rparr>"])
      (use that in \<open>simp_all add: pair_handshake_def pair_new_def Let_def\<close>)
  {
    assume "rejects v c'"
    then have "refuse ?env ps_out v v' ((pair_new False c)\<lparr>ps_stage := Hello_sent, ps_in := [2, of_nat c']\<rparr>)
        ((pair_new True c')\<lparr>ps_stage := Hello_sent\<rparr>) True"
      by (intro refuse_here [where ret = "-2" and ?l1.0 = "(pair_new False c)\<lparr>ps_stage := Broken, ps_out := [21]\<rparr>"])
        (simp_all add: pair_handshake_def pair_new_def Let_def rejects_def nat)
    from hello [OF this] show "refuse ?env ps_out v' v ((pair_new True c')\<lparr>ps_in := [1]\<rparr>)
      ((pair_new False c)\<lparr>ps_stage := Hello_sent\<rparr>) False" by simp
  next
    assume v: "accepts v c'" "rejects v' c"
    from v(2) have "refuse ?env ps_out v' v ((pair_new True c')\<lparr>ps_stage := Hello_sent, ps_in := [3, of_nat c]\<rparr>)
        ((pair_new False c)\<lparr>ps_stage := Certificate_sent\<rparr>) True"
      by (intro refuse_here [where ret = "-2" and ?l1.0 = "(pair_new True c')\<lparr>ps_stage := Broken, ps_out := [21]\<rparr>"])
        (simp_all add: pair_handshake_def pair_new_def Let_def rejects_def nat)
    then have "refuse ?env ps_out v v' ((pair_new False c)\<lparr>ps_stage := Hello_sent, ps_in := [2, of_nat c']\<rparr>)
        ((pair_new True c')\<lparr>ps_stage := Hello_sent\<rparr>) (\<not> True)"
      by (intro refuse_reply [where ret = "-1" and ?l1.0 = "(pair_new False c)\<lparr>ps_stage := Certificate_sent, ps_out := [3, of_nat c]\<rparr>"
            and n = 2 and ?l3.0 = "(pair_new True c')\<lparr>ps_stage := Hello_sent, ps_in := [3, of_nat c]\<rparr>"])
        (use v(1) in \<open>simp_all add: pair_handshake_def pair_new_def Let_def accepts_def nat\<close>)
    from hello [OF this] show "refuse ?env ps_out v' v ((pair_new True c')\<lparr>ps_in := [1]\<rparr>)
      ((pair_new False c)\<lparr>ps_stage := Hello_sent\<rparr>) True" by simp
  }
qed

lemma pair_contract:
  "handshake_contract (pair_env os ice) ps_out (pair_fresh False) (pair_fresh True) ps_cert pair_associated"
proof -
  let ?env = "pair_env os ice"
  have "\<exists>ret l1 n l3. SSL_do_handshake ?env v l = (ret, l1) \<and> BIO_write_in ?env (ps_out l1) l' = (n, l3) \<and>
      first_flight ?env ps_out pair_associated v v' (ps_cert l) (ps_cert l') ret l1 n l3"
    if "pair_fresh False l" "pair_fresh True l'" for l l' v v'
  proof -
    obtain c c' where c: "l = pair_new False c" "l' = pair_new True c'" "c < 256" "c' < 256"
      using \<open>pair_fresh False l\<close> \<open>pair_fresh True l'\<close> by (auto simp: pair_fresh_def)
    note ends = pair_agrees [where v = v and v' = v' and ice = ice and os = os, OF _ _ c(3,4)]
      pair_refuses [where v = v and v' = v' and ice = ice and os = os, OF c(3,4)]
    show ?thesis
      by (intro exI [of _ "-1"] exI [of _ "(pair_new False c)\<lparr>ps_out := [1], ps_stage := Hello_sent\<rparr>"] exI [of _ 1]
          exI [of _ "(pair_new True c')\<lparr>ps_in := [1]\<rparr>"])
        (use ends in \<open>simp add: c first_flight_def pair_handshake_def pair_new_def Let_def\<close>)
  qed
  then show ?thesis by (auto simp: handshake_contract_def pair_fresh_def pair_new_def)
qed

definition pair_pin :: "nat \<Rightarrow> fingerprint" where
  "pair_pin c = \<lparr>fp_algorithm = FingerprintAlgorithm_Sha256, fp_value = fingerprint_str (replicate 32 (of_nat c))\<rparr>"

lemma pair_pin_fingerprint:
  "Certificate_fingerprint sample_openssl \<lparr>cert_x509 = c, cert_pkey = k\<rparr> FingerprintAlgorithm_Sha256 = Some (Inr (pair_pin c))"
  using sample_digest [of c FingerprintAlgorithm_Sha256] by (auto simp: Certificate_fingerprint_eq pair_pin_def)

definition pair_world :: "bool \<Rightarrow> nat \<Rightarrow> fingerprint option \<Rightarrow> (nat, toy_agent, nat, pair_ssl) dtls_logged" where
  "pair_world client cert pin = \<lparr>ice_agent = \<lparr>agent_connected = True, agent_sent = []\<rparr>,
     ice_role = (if client then Role_Active else Role_Passive), ice_state = State_New,
     ice_gathering = GatheringState_New, ice_mid = ''0'', ice_callbacks = toy_callbacks, ice_closed = False,
     dtls_ssl = pair_new (\<not> client) cert, dtls_handshake_done = False, dtls_locked = False, dtls_state = DtlsState_New,
     dtls_callbacks = \<lparr>dc_on_state_change = 5, dc_on_data = 6\<rparr>, dtls_closed = False, dtls_is_client = client,
     dtls_expected = pin, dtls_started = False, dtls_log = []\<rparr>"

lemma pair_world_constructed:
  "constructed agent_connected (pair_world client cert pin)" "dtls_is_client (pair_world client cert pin) = client"
  "cert < 256 \<Longrightarrow> pair_fresh (\<not> client) (dtls_ssl (pair_world client cert pin))" "ps_cert (dtls_ssl (pair_world client cert pin)) = cert"
  "dtls_expected (pair_world client cert pin) = pin" "dtls_log (pair_world client cert pin) = []"
  "agent_sent (ice_agent (pair_world client cert pin)) = []"
  by (auto simp: constructed_def pair_world_def toy_callbacks_def pair_fresh_def pair_new_def)

lemma pair_trusts:
  "trusts (pair_env sample_openssl ice) (pair_world client c (Some (pair_pin d))) d" "\<not> trusts (pair_env sample_openssl ice) (pair_world client c None) d"
  using sample_digest [of d FingerprintAlgorithm_Sha256]
  by (auto simp: trusts_def verify_callback_eq pair_world_constructed(5) pair_pin_def fingerprint_str_upper)

lemma toy_agents: "agent_contract (pair_env sample_openssl toy_ice) agent_connected agent_sent"
  by (auto simp: agent_contract_def)

section \<open>Properties\<close>

text \<open>C11: no pin, no connection. When one side has not pinned a fingerprint that admits the certificate of the other, then in
  the run where ICE is announced to the server before the client, the network delivers every datagram in order, the
  callbacks only take note and a flight fits one datagram (\<open>handshake_contract\<close>), the handshake comes to an end all the
  same: the client fails if it does not trust the server, else the server does, it says so once, and nobody is Connected;
  the other side is told Failed or is left in Connecting. Under another order of events the handshake may not end
  (\<open>early_hello_stalls\<close>).\<close>

theorem handshake_refused:
  assumes "agent_contract env up wire" "bio_still env content" "handshake_contract env content client server own associated"
    and "constructed up a" "dtls_is_client a" "client (dtls_ssl a)"
    and "constructed up b" "\<not> dtls_is_client b" "server (dtls_ssl b)"
    and "\<not> (trusts env a (own (dtls_ssl b)) \<and> trusts env b (own (dtls_ssl a)))"
  shows "\<exists>a1 b1 k a2 b2.
    Bridge_on_juice_state (stack_ice (quiet env)) Juice_Connected b = Some b1 \<and> came_up up b b1 \<and>
    Bridge_on_juice_state (stack_ice (quiet env)) Juice_Connected a = Some a1 \<and> came_up up a a1 \<and>
    shuttle (quiet env) wire k a1 b1 (length (wire (ice_agent a))) = Some (a2, b2) \<and>
    (if trusts env a (own (dtls_ssl b)) then refused b1 b2 \<and> abandoned a1 a2 else refused a1 a2 \<and> abandoned b1 b2) \<and>
    DtlsState_Connected \<notin> {dtls_state a2, dtls_state b2}"
  using handshake_outcome [OF assms(1-9)] assms(10) by (fastforce simp: refused_def abandoned_def)

theorem handshake_refused_witness:
  "\<exists>a1 b1 k a2 b2.
    Bridge_on_juice_state (stack_ice (quiet (pair_env sample_openssl toy_ice))) Juice_Connected (pair_world False 9 None) = Some b1 \<and>
    Bridge_on_juice_state (stack_ice (quiet (pair_env sample_openssl toy_ice))) Juice_Connected (pair_world True 7 (Some (pair_pin 9))) = Some a1 \<and>
    shuttle (quiet (pair_env sample_openssl toy_ice)) agent_sent k a1 b1 0 = Some (a2, b2) \<and>
    dtls_state b2 = DtlsState_Failed \<and> DtlsState_Connected \<noteq> dtls_state a2"
proof -
  have a: "pair_fresh False (dtls_ssl (pair_world True 7 (Some (pair_pin 9))))" and b: "pair_fresh True (dtls_ssl (pair_world False 9 None))"
    using pair_world_constructed(3) [of 7 True "Some (pair_pin 9)"] pair_world_constructed(3) [of 9 False None] by simp_all
  show ?thesis
    using handshake_refused [OF toy_agents pair_still pair_contract pair_world_constructed(1) _ a pair_world_constructed(1) _ b]
    by (simp add: pair_world_constructed pair_trusts refused_def) blast
qed

text \<open>C2: two transports that pin each other get connected and carry data, when the callbacks only take note. Each side has
  pinned the fingerprint of the other's certificate; ICE is announced to the server, then to the client; the network
  delivers the handshake in order and without loss, a flight to a datagram (\<open>handshake_contract\<close>). The handshake comes to
  an end with both sides Connected, which each reports once, after Connecting. Then every message of 1 to \<open>m\<close> bytes is
  accepted, where \<open>m\<close> is such that its record fits the 4096 bytes of the drain's buffer (\<open>record_contract\<close>; a longer record is
  cut, \<open>long_record_split\<close>), and each side's \<open>on_data\<close> gets exactly the messages of the other that the network delivers, whole
  and in order.\<close>

theorem connection_established:
  assumes contracts: "agent_contract env up wire" "bio_still env content" "handshake_contract env content client server own associated"
      "record_contract env content associated m"
    and a: "constructed up a" "dtls_is_client a" "client (dtls_ssl a)" "own (dtls_ssl a) = cert_x509 cert_a"
    and b: "constructed up b" "\<not> dtls_is_client b" "server (dtls_ssl b)" "own (dtls_ssl b) = cert_x509 cert_b"
    and pins: "Certificate_fingerprint (de_openssl env) cert_a alg = Some (Inr fp_a)" "dtls_expected b = Some fp_a"
      "Certificate_fingerprint (de_openssl env) cert_b alg' = Some (Inr fp_b)" "dtls_expected a = Some fp_b"
    and messages: "\<forall>(first, data, arrives) \<in> set ms. data \<noteq> [] \<and> length data \<le> m"
  shows "\<exists>a1 b1 k a2 b2 a3 b3.
    Bridge_on_juice_state (stack_ice (quiet env)) Juice_Connected b = Some b1 \<and>
    Bridge_on_juice_state (stack_ice (quiet env)) Juice_Connected a = Some a1 \<and>
    shuttle (quiet env) wire k a1 b1 (length (wire (ice_agent a))) = Some (a2, b2) \<and>
    exchange (quiet env) wire ms (a2, b2) = Some (a3, b3) \<and> linked up a3 \<and> linked up b3 \<and>
    dtls_log a3 = dtls_log a @ [Ev_dtls_state DtlsState_Connecting, Ev_ice (Ev_state State_Connected),
      Ev_dtls_state DtlsState_Connected] @ map Ev_dtls_data (arriving False ms) \<and>
    dtls_log b3 = dtls_log b @ [Ev_dtls_state DtlsState_Connecting, Ev_ice (Ev_state State_Connected),
      Ev_dtls_state DtlsState_Connected] @ map Ev_dtls_data (arriving True ms)"
proof -
  have "trusts env a (own (dtls_ssl b))" "trusts env b (own (dtls_ssl a))"
    using pins a(4) b(4) by (auto simp: trusts_def verify_callback_eq Certificate_fingerprint_eq fingerprint_str_upper)
  with handshake_outcome [OF contracts(1-3) a(1-3) b(1-3)] obtain a1 b1 k a2 b2 where up:
    "Bridge_on_juice_state (stack_ice (quiet env)) Juice_Connected b = Some b1" "came_up up b b1"
    "Bridge_on_juice_state (stack_ice (quiet env)) Juice_Connected a = Some a1" "came_up up a a1"
    "shuttle (quiet env) wire k a1 b1 (length (wire (ice_agent a))) = Some (a2, b2)"
    "linked up a2" "linked up b2" "associated (dtls_ssl a2) (dtls_ssl b2)"
    "dtls_log a2 = dtls_log a1 @ [Ev_dtls_state DtlsState_Connected]" "dtls_log b2 = dtls_log b1 @ [Ev_dtls_state DtlsState_Connected]"
    by auto
  have "bio_contract env content" using contracts(2) by (simp add: bio_still_def)
  from exchange_linked [OF contracts(1) this contracts(4) up(6-8) messages] obtain a3 b3 where
    "exchange (quiet env) wire ms (a2, b2) = Some (a3, b3)" "linked up a3" "linked up b3"
    "dtls_log a3 = dtls_log a2 @ map Ev_dtls_data (arriving False ms)" "dtls_log b3 = dtls_log b2 @ map Ev_dtls_data (arriving True ms)"
    by blast
  with up show ?thesis
    unfolding came_up_def
    by (intro exI [of _ a1] exI [of _ b1] exI [of _ k] exI [of _ a2] exI [of _ b2] exI [of _ a3] exI [of _ b3]) simp
qed

theorem connection_established_witness:
  "\<exists>a1 b1 k a2 b2 a3 b3.
    Bridge_on_juice_state (stack_ice (quiet (pair_env sample_openssl toy_ice))) Juice_Connected (pair_world False 9 (Some (pair_pin 7))) = Some b1 \<and>
    Bridge_on_juice_state (stack_ice (quiet (pair_env sample_openssl toy_ice))) Juice_Connected (pair_world True 7 (Some (pair_pin 9))) = Some a1 \<and>
    shuttle (quiet (pair_env sample_openssl toy_ice)) agent_sent k a1 b1 0 = Some (a2, b2) \<and>
    exchange (quiet (pair_env sample_openssl toy_ice)) agent_sent [(True, [1, 2], True), (False, [3], True), (True, [4], False)] (a2, b2) = Some (a3, b3) \<and>
    dtls_state a3 = DtlsState_Connected \<and> dtls_log b3 = [Ev_dtls_state DtlsState_Connecting, Ev_ice (Ev_state State_Connected),
      Ev_dtls_state DtlsState_Connected, Ev_dtls_data [1, 2]]"
proof -
  let ?a = "pair_world True 7 (Some (pair_pin 9))" and ?b = "pair_world False 9 (Some (pair_pin 7))"
  let ?cert = "\<lambda>c. \<lparr>cert_x509 = c :: nat, cert_pkey = 3\<rparr>"
  let ?ms = "[(True, [1, 2], True), (False, [3], True), (True, [4], False)]"
  have fresh: "pair_fresh False (dtls_ssl ?a)" "pair_fresh True (dtls_ssl ?b)"
    using pair_world_constructed(3) [of 7 True "Some (pair_pin 9)"] pair_world_constructed(3) [of 9 False "Some (pair_pin 7)"] by simp_all
  show ?thesis
    using connection_established [OF toy_agents pair_still pair_contract pair_records pair_world_constructed(1) _ fresh(1) _
        pair_world_constructed(1) _ fresh(2), of "?cert 7" "?cert 9" FingerprintAlgorithm_Sha256 "pair_pin 7"
        FingerprintAlgorithm_Sha256 "pair_pin 9" ?ms]
    by (simp add: pair_world_constructed pair_pin_fingerprint linked_def) blast
qed

text \<open>C35: but the order matters. If the ClientHello gets to the server before its agent has announced the connection, the
  server has not installed its pump yet: the datagram goes to the application's \<open>on_data\<close>. When ICE is announced the
  server starts, and then neither side has anything to send: both wait in Connecting, for ever unless a timer of
  OpenSSL is driven, which the code does not do.\<close>

theorem early_hello_stalls:
  assumes contracts: "agent_contract env up wire" "bio_still env content" "handshake_contract env content client server own associated"
    and a: "constructed up a" "dtls_is_client a" "client (dtls_ssl a)"
    and b: "constructed up b" "\<not> dtls_is_client b" "server (dtls_ssl b)" "on_data (ice_callbacks b) = IceUser v"
  shows "\<exists>a1 hello b1 b2.
    Bridge_on_juice_state (stack_ice (quiet env)) Juice_Connected a = Some a1 \<and> waiting up a1 \<and>
    drop (length (wire (ice_agent a))) (wire (ice_agent a1)) = [hello] \<and>
    Bridge_on_juice_recv (stack_ice (quiet env)) hello b = Some b1 \<and> dtls_ssl b1 = dtls_ssl b \<and>
    dtls_log b1 = dtls_log b @ [Ev_ice (Ev_data hello)] \<and>
    Bridge_on_juice_state (stack_ice (quiet env)) Juice_Connected b1 = Some b2 \<and> waiting up b2 \<and>
    ice_agent b2 = ice_agent b \<and> shuttle (quiet env) wire (Suc 0) b2 a1 (length (wire (ice_agent b))) = Some (b2, a1)"
proof -
  let ?la = "SSL_set_mtu env 1232 (dtls_ssl a)" and ?lb = "SSL_set_mtu env 1232 (dtls_ssl b)"
  have objects: "client ?la" "server ?lb" "content ?lb = []"
    using contracts(3) a(3) b(3) unfolding handshake_contract_def by auto
  obtain ret l1 n l3 where hello: "SSL_do_handshake env (pinning env a) ?la = (ret, l1)"
    and "first_flight env content associated (pinning env a) (pinning env b) (own ?la) (own ?lb) ret l1 n l3"
    using contracts(3) objects(1,2) unfolding handshake_contract_def by blast
  then have flight: "SSL_get_error env l1 ret = SSL_ERROR_WANT_READ" "content l1 \<noteq> []" "length (content l1) \<le> 4096"
    by (simp_all add: first_flight_def)
  obtain a1 where a1: "Bridge_on_juice_state (stack_ice (quiet env)) Juice_Connected a = Some a1" "came_up up a a1"
    "wire (ice_agent a1) = wire (ice_agent a) @ [content l1]"
    by (rule client_up [OF contracts(1,2) a(1,2) hello flight(1,3)]) (use flight(2) in \<open>simp_all add: that\<close>)
  let ?b1 = "b\<lparr>dtls_log := dtls_log b @ [Ev_ice (Ev_data (content l1))]\<rparr>"
  have b1: "Bridge_on_juice_recv (stack_ice (quiet env)) (content l1) b = Some ?b1"
    using b(1,4) by (simp add: Bridge_on_juice_recv_def constructed_def stack_ice_def run_script_def log_dtls_def)
  have up: "constructed up ?b1" "\<not> dtls_is_client ?b1" "content (SSL_set_mtu env 1232 (dtls_ssl ?b1)) = []"
    using b(1,2) objects(3) by (simp_all add: constructed_def)
  obtain b2 where b2: "Bridge_on_juice_state (stack_ice (quiet env)) Juice_Connected ?b1 = Some b2" "came_up up ?b1 b2"
    "ice_agent b2 = ice_agent ?b1"
    by (rule server_up [OF contracts(2) up]) (rule that)
  show ?thesis
    using a1 b1 b2
    by (intro exI [of _ a1] exI [of _ "content l1"] exI [of _ ?b1] exI [of _ b2]) (simp add: came_up_def)
qed

theorem early_hello_stalls_witness:
  "\<exists>a1 b1 b2.
    Bridge_on_juice_state (stack_ice (quiet (pair_env sample_openssl toy_ice))) Juice_Connected (pair_world True 7 (Some (pair_pin 9))) = Some a1 \<and>
    Bridge_on_juice_recv (stack_ice (quiet (pair_env sample_openssl toy_ice))) (last (agent_sent (ice_agent a1)))
      (pair_world False 9 (Some (pair_pin 7))) = Some b1 \<and>
    Bridge_on_juice_state (stack_ice (quiet (pair_env sample_openssl toy_ice))) Juice_Connected b1 = Some b2 \<and>
    agent_sent (ice_agent b2) = [] \<and> dtls_state b2 = DtlsState_Connecting \<and> dtls_state a1 = DtlsState_Connecting"
proof -
  let ?a = "pair_world True 7 (Some (pair_pin 9))" and ?b = "pair_world False 9 (Some (pair_pin 7))"
  have fresh: "pair_fresh False (dtls_ssl ?a)" "pair_fresh True (dtls_ssl ?b)"
    using pair_world_constructed(3) [of 7 True "Some (pair_pin 9)"] pair_world_constructed(3) [of 9 False "Some (pair_pin 7)"] by simp_all
  have user: "on_data (ice_callbacks ?b) = IceUser 4" by (simp add: pair_world_def toy_callbacks_def)
  show ?thesis
    using early_hello_stalls [OF toy_agents pair_still pair_contract pair_world_constructed(1) _ fresh(1)
        pair_world_constructed(1) _ fresh(2) user]
    by (force simp: pair_world_constructed waiting_def)
qed

end
