(* ===== verification/Sctp_Transport.thy ===== *)
theory Sctp_Transport
  imports Dtls_Runs Reliability
begin

text \<open>
  \<open>src/sctp_transport.rs\<close>: the association on top of DTLS, which in the code is a state machine
  without a wire. Its closures on DTLS hold a weak pointer: \<open>sctp_alive\<close> says whether the application
  still holds the transport. The operations below it are those of \<open>Dtls_Transport\<close>, run in an
  environment whose DTLS callbacks run these closures.
\<close>

section \<open>Data\<close>

definition DEFAULT_SCTP_PORT :: u16 where
  "DEFAULT_SCTP_PORT = 5000"

datatype sctp_state = SctpState_New | SctpState_Connecting | SctpState_Connected | SctpState_Failed | SctpState_Closed

definition SctpState_from_u8 :: "u8 \<Rightarrow> sctp_state" where
  "SctpState_from_u8 v =
     (if v = 0 then SctpState_New else if v = 1 then SctpState_Connecting else if v = 2 then SctpState_Connected
      else if v = 3 then SctpState_Failed else SctpState_Closed)"

fun SctpState_as_u8 :: "sctp_state \<Rightarrow> u8" where
  "SctpState_as_u8 SctpState_New = 0"
| "SctpState_as_u8 SctpState_Connecting = 1"
| "SctpState_as_u8 SctpState_Connected = 2"
| "SctpState_as_u8 SctpState_Failed = 3"
| "SctpState_as_u8 SctpState_Closed = 4"

datatype payload_protocol_id =
    PayloadProtocolId_Control
  | PayloadProtocolId_String
  | PayloadProtocolId_Binary
  | PayloadProtocolId_StringEmpty
  | PayloadProtocolId_BinaryEmpty
  | PayloadProtocolId_StringPartial
  | PayloadProtocolId_BinaryPartial

text \<open>The discriminants of the \<open>repr(u32)\<close> enumeration.\<close>

fun PayloadProtocolId_value :: "payload_protocol_id \<Rightarrow> u32" where
  "PayloadProtocolId_value PayloadProtocolId_Control = 50"
| "PayloadProtocolId_value PayloadProtocolId_String = 51"
| "PayloadProtocolId_value PayloadProtocolId_Binary = 53"
| "PayloadProtocolId_value PayloadProtocolId_StringEmpty = 56"
| "PayloadProtocolId_value PayloadProtocolId_BinaryEmpty = 57"
| "PayloadProtocolId_value PayloadProtocolId_StringPartial = 54"
| "PayloadProtocolId_value PayloadProtocolId_BinaryPartial = 52"

definition PayloadProtocolId_from_u32 :: "u32 \<Rightarrow> payload_protocol_id option" where
  "PayloadProtocolId_from_u32 v =
     (if v = 50 then Some PayloadProtocolId_Control
      else if v = 51 then Some PayloadProtocolId_String
      else if v = 53 then Some PayloadProtocolId_Binary
      else if v = 56 then Some PayloadProtocolId_StringEmpty
      else if v = 57 then Some PayloadProtocolId_BinaryEmpty
      else if v = 54 then Some PayloadProtocolId_StringPartial
      else if v = 52 then Some PayloadProtocolId_BinaryPartial
      else None)"

record sctp_message =
  sm_stream :: u16
  sm_ppid :: payload_protocol_id
  sm_data :: bytes

record 'k sctp_callbacks =
  sc_on_state_change :: 'k
  sc_on_message :: 'k
  sc_on_buffered_amount_low :: 'k

datatype ('e, 'je) sctp_error =
    SctpTransportError_NotConnected sctp_state
  | SctpTransportError_Closed
  | SctpTransportError_NotImplemented
  | SctpTransportError_Dtls "('e, 'je) dtls_error"

text \<open>The closures installed on DTLS: the application's own and the two of \<open>new\<close>.\<close>

datatype 'v dtls_closure =
    DtlsUser 'v
  | SctpAutoConnect "'v dtls_closure"
  | SctpOnData "'v dtls_closure"

record ('u, 'j, 'v, 'l, 'k) sctp = "('u, 'j, 'v dtls_closure, 'l) dtls" +
  sctp_associated :: bool
  sctp_pending_out :: "bytes list"
  sctp_cell :: u8
  sctp_closed :: bool
  sctp_started :: bool
  sctp_callbacks :: "'k sctp_callbacks"
  sctp_local_port :: u16
  sctp_remote_port :: u16
  sctp_alive :: bool

record ('u, 'j, 'je, 'v, 'l, 'w, 'e, 'h, 'k, 's) sctp_env =
  se_dtls :: "('u, 'j, 'je, 'v dtls_closure, 'l, 'w, 'e, 'h, 's) dtls_env"
  call_sctp_state_change :: "'k \<Rightarrow> sctp_state \<Rightarrow> 's \<Rightarrow> 's option"

type_synonym ('u, 'j, 'je, 'v, 'l, 'w, 'e, 'h, 'k, 'z) sctp_environment =
  "('u, 'j, 'je, 'v, 'l, 'w, 'e, 'h, 'k, ('u, 'j, 'v, 'l, 'k, 'z) sctp_scheme) sctp_env"

section \<open>Operations\<close>

definition SctpTransport_state :: "('u, 'j, 'v, 'l, 'k, 'z) sctp_scheme \<Rightarrow> sctp_state" where
  "SctpTransport_state w = SctpState_from_u8 (sctp_cell w)"

definition fire_sctp_state_change ::
    "('u, 'j, 'je, 'v, 'l, 'w, 'e, 'h, 'k, 'z) sctp_environment \<Rightarrow> sctp_state \<Rightarrow>
       ('u, 'j, 'v, 'l, 'k, 'z) sctp_scheme \<Rightarrow> ('u, 'j, 'v, 'l, 'k, 'z) sctp_scheme option" where
  "fire_sctp_state_change env s w = call_sctp_state_change env (sc_on_state_change (sctp_callbacks w)) s w"

definition SctpTransport_connect ::
    "('u, 'j, 'je, 'v, 'l, 'w, 'e, 'h, 'k, 'z) sctp_environment \<Rightarrow>
       ('u, 'j, 'v, 'l, 'k, 'z) sctp_scheme \<Rightarrow> ('u, 'j, 'v, 'l, 'k, 'z) sctp_scheme option" where
  "SctpTransport_connect env w =
     (if sctp_closed w then Some w
      else
        let was_started = sctp_started w; w = w\<lparr>sctp_started := True\<rparr> in
        if was_started then Some w
        else
          let changed = (sctp_cell w = SctpState_as_u8 SctpState_New);
              w = (if changed then w\<lparr>sctp_cell := SctpState_as_u8 SctpState_Connecting\<rparr> else w)
          in if \<not> changed then Some w
             else fire_sctp_state_change env SctpState_Connecting (w\<lparr>sctp_associated := True\<rparr>))"

definition SctpTransport_send ::
    "sctp_message \<Rightarrow> reliability \<Rightarrow> ('u, 'j, 'v, 'l, 'k, 'z) sctp_scheme \<Rightarrow> ('e, 'je) sctp_error + unit" where
  "SctpTransport_send msg reliability w =
     (if sctp_closed w then Inl SctpTransportError_Closed
      else
        let state = SctpTransport_state w in
        if state \<noteq> SctpState_Connected then Inl (SctpTransportError_NotConnected state)
        else Inl SctpTransportError_NotImplemented)"

definition SctpTransport_set_callbacks ::
    "'k sctp_callbacks \<Rightarrow> ('u, 'j, 'v, 'l, 'k, 'z) sctp_scheme \<Rightarrow> ('u, 'j, 'v, 'l, 'k, 'z) sctp_scheme" where
  "SctpTransport_set_callbacks callbacks w = w\<lparr>sctp_callbacks := callbacks\<rparr>"

definition SctpTransport_close ::
    "('u, 'j, 'je, 'v, 'l, 'w, 'e, 'h, 'k, 'z) sctp_environment \<Rightarrow>
       ('u, 'j, 'v, 'l, 'k, 'z) sctp_scheme \<Rightarrow> ((('e, 'je) sctp_error + unit) \<times> ('u, 'j, 'v, 'l, 'k, 'z) sctp_scheme) option" where
  "SctpTransport_close env w =
     (let was_closed = sctp_closed w; w = w\<lparr>sctp_closed := True\<rparr> in
      if was_closed then Some (Inr (), w)
      else
        let prev = sctp_cell w; w = w\<lparr>sctp_cell := SctpState_as_u8 SctpState_Closed\<rparr>
        in Option.bind (if prev \<noteq> SctpState_as_u8 SctpState_Closed then fire_sctp_state_change env SctpState_Closed w else Some w)
             (\<lambda>w. Some (Inr (), w\<lparr>sctp_associated := False\<rparr>)))"

text \<open>What arrives is traced and dropped.\<close>

definition SctpTransport_feed_inbound ::
    "bytes \<Rightarrow> ('u, 'j, 'v, 'l, 'k, 'z) sctp_scheme \<Rightarrow> ('u, 'j, 'v, 'l, 'k, 'z) sctp_scheme" where
  "SctpTransport_feed_inbound data w = (if sctp_closed w then w else w)"

text \<open>The accessors.\<close>

definition SctpTransport_local_port :: "('u, 'j, 'v, 'l, 'k, 'z) sctp_scheme \<Rightarrow> u16" where
  "SctpTransport_local_port w = sctp_local_port w"

definition SctpTransport_remote_port :: "('u, 'j, 'v, 'l, 'k, 'z) sctp_scheme \<Rightarrow> u16" where
  "SctpTransport_remote_port w = sctp_remote_port w"

definition SctpTransport_callbacks :: "('u, 'j, 'v, 'l, 'k, 'z) sctp_scheme \<Rightarrow> 'k sctp_callbacks" where
  "SctpTransport_callbacks w = 
     \<lparr>sc_on_state_change = sc_on_state_change (sctp_callbacks w), sc_on_message = sc_on_message (sctp_callbacks w),
      sc_on_buffered_amount_low = sc_on_buffered_amount_low (sctp_callbacks w)\<rparr>"

section \<open>The closures on DTLS\<close>

fun run_dtls_state ::
    "('u, 'j, 'je, 'v, 'l, 'w, 'e, 'h, 'k, 'z) sctp_environment \<Rightarrow> 'v dtls_closure \<Rightarrow> dtls_state \<Rightarrow>
       ('u, 'j, 'v, 'l, 'k, 'z) sctp_scheme \<Rightarrow> ('u, 'j, 'v, 'l, 'k, 'z) sctp_scheme option" where
  "run_dtls_state env (DtlsUser v) s w = call_dtls_state_change (se_dtls env) (DtlsUser v) s w"
| "run_dtls_state env (SctpAutoConnect prev) s w =
     Option.bind (if s = DtlsState_Connected \<and> sctp_alive w then SctpTransport_connect env w else Some w)
       (run_dtls_state env prev s)"
| "run_dtls_state env (SctpOnData prev) s w = Some w"

fun run_dtls_data ::
    "('u, 'j, 'je, 'v, 'l, 'w, 'e, 'h, 'k, 'z) sctp_environment \<Rightarrow> 'v dtls_closure \<Rightarrow> bytes \<Rightarrow>
       ('u, 'j, 'v, 'l, 'k, 'z) sctp_scheme \<Rightarrow> ('u, 'j, 'v, 'l, 'k, 'z) sctp_scheme option" where
  "run_dtls_data env (DtlsUser v) data w = call_dtls_data (se_dtls env) (DtlsUser v) data w"
| "run_dtls_data env (SctpOnData prev) data w =
     run_dtls_data env prev data (if sctp_alive w then SctpTransport_feed_inbound data w else w)"
| "run_dtls_data env (SctpAutoConnect prev) data w = Some w"

definition stack_dtls ::
    "('u, 'j, 'je, 'v, 'l, 'w, 'e, 'h, 'k, 'z) sctp_environment \<Rightarrow>
       ('u, 'j, 'je, 'v dtls_closure, 'l, 'w, 'e, 'h, ('u, 'j, 'v, 'l, 'k, 'z) sctp_scheme) dtls_env" where
  "stack_dtls env = (se_dtls env)\<lparr>call_dtls_state_change := run_dtls_state env, call_dtls_data := run_dtls_data env\<rparr>"

definition SctpTransport_new ::
    "('u, 'j, 'v dtls_closure, 'l) dtls \<Rightarrow> 'k sctp_callbacks \<Rightarrow> ('u, 'j, 'v, 'l, 'k) sctp" where
  "SctpTransport_new dtls callbacks =
     (let prev = dtls_callbacks dtls;
          dtls = DtlsTransport_set_callbacks
            \<lparr>dc_on_state_change = SctpAutoConnect (dc_on_state_change prev), dc_on_data = SctpOnData (dc_on_data prev)\<rparr> dtls
      in dtls.extend dtls
           \<lparr>sctp_associated = False, sctp_pending_out = [], sctp_cell = SctpState_as_u8 SctpState_New, sctp_closed = False,
            sctp_started = False, sctp_callbacks = callbacks, sctp_local_port = DEFAULT_SCTP_PORT,
            sctp_remote_port = DEFAULT_SCTP_PORT, sctp_alive = True\<rparr>)"

section \<open>The encodings\<close>

interpretation sctp_state_codec: exact_codec SctpState_as_u8 "\<lambda>v. Some (SctpState_from_u8 v)" "\<lambda>_. True"
  by unfold_locales (case_tac x, simp_all add: SctpState_from_u8_def)

interpretation ppid_codec: exact_codec PayloadProtocolId_value PayloadProtocolId_from_u32 "\<lambda>_. True"
  by unfold_locales (case_tac x, simp_all add: PayloadProtocolId_from_u32_def)

lemma SctpState_round [simp]: "SctpState_from_u8 (SctpState_as_u8 s) = s"
  using sctp_state_codec.decode_encode_exact by simp

lemma SctpState_as_u8_inj [simp]: "SctpState_as_u8 s = SctpState_as_u8 t \<longleftrightarrow> s = t"
  using sctp_state_codec.encode_inj by simp

section \<open>Sequences of calls\<close>

text \<open>\<open>Sctp_drop\<close>: the application gives up its last handle, the weak pointers go dead.\<close>

datatype ('u, 'v, 'k) sctp_op =
    Sctp_connect
  | Sctp_send sctp_message reliability
  | Sctp_close
  | Sctp_set_callbacks "'k sctp_callbacks"
  | Sctp_drop
  | Sctp_dtls "('u, 'v dtls_closure) dtls_op"

fun run_sctp ::
    "('u, 'j, 'je, 'v, 'l, 'w, 'e, 'h, 'k, 'z) sctp_environment \<Rightarrow> ('u, 'v, 'k) sctp_op \<Rightarrow>
       ('u, 'j, 'v, 'l, 'k, 'z) sctp_scheme \<Rightarrow> ('u, 'j, 'v, 'l, 'k, 'z) sctp_scheme option" where
  "run_sctp env Sctp_connect w = SctpTransport_connect env w"
| "run_sctp env (Sctp_send msg rel) w = Some w"
| "run_sctp env Sctp_close w = map_option snd (SctpTransport_close env w)"
| "run_sctp env (Sctp_set_callbacks cs) w = Some (SctpTransport_set_callbacks cs w)"
| "run_sctp env Sctp_drop w = Some (w\<lparr>sctp_alive := False\<rparr>)"
| "run_sctp env (Sctp_dtls op) w = run_dtls (stack_dtls env) op w"

fun sctp_gated :: "('u, 'v, 'k) sctp_op \<Rightarrow> bool" where
  "sctp_gated Sctp_connect = True"
| "sctp_gated (Sctp_send msg rel) = True"
| "sctp_gated Sctp_close = True"
| "sctp_gated op = False"

interpretation sctp_closable: closable "run_sctp env" sctp_closed sctp_gated for env
  by unfold_locales (case_tac op, simp_all add: SctpTransport_connect_def SctpTransport_close_def Let_def)

section \<open>Callbacks as programs\<close>

datatype stack_event = Ev_dtls dtls_event | Ev_sctp sctp_state

record ('u, 'j, 'v, 'l, 'k) sctp_logged = "('u, 'j, 'v, 'l, 'k) sctp" +
  sctp_log :: "stack_event list"

datatype ('u, 'v, 'k) who = Who_ice "'u ice_closure" | Who_dtls "'v dtls_closure" | Who_sctp 'k

type_synonym ('u, 'v, 'k, 's) sctp_script = "('u, 'v, 'k) who \<Rightarrow> stack_event \<Rightarrow> 's \<Rightarrow> ('u, 'v, 'k) sctp_op list"

definition log_sctp :: "stack_event \<Rightarrow> ('u, 'j, 'v, 'l, 'k, 'z) sctp_logged_scheme \<Rightarrow> ('u, 'j, 'v, 'l, 'k, 'z) sctp_logged_scheme" where
  "log_sctp e w = w\<lparr>sctp_log := sctp_log w @ [e]\<rparr>"

primrec scripted_sctp ::
    "('u, 'v, 'k, ('u, 'j, 'v, 'l, 'k, 'z) sctp_logged_scheme) sctp_script \<Rightarrow>
       ('u, 'j, 'je, 'v, 'l, 'w, 'e, 'h, 'k, ('u, 'j, 'v, 'l, 'k, 'z) sctp_logged_scheme) sctp_env \<Rightarrow> nat \<Rightarrow>
       ('u, 'j, 'je, 'v, 'l, 'w, 'e, 'h, 'k, ('u, 'j, 'v, 'l, 'k, 'z) sctp_logged_scheme) sctp_env" where
  "scripted_sctp script env 0 = env\<lparr>
     se_dtls := (se_dtls env)\<lparr>
       de_ice := (de_ice (se_dtls env))\<lparr>call_state_change := (\<lambda>_ _ _. None), call_gathering_state_change := (\<lambda>_ _ _. None),
         call_candidate := (\<lambda>_ _ _. None), call_data := (\<lambda>_ _ _. None)\<rparr>,
       call_dtls_state_change := (\<lambda>_ _ _. None), call_dtls_data := (\<lambda>_ _ _. None)\<rparr>,
     call_sctp_state_change := (\<lambda>_ _ _. None)\<rparr>"
| "scripted_sctp script env (Suc n) =
     (let run = (\<lambda>c e w. run_all (run_sctp (scripted_sctp script env n)) (script c e (log_sctp e w)) (log_sctp e w)) in
      env\<lparr>
        se_dtls := (se_dtls env)\<lparr>
          de_ice := (de_ice (se_dtls env))\<lparr>
            call_state_change := (\<lambda>c s. run (Who_ice c) (Ev_dtls (Ev_ice (Ev_state s)))),
            call_gathering_state_change := (\<lambda>c g. run (Who_ice c) (Ev_dtls (Ev_ice (Ev_gathering g)))),
            call_candidate := (\<lambda>c cand. run (Who_ice c) (Ev_dtls (Ev_ice (Ev_candidate cand)))),
            call_data := (\<lambda>c data. run (Who_ice c) (Ev_dtls (Ev_ice (Ev_data data))))\<rparr>,
          call_dtls_state_change := (\<lambda>d s. run (Who_dtls d) (Ev_dtls (Ev_dtls_state s))),
          call_dtls_data := (\<lambda>d data. run (Who_dtls d) (Ev_dtls (Ev_dtls_data data)))\<rparr>,
        call_sctp_state_change := (\<lambda>k s. run (Who_sctp k) (Ev_sctp s))\<rparr>)"

section \<open>The life cycle\<close>

fun sctp_states :: "stack_event list \<Rightarrow> sctp_state list" where
  "sctp_states [] = []"
| "sctp_states (Ev_sctp s # es) = s # sctp_states es"
| "sctp_states (e # es) = sctp_states es"

lemma sctp_states_append: "sctp_states (es @ es') = sctp_states es @ sctp_states es'"
  by (induction es rule: sctp_states.induct) simp_all

definition sctp_inv :: "bool \<Rightarrow> ('u, 'j, 'v, 'l, 'k, 'z) sctp_logged_scheme \<Rightarrow> bool" where
  "sctp_inv b w \<longleftrightarrow> (b \<longrightarrow> sctp_closed w) \<and>
     (\<exists>st. sctp_cell w = SctpState_as_u8 st \<and> (st = SctpState_Closed \<longleftrightarrow> sctp_closed w) \<and>
       (\<not> sctp_closed w \<longrightarrow> (sctp_associated w \<longleftrightarrow> st = SctpState_Connecting)) \<and>
       (st, sctp_states (sctp_log w)) \<in>
          {(SctpState_New, []), (SctpState_Connecting, [SctpState_Connecting]), (SctpState_Closed, [SctpState_Closed]),
           (SctpState_Closed, [SctpState_Connecting, SctpState_Closed])})"

section \<open>The interfaces of an invariant\<close>

text \<open>
  A predicate that reads nothing of DTLS and ICE (\<open>sctp_frame\<close>) is kept by the whole stack when \<open>connect\<close>,
  \<open>close\<close> and the application's callbacks keep it (\<open>sctp_operations\<close>).
\<close>

locale sctp_frame =
  fixes P :: "('u, 'j, 'v, 'l, 'k, 'z) sctp_scheme \<Rightarrow> bool"
  assumes frame: "P (w\<lparr>ice_agent := j\<rparr>) = P w" "P (w\<lparr>ice_role := rl\<rparr>) = P w" "P (w\<lparr>ice_state := is\<rparr>) = P w"
      "P (w\<lparr>ice_gathering := g\<rparr>) = P w" "P (w\<lparr>ice_mid := m\<rparr>) = P w" "P (w\<lparr>ice_callbacks := ics\<rparr>) = P w"
      "P (w\<lparr>ice_closed := c\<rparr>) = P w" "P (w\<lparr>dtls_ssl := l\<rparr>) = P w" "P (w\<lparr>dtls_handshake_done := c\<rparr>) = P w"
      "P (w\<lparr>dtls_locked := c\<rparr>) = P w" "P (w\<lparr>dtls_state := ds\<rparr>) = P w" "P (w\<lparr>dtls_callbacks := dcs\<rparr>) = P w"
      "P (w\<lparr>dtls_closed := c\<rparr>) = P w" "P (w\<lparr>dtls_expected := fp\<rparr>) = P w" "P (w\<lparr>dtls_started := c\<rparr>) = P w"
      "P (w\<lparr>sctp_callbacks := cs\<rparr>) = P w" "P (w\<lparr>sctp_alive := c\<rparr>) = P w"
begin

lemma below: "dtls_guarantee P env (\<lambda>_ w. w) (\<lambda>_. True) UNIV"
  by unfold_locales (simp_all add: frame)

end

locale sctp_operations = sctp_frame P for P :: "('u, 'j, 'v, 'l, 'k, 'z) sctp_scheme \<Rightarrow> bool" +
  fixes env :: "('u, 'j, 'je, 'v, 'l, 'w, 'e, 'h, 'k, 'z) sctp_environment"
  assumes ops_connect: "SctpTransport_connect env w = Some w' \<Longrightarrow> P w \<Longrightarrow> P w'"
    and ops_close: "SctpTransport_close env w = Some (r, w') \<Longrightarrow> P w \<Longrightarrow> P w'"
    and ops_ice: "ice_calls_keep (de_ice (se_dtls env)) P"
    and ops_state: "call_dtls_state_change (se_dtls env) d s w = Some w' \<Longrightarrow> P w \<Longrightarrow> P w'"
    and ops_data: "call_dtls_data (se_dtls env) d data w = Some w' \<Longrightarrow> P w \<Longrightarrow> P w'"
begin

lemma run_dtls_state_keeps: "run_dtls_state env c s w = Some w' \<Longrightarrow> P w \<Longrightarrow> P w'"
proof (induction c arbitrary: w)
  case (DtlsUser v)
  then show ?case using ops_state by simp
next
  case (SctpAutoConnect c)
  then show ?case by (auto simp: bind_eq_Some_conv split: if_splits intro: ops_connect)
qed simp

lemma run_dtls_data_keeps: "run_dtls_data env c data w = Some w' \<Longrightarrow> P w \<Longrightarrow> P w'"
proof (induction c arbitrary: w)
  case (DtlsUser v)
  then show ?case using ops_data by simp
qed (auto simp: SctpTransport_feed_inbound_def split: if_splits)

lemma running: "dtls_running P (stack_dtls env) (\<lambda>_ w. w) (\<lambda>_. True) UNIV"
  using below [of "stack_dtls env"] ops_ice run_dtls_state_keeps run_dtls_data_keeps
  unfolding dtls_running_def dtls_running_axioms_def
  by (auto simp: stack_dtls_def)

lemma step_keeps:
  assumes "run_sctp env op w = Some w'" "P w"
  shows "P w'"
proof (cases op)
  case (Sctp_dtls dop)
  with assms dtls_operations.run_keeps [OF dtls_running.operations [OF running]] show ?thesis by simp
qed (use assms in \<open>auto simp: SctpTransport_set_callbacks_def frame dest: ops_connect ops_close\<close>)

lemma run_all_keeps: "run_all (run_sctp env) ops w = Some w' \<Longrightarrow> P w \<Longrightarrow> P w'"
  by (induction ops arbitrary: w) (auto simp: bind_eq_Some_conv intro: step_keeps)

end

text \<open>
  The single assignments of SCTP that an invariant has to withstand. It is a family: \<open>P True\<close> may say in
  addition that the transport is closed.
\<close>

locale sctp_guarantee =
  fixes P :: "bool \<Rightarrow> ('u, 'j, 'v, 'l, 'k, 'z) sctp_logged_scheme \<Rightarrow> bool"
  assumes framed: "sctp_frame (P b)"
    and event: "P b w \<Longrightarrow> P b (log_sctp (Ev_dtls e) w)"
    and set_started: "P b w \<Longrightarrow> P b (w\<lparr>sctp_started := True\<rparr>)"
    and set_connecting: "P b w \<Longrightarrow> \<not> sctp_closed w \<Longrightarrow> \<not> sctp_started w \<Longrightarrow> sctp_cell w = SctpState_as_u8 SctpState_New \<Longrightarrow>
      P b (log_sctp (Ev_sctp SctpState_Connecting)
        (w\<lparr>sctp_started := True, sctp_cell := SctpState_as_u8 SctpState_Connecting, sctp_associated := True\<rparr>))"
    and set_closed: "P b w \<Longrightarrow> \<not> sctp_closed w \<Longrightarrow> sctp_cell w \<noteq> SctpState_as_u8 SctpState_Closed \<Longrightarrow>
      P True (log_sctp (Ev_sctp SctpState_Closed) (w\<lparr>sctp_closed := True, sctp_cell := SctpState_as_u8 SctpState_Closed\<rparr>))"
    and set_closed_quiet: "P b w \<Longrightarrow> \<not> sctp_closed w \<Longrightarrow> sctp_cell w = SctpState_as_u8 SctpState_Closed \<Longrightarrow>
      P True (w\<lparr>sctp_closed := True, sctp_cell := SctpState_as_u8 SctpState_Closed\<rparr>)"
    and set_clear: "P True w \<Longrightarrow> P b (w\<lparr>sctp_associated := False\<rparr>)"
begin

text \<open>An environment whose callbacks keep it, once their event is noted.\<close>

definition stack_calls_keep :: "('u, 'j, 'je, 'v, 'l, 'w, 'e, 'h, 'k, ('u, 'j, 'v, 'l, 'k, 'z) sctp_logged_scheme) sctp_env \<Rightarrow> bool" where
  "stack_calls_keep env \<longleftrightarrow> (\<forall>b. ice_calls_keep (de_ice (se_dtls env)) (P b) \<and>
     (\<forall>d s w w'. call_dtls_state_change (se_dtls env) d s w = Some w' \<longrightarrow> P b w \<longrightarrow> P b w') \<and>
     (\<forall>d data w w'. call_dtls_data (se_dtls env) d data w = Some w' \<longrightarrow> P b w \<longrightarrow> P b w') \<and>
     (\<forall>k s w w'. call_sctp_state_change env k s w = Some w' \<longrightarrow> P b (log_sctp (Ev_sctp s) w) \<longrightarrow> P b w'))"

lemma stack_calls_keepD:
  assumes "stack_calls_keep env"
  shows "ice_calls_keep (de_ice (se_dtls env)) (P b)"
    "call_dtls_state_change (se_dtls env) d ds w = Some w' \<Longrightarrow> P b w \<Longrightarrow> P b w'"
    "call_dtls_data (se_dtls env) d data w = Some w' \<Longrightarrow> P b w \<Longrightarrow> P b w'"
    "call_sctp_state_change env k s w = Some w' \<Longrightarrow> P b (log_sctp (Ev_sctp s) w) \<Longrightarrow> P b w'"
  using assms unfolding stack_calls_keep_def by blast+

lemma connect_keeps:
  assumes "stack_calls_keep env" "SctpTransport_connect env w = Some w'" "P b w"
  shows "P b w'"
proof (cases "\<not> sctp_closed w \<and> \<not> sctp_started w \<and> sctp_cell w = SctpState_as_u8 SctpState_New")
  case True
  let ?w = "w\<lparr>sctp_started := True, sctp_cell := SctpState_as_u8 SctpState_Connecting, sctp_associated := True\<rparr>"
  from True assms(2) have "call_sctp_state_change env (sc_on_state_change (sctp_callbacks w)) SctpState_Connecting ?w = Some w'"
    by (simp add: SctpTransport_connect_def Let_def fire_sctp_state_change_def)
  with stack_calls_keepD(4) [OF assms(1)] set_connecting [OF assms(3)] True show ?thesis by blast
qed (use assms(2) set_started [OF assms(3)] assms(3) in \<open>auto simp: SctpTransport_connect_def Let_def split: if_splits\<close>)

lemma close_keeps:
  assumes "stack_calls_keep env" "SctpTransport_close env w = Some (r, w')" "P b w"
  shows "P b w'"
proof (cases "sctp_closed w")
  case False
  let ?w = "w\<lparr>sctp_closed := True, sctp_cell := SctpState_as_u8 SctpState_Closed\<rparr>"
  from False assms(2) obtain v where w': "w' = v\<lparr>sctp_associated := False\<rparr>"
    and v: "(if sctp_cell w \<noteq> SctpState_as_u8 SctpState_Closed then fire_sctp_state_change env SctpState_Closed ?w else Some ?w) = Some v"
    by (auto simp: SctpTransport_close_def Let_def bind_eq_Some_conv simp del: SctpState_as_u8.simps)
  have "P True v"
  proof (cases "sctp_cell w = SctpState_as_u8 SctpState_Closed")
    case True
    with v set_closed_quiet [OF assms(3) False] show ?thesis by simp
  next
    case unclosed: False
    with v stack_calls_keepD(4) [OF assms(1)] set_closed [OF assms(3) False] show ?thesis
      by (auto simp: fire_sctp_state_change_def simp del: SctpState_as_u8.simps)
  qed
  with w' set_clear show ?thesis by simp
next
  case True
  then have "w\<lparr>sctp_closed := True\<rparr> = w" by (cases w) simp
  with True assms show ?thesis by (simp add: SctpTransport_close_def Let_def)
qed

lemma operations:
  assumes "stack_calls_keep env"
  shows "sctp_operations (P b) env"
  by (intro sctp_operations.intro sctp_operations_axioms.intro framed stack_calls_keepD(1) [OF assms])
    (fact connect_keeps [OF assms] close_keeps [OF assms] stack_calls_keepD(2,3) [OF assms])+

lemma stack_scripted_keeps: "stack_calls_keep (scripted_sctp script env n)"
proof (induction n)
  case (Suc n)
  note runs = sctp_operations.run_all_keeps [OF operations [OF Suc]]
  show ?case
    unfolding stack_calls_keep_def ice_calls_keep_def
    by (auto simp: Let_def elim!: runs intro: event)
qed (simp add: stack_calls_keep_def ice_calls_keep_def)

end

text \<open>The life cycle is such an invariant. It reads nothing of DTLS and ICE.\<close>

interpretation sctp_life: sctp_guarantee sctp_inv
  by unfold_locales (auto simp: sctp_inv_def log_sctp_def sctp_states_append simp del: SctpState_as_u8.simps)

interpretation sctp_invariant: invariant "run_sctp (scripted_sctp script env n)" "sctp_inv b" for script env n b
  by unfold_locales (rule sctp_operations.step_keeps [OF sctp_life.operations [OF sctp_life.stack_scripted_keeps]])

section \<open>A stack for the witnesses\<close>

lemma scripted_sctp_fields [simp]:
  "de_openssl (se_dtls (scripted_sctp script env n)) = de_openssl (se_dtls env)"
  "SSL_do_handshake (se_dtls (scripted_sctp script env n)) = SSL_do_handshake (se_dtls env)"
  "SSL_get_error (se_dtls (scripted_sctp script env n)) = SSL_get_error (se_dtls env)"
  "SSL_set_mtu (se_dtls (scripted_sctp script env n)) = SSL_set_mtu (se_dtls env)"
  "BIO_read_out (se_dtls (scripted_sctp script env n)) = BIO_read_out (se_dtls env)"
  "juice_send (de_ice (se_dtls (scripted_sctp script env n))) = juice_send (de_ice (se_dtls env))"
  by (cases n; simp add: Let_def)+

lemma silent_calls [simp]:
  "call_dtls_state_change (se_dtls (scripted_sctp (\<lambda>_ _ _. []) env (Suc n))) d s w = Some (log_sctp (Ev_dtls (Ev_dtls_state s)) w)"
  "call_sctp_state_change (scripted_sctp (\<lambda>_ _ _. []) env (Suc n)) k st w = Some (log_sctp (Ev_sctp st) w)"
  by (simp_all add: Let_def)

definition sctp_fresh :: "('u, 'j, 'v, 'l, 'k, 'z) sctp_scheme \<Rightarrow> bool" where
  "sctp_fresh w \<longleftrightarrow> SctpTransport_state w = SctpState_New \<and> sctp_cell w = 0 \<and> \<not> sctp_closed w \<and> \<not> sctp_started w \<and>
     \<not> sctp_associated w \<and> sctp_alive w \<and> sctp_local_port w = 5000 \<and> sctp_remote_port w = 5000"

definition toy_stack_env :: "(nat, toy_agent, unit, nat, toy_ssl, unit, unit, nat, nat, 's) sctp_env" where
  "toy_stack_env = \<lparr>se_dtls = toy_env, call_sctp_state_change = (\<lambda>_ _. Some)\<rparr>"

definition toy_stack :: "(nat, toy_agent, nat, toy_ssl, nat) sctp_logged" where
  "toy_stack = sctp.extend (SctpTransport_new
     (dtls.extend (ice.extend (initial_ice \<lparr>agent_connected = True, agent_sent = []\<rparr> Role_Active toy_callbacks)
        \<lparr>dtls_ssl = toy_new, dtls_handshake_done = False, dtls_locked = False, dtls_state = DtlsState_New,
         dtls_callbacks = \<lparr>dc_on_state_change = DtlsUser 5, dc_on_data = DtlsUser 6\<rparr>, dtls_closed = False,
         dtls_is_client = True, dtls_expected = None, dtls_started = False\<rparr>) ())
     \<lparr>sc_on_state_change = 7, sc_on_message = 8, sc_on_buffered_amount_low = 9\<rparr>) \<lparr>sctp_log = []\<rparr>"

lemma toy_stack_fresh: "sctp_fresh toy_stack" "dtls_fresh toy_stack" "sctp_log toy_stack = []"
  by (simp_all add: toy_stack_def sctp_fresh_def dtls_fresh_def SctpTransport_new_def SctpTransport_state_def
      SctpState_from_u8_def sctp.defs dtls.defs ice.defs Let_def DtlsTransport_set_callbacks_def DEFAULT_SCTP_PORT_def)

section \<open>Properties\<close>

text \<open>C12: in every run, whatever happens below and whatever the callbacks do, the association is New,
  Connecting or Closed: Connected and Failed are never reached, although the enumeration documents Failed for a DTLS
  transport that went down. The application has then seen exactly the transitions made: Connecting at most once and
  never after Closed, Closed once if the transport is closed. No message is ever accepted for sending.\<close>

theorem sctp_states_reachable:
  assumes "sctp_fresh w0" "sctp_log w0 = []"
    and "run_all (run_sctp (scripted_sctp script env n)) ops w0 = Some w"
  shows "(SctpTransport_state w, sctp_states (sctp_log w)) \<in>
      {(SctpState_New, []), (SctpState_Connecting, [SctpState_Connecting]), (SctpState_Closed, [SctpState_Closed]),
       (SctpState_Closed, [SctpState_Connecting, SctpState_Closed])} \<and>
    (sctp_closed w \<longleftrightarrow> SctpTransport_state w = SctpState_Closed) \<and>
    SctpTransport_send msg rel w = Inl (if sctp_closed w then SctpTransportError_Closed
      else SctpTransportError_NotConnected (SctpTransport_state w))"
proof -
  have "sctp_inv False w0"
    using assms(1,2) by (auto simp: sctp_inv_def sctp_fresh_def intro!: exI [of _ SctpState_New])
  from sctp_invariant.run_all_inv [OF this assms(3)] obtain st where
    "sctp_cell w = SctpState_as_u8 st" "st = SctpState_Closed \<longleftrightarrow> sctp_closed w"
    "(st, sctp_states (sctp_log w)) \<in>
      {(SctpState_New, []), (SctpState_Connecting, [SctpState_Connecting]), (SctpState_Closed, [SctpState_Closed]),
       (SctpState_Closed, [SctpState_Connecting, SctpState_Closed])}"
    unfolding sctp_inv_def by blast
  then show ?thesis
    by (auto simp: SctpTransport_state_def SctpTransport_send_def simp del: SctpState_as_u8.simps)
qed

theorem sctp_states_reachable_witness:
  "\<exists>w. run_all (run_sctp (scripted_sctp (\<lambda>_ _ _. []) toy_stack_env (Suc 0))) [Sctp_connect, Sctp_connect, Sctp_close] toy_stack = Some w \<and>
     sctp_states (sctp_log w) = [SctpState_Connecting, SctpState_Closed] \<and>
     SctpTransport_send \<lparr>sm_stream = 1, sm_ppid = PayloadProtocolId_String, sm_data = [65]\<rparr> Reliability_new w =
       (Inl SctpTransportError_Closed :: (unit, unit) sctp_error + unit)"
proof -
  obtain w where w: "run_all (run_sctp (scripted_sctp (\<lambda>_ _ _. []) toy_stack_env (Suc 0))) [Sctp_connect, Sctp_connect, Sctp_close] toy_stack = Some w"
    "sctp_states (sctp_log w) = [SctpState_Connecting, SctpState_Closed]" "sctp_closed w"
    using toy_stack_fresh
    by (simp add: SctpTransport_connect_def SctpTransport_close_def fire_sctp_state_change_def Let_def log_sctp_def sctp_fresh_def
        del: scripted_sctp.simps)
  with sctp_states_reachable [OF toy_stack_fresh(1,3) w(1)] show ?thesis by auto
qed

text \<open>After \<open>close\<close> connecting, sending and closing leave the association as it is, without a
  callback, and a record that DTLS delivers reaches only the closure that was there before.\<close>

theorem sctp_closed_gates:
  assumes "sctp_closed w" "list_all sctp_gated ops"
  shows "run_all (run_sctp env) ops w = Some w \<and> SctpTransport_close env w = Some (Inr (), w) \<and>
    run_dtls_data env (SctpOnData prev) data w = run_dtls_data env prev data w \<and>
    run_dtls_state env (SctpAutoConnect prev) s w = run_dtls_state env prev s w"
  using assms(1)
  by (simp add: sctp_closable.closed_run_all [OF assms] SctpTransport_close_def SctpTransport_connect_def
      SctpTransport_feed_inbound_def Let_def)

theorem sctp_closed_gates_witness:
  "run_all (run_sctp toy_stack_env) [Sctp_connect, Sctp_close] (toy_stack\<lparr>sctp_closed := True\<rparr>) =
     Some (toy_stack\<lparr>sctp_closed := True\<rparr>)"
  using sctp_closed_gates [of "toy_stack\<lparr>sctp_closed := True\<rparr>" "[Sctp_connect, Sctp_close]" toy_stack_env] by simp

text \<open>C27: the stack comes up from below. When the DTLS handshake finishes over a stack built by the
  constructors, the association is started before the application learns that DTLS is connected:
  it sees SCTP Connecting, then DTLS Connected, and the order is the same in every such run. A
  transport that was dropped is not started, and DTLS goes on without it.\<close>

theorem stack_comes_up:
  assumes "sctp_cell w = 0" "\<not> sctp_closed w" "\<not> sctp_started w" "\<not> dtls_handshake_done w" "\<not> ice_closed w"
    and "dc_on_state_change (dtls_callbacks w) = SctpAutoConnect (DtlsUser v)"
    and "bio_contract (se_dtls env) content"
    and "SSL_do_handshake (se_dtls env) (verify_callback (de_openssl (se_dtls env)) (dtls_expected w)) (dtls_ssl w) = (ret, l)"
      "SSL_get_error (se_dtls env) l ret = SSL_ERROR_NONE"
    and "agent_sends (juice_send (de_ice (se_dtls env))) (ice_agent w) (chunks 4096 (content l)) = (Inr (), j, rest)"
  shows "\<exists>w'. drive_handshake_locked (stack_dtls (scripted_sctp (\<lambda>_ _ _. []) env (Suc n))) w = Some (Inr (), w') \<and>
    dtls_state w' = DtlsState_Connected \<and>
    (if sctp_alive w
     then SctpTransport_state w' = SctpState_Connecting \<and> sctp_associated w' \<and>
       sctp_log w' = sctp_log w @ [Ev_sctp SctpState_Connecting, Ev_dtls (Ev_dtls_state DtlsState_Connected)]
     else SctpTransport_state w' = SctpState_New \<and>
       sctp_log w' = sctp_log w @ [Ev_dtls (Ev_dtls_state DtlsState_Connected)])"
proof -
  let ?env = "stack_dtls (scripted_sctp (\<lambda>_ _ _. []) env (Suc n))"
  have bio: "bio_contract ?env content" using assms(7) by (simp add: bio_contract_def stack_dtls_def del: scripted_sctp.simps)
  have "agent_sends (juice_send (de_ice ?env)) (ice_agent (w\<lparr>dtls_ssl := l\<rparr>)) (chunks 4096 (content (dtls_ssl (w\<lparr>dtls_ssl := l\<rparr>)))) =
      (Inr (), j, rest)"
    using assms(10) by (simp add: stack_dtls_def del: scripted_sctp.simps)
  from drain_outbound_spec [OF bio _ this] assms(5) obtain l' where
    "drain_outbound_locked ?env (w\<lparr>dtls_ssl := l\<rparr>) = Some (Inr (), w\<lparr>dtls_ssl := l', ice_agent := j\<rparr>)"
    by auto
  then show ?thesis
    using assms(1-4,6,8,9)
    by (simp add: drive_handshake_locked_def fire_dtls_state_change_def stack_dtls_def Let_def SctpTransport_connect_def
        fire_sctp_state_change_def SctpTransport_state_def SctpState_from_u8_def log_sctp_def del: scripted_sctp.simps)
qed

theorem stack_comes_up_witness:
  "\<exists>w'. drive_handshake_locked (stack_dtls (scripted_sctp (\<lambda>_ _ _. []) toy_stack_env (Suc 0)))
      (toy_stack\<lparr>dtls_ssl := toy_new\<lparr>toy_peer := Some 7\<rparr>\<rparr>) = Some (Inr (), w') \<and>
    sctp_log w' = [Ev_sctp SctpState_Connecting, Ev_dtls (Ev_dtls_state DtlsState_Connected)]"
proof -
  let ?w = "toy_stack\<lparr>dtls_ssl := toy_new\<lparr>toy_peer := Some 7\<rparr>\<rparr>"
  have w: "sctp_cell ?w = 0" "\<not> sctp_closed ?w" "\<not> sctp_started ?w" "\<not> dtls_handshake_done ?w" "sctp_alive ?w" "sctp_log ?w = []"
    using toy_stack_fresh by (simp_all add: sctp_fresh_def dtls_fresh_def)
  have below: "\<not> ice_closed ?w" "dc_on_state_change (dtls_callbacks ?w) = SctpAutoConnect (DtlsUser 5)"
    by (simp_all add: toy_stack_def SctpTransport_new_def sctp.defs dtls.defs ice.defs initial_ice_def Let_def
        DtlsTransport_set_callbacks_def)
  have bio: "bio_contract (se_dtls toy_stack_env) toy_out" by (simp add: toy_stack_env_def toy_bio)
  have ssl: "SSL_do_handshake (se_dtls toy_stack_env) (verify_callback (de_openssl (se_dtls toy_stack_env)) (dtls_expected ?w)) (dtls_ssl ?w) =
      (1, toy_new\<lparr>toy_peer := Some 7\<rparr>)" "SSL_get_error (se_dtls toy_stack_env) (toy_new\<lparr>toy_peer := Some 7\<rparr>) 1 = SSL_ERROR_NONE"
    "agent_sends (juice_send (de_ice (se_dtls toy_stack_env))) (ice_agent ?w) (chunks 4096 (toy_out (toy_new\<lparr>toy_peer := Some 7\<rparr>))) =
      (Inr (), ice_agent ?w, [])"
    by (simp_all add: toy_stack_env_def toy_new_def chunks.simps)
  from stack_comes_up [OF w(1-4) below bio ssl, of 0] w(5,6) show ?thesis by auto
qed

text \<open>The constructor keeps what was there: the application's DTLS callbacks still run, after the
  hook that starts the association and the shim that feeds it, and for every DTLS state but
  Connected the chain behaves as before. Both ports are 5000.\<close>

theorem sctp_new_chains:
  assumes "s \<noteq> DtlsState_Connected"
  shows "sctp_fresh (SctpTransport_new dtls callbacks) \<and>
    dtls.truncate (SctpTransport_new dtls callbacks) = DtlsTransport_set_callbacks
      (dtls_callbacks (SctpTransport_new dtls callbacks)) dtls \<and>
    run_dtls_state env (dc_on_state_change (dtls_callbacks (SctpTransport_new dtls callbacks))) s w =
      run_dtls_state env (dc_on_state_change (dtls_callbacks dtls)) s w \<and>
    run_dtls_data env (dc_on_data (dtls_callbacks (SctpTransport_new dtls callbacks))) data w =
      run_dtls_data env (dc_on_data (dtls_callbacks dtls)) data w"
  using assms
  by (simp add: sctp_fresh_def SctpTransport_new_def SctpTransport_state_def SctpState_from_u8_def sctp.defs dtls.defs ice.defs
      Let_def DtlsTransport_set_callbacks_def DEFAULT_SCTP_PORT_def SctpTransport_feed_inbound_def)

theorem sctp_new_chains_witness:
  "run_dtls_state toy_stack_env (SctpAutoConnect (DtlsUser 5)) DtlsState_Failed toy_stack =
     run_dtls_state toy_stack_env (DtlsUser 5) DtlsState_Failed toy_stack"
  using sctp_new_chains [of DtlsState_Failed "(undefined :: (nat, toy_agent, nat dtls_closure, toy_ssl) dtls)
    \<lparr>dtls_callbacks := \<lparr>dc_on_state_change = DtlsUser 5, dc_on_data = DtlsUser 6\<rparr>\<rparr>" _ toy_stack_env toy_stack]
  by (simp add: SctpTransport_new_def sctp.defs dtls.defs ice.defs Let_def DtlsTransport_set_callbacks_def)

text \<open>The numbers of the wire. The payload protocol identifiers are read back exactly from their
  discriminants, and every other number is ignored; the state survives its atomic byte.\<close>

theorem sctp_encodings:
  "(PayloadProtocolId_from_u32 v = Some p \<longleftrightarrow> v = PayloadProtocolId_value p) \<and>
   (PayloadProtocolId_from_u32 v = None \<longleftrightarrow> v \<notin> {50, 51, 52, 53, 54, 56, 57}) \<and>
   SctpState_from_u8 (SctpState_as_u8 s) = s"
proof (intro conjI)
  show "PayloadProtocolId_from_u32 v = Some p \<longleftrightarrow> v = PayloadProtocolId_value p"
    using ppid_codec.decode_encode_exact [of p] by (auto simp: PayloadProtocolId_from_u32_def split: if_splits)
qed (auto simp: PayloadProtocolId_from_u32_def)

end
