(* ===== verification/Interleaving.thy ===== *)
theory Interleaving
  imports Main
begin

text \<open>
  Concurrency, for all transports: threads that make one atomic access at a time over a shared
  state, their interleavings, and the interfaces of what holds under every schedule.
\<close>

section \<open>Interleavings\<close>

text \<open>
  Threads over a shared state. A thread is where it stands in its operation; one atomic access
  (a load, a swap, a section under a field's lock, the invocation of a callback) takes
  it to the next place, and \<open>None\<close> is a thread that has returned. The scheduler is free.
\<close>

type_synonym ('s, 'p) thread = "'s \<Rightarrow> 'p \<Rightarrow> ('s \<times> 'p) option"

inductive interleaving :: "('s, 'p) thread \<Rightarrow> 's \<times> 'p list \<Rightarrow> 's \<times> 'p list \<Rightarrow> bool" for th where
  here: "interleaving th c c"
| switch: "i < length ps \<Longrightarrow> th s (ps ! i) = Some (s', p') \<Longrightarrow> interleaving th (s', ps[i := p']) c \<Longrightarrow>
    interleaving th (s, ps) c"

inductive_cases interleavingE: "interleaving th (s, ps) c"

primrec run_schedule :: "('s, 'p) thread \<Rightarrow> nat list \<Rightarrow> 's \<times> 'p list \<Rightarrow> 's \<times> 'p list" where
  "run_schedule th [] c = c"
| "run_schedule th (i # is) c =
     (case c of (s, ps) \<Rightarrow>
        if i < length ps then
          (case th s (ps ! i) of
             Some (s', p') \<Rightarrow> run_schedule th is (s', ps[i := p'])
           | None \<Rightarrow> run_schedule th is c)
        else run_schedule th is c)"

lemma run_schedule_interleaving: "interleaving th c (run_schedule th is c)"
proof (induction "is" arbitrary: c)
  case (Cons i "is")
  then show ?case by (cases c) (auto intro: interleaving.intros split: option.split)
qed (simp add: here)

lemma interleaving_alone:
  "run_schedule th (replicate k 0) (s, [p]) = (s', [p']) \<Longrightarrow> interleaving th (s, [p]) (s', [p'])"
  using run_schedule_interleaving by metis

lemma interleaving_schedule: "interleaving th c d \<Longrightarrow> \<exists>is. run_schedule th is c = d"
proof (induction rule: interleaving.induct)
  case (here c)
  show ?case by (rule exI [of _ "[]"]) simp
next
  case (switch i ps s s' p' c)
  then obtain "is" where "run_schedule th is (s', ps[i := p']) = c" by blast
  with switch(1,2) show ?case by (intro exI [of _ "i # is"]) simp
qed

text \<open>
  Two interfaces for what holds under every schedule: an assertion that no access breaks, made
  by a thread at one of the places \<open>ok\<close>; and a resource that no access creates, held partly by the
  threads.
\<close>

locale stable =
  fixes th :: "('s, 'p) thread"
    and inv :: "'s \<Rightarrow> bool"
    and ok :: "'p \<Rightarrow> bool"
  assumes access_keeps: "inv s \<Longrightarrow> ok p \<Longrightarrow> th s p = Some (s', p') \<Longrightarrow> inv s' \<and> ok p'"
begin

lemma interleaving_keeps:
  "interleaving th c d \<Longrightarrow> inv (fst c) \<Longrightarrow> list_all ok (snd c) \<Longrightarrow> inv (fst d) \<and> list_all ok (snd d)"
proof (induction rule: interleaving.induct)
  case (switch i ps s s' p' c)
  have "ok (ps ! i)" using switch.hyps(1) switch.prems by (simp add: list_all_length)
  with access_keeps [OF _ _ switch.hyps(2)] switch.prems have "inv s'" "ok p'" by auto
  moreover have "list_all ok (ps[i := p'])"
    using switch.prems \<open>ok p'\<close> switch.hyps(1) by (auto simp: list_all_length nth_list_update)
  ultimately show ?case using switch.IH by simp
qed simp

end

locale resource =
  fixes th :: "('s, 'p) thread"
    and held :: "'p \<Rightarrow> nat"
    and free :: "'s \<Rightarrow> nat"
  assumes access_spends: "th s p = Some (s', p') \<Longrightarrow> free s' + held p' \<le> free s + held p"
begin

lemma held_update:
  assumes "i < length ps"
  shows "sum_list (map held (ps[i := p])) + held (ps ! i) = sum_list (map held ps) + held p"
proof -
  have "held (ps ! i) \<le> sum_list (map held ps)"
    using assms elem_le_sum_list [of i "map held ps"] by simp
  with assms show ?thesis by (simp add: map_update sum_list_update)
qed

lemma interleaving_spends:
  "interleaving th c d \<Longrightarrow> free (fst d) + sum_list (map held (snd d)) \<le> free (fst c) + sum_list (map held (snd c))"
proof (induction rule: interleaving.induct)
  case (switch i ps s s' p' c)
  with access_spends [OF switch(2)] held_update [OF switch(1), of p'] show ?case by simp
qed simp

end

end
