(* ===== verification/Nesting.thy ===== *)
theory Nesting
  imports Interleaving "HOL-Library.Multiset"
begin

text \<open>
  Threads whose callbacks call back. A thread is a stack of frames; an access that invokes a callback puts
  the application's code on top, which calls operations of its own, at any depth, and returns. What holds
  under every schedule of threads without nested calls is carried over to these.
\<close>

section \<open>Stacks of places\<close>

text \<open>
  The code of a transport: its accesses, those that invoke a callback, the place of an operation that has
  returned, and the places where operations start.
\<close>

record ('s, 'p) code =
  code_thread :: "('s, 'p) thread"
  code_invokes :: "'s \<Rightarrow> 'p \<Rightarrow> bool"
  code_returned :: 'p
  code_starts :: "'p set"

text \<open>\<open>Calling\<close> is the application's code: a callback, or at the bottom the code of the thread.\<close>

datatype 'p frame = Calling | Doing 'p

inductive nested_access :: "('s, 'p) code \<Rightarrow> 's \<times> 'p frame list \<Rightarrow> 's \<times> 'p frame list \<Rightarrow> bool" for C where
  access: "code_thread C s p = Some (s', p') \<Longrightarrow>
    nested_access C (s, Doing p # st) (s', (if code_invokes C s p then [Calling] else []) @ Doing p' # st)"
| call: "q \<in> code_starts C \<Longrightarrow> nested_access C (s, Calling # st) (s, Doing q # Calling # st)"
| callback_returns: "st \<noteq> [] \<Longrightarrow> nested_access C (s, Calling # st) (s, st)"
| operation_returns: "st \<noteq> [] \<Longrightarrow> nested_access C (s, Doing (code_returned C) # st) (s, st)"

inductive nested :: "('s, 'p) code \<Rightarrow> 's \<times> 'p frame list list \<Rightarrow> 's \<times> 'p frame list list \<Rightarrow> bool" for C where
  nested_here: "nested C c c"
| nested_switch: "i < length sts \<Longrightarrow> nested_access C (s, sts ! i) (s', st') \<Longrightarrow> nested C (s', sts[i := st']) c \<Longrightarrow>
    nested C (s, sts) c"

inductive_cases nested_accessE: "nested_access C (s, st) (s', st')"

lemma nested_trans: "nested C c d \<Longrightarrow> nested C d e \<Longrightarrow> nested C c e"
  by (induction rule: nested.induct) (auto intro: nested_switch)

text \<open>One thread alone.\<close>

lemma nested_alone_step:
  "nested_access C (s, st) (s', st') \<Longrightarrow> nested C (s', [st']) c \<Longrightarrow> nested C (s, [st]) c"
  by (rule nested_switch [where i = 0]) auto

lemmas nested_alone_intros =
  nested_alone_step [OF access] nested_alone_step [OF call] nested_alone_step [OF callback_returns]
  nested_alone_step [OF operation_returns]

text \<open>
  \<open>alone\<close>: what the application's code does between two states; \<open>alone_at\<close>: what an operation does from one of its
  places to its return, with its callbacks.
\<close>

definition alone :: "('s, 'p) code \<Rightarrow> 's \<Rightarrow> 's \<Rightarrow> bool" where
  "alone C s s' \<longleftrightarrow> (\<forall>st. nested C (s, [Calling # st]) (s', [Calling # st]))"

definition alone_at :: "('s, 'p) code \<Rightarrow> 's \<Rightarrow> 'p \<Rightarrow> 's \<Rightarrow> bool" where
  "alone_at C s p s' \<longleftrightarrow> (\<forall>st. nested C (s, [Doing p # Calling # st]) (s', [Calling # st]))"

lemma alone_refl [simp]: "alone C s s"
  by (simp add: alone_def nested_here)

lemma alone_trans: "alone C s t \<Longrightarrow> alone C t u \<Longrightarrow> alone C s u"
  unfolding alone_def by (blast intro: nested_trans)

lemma alone_call: "alone_at C s q s' \<Longrightarrow> q \<in> code_starts C \<Longrightarrow> alone C s s'"
  unfolding alone_at_def alone_def by (auto intro: nested_alone_intros(2))

lemma alone_at_access:
  "code_thread C s p = Some (s', p') \<Longrightarrow> \<not> code_invokes C s p \<Longrightarrow> alone_at C s' p' t \<Longrightarrow> alone_at C s p t"
  unfolding alone_at_def using nested_alone_intros(1) [of C s p s' p'] by auto

lemma alone_at_return: "alone_at C s (code_returned C) s"
  unfolding alone_at_def using nested_alone_intros(4) [of _ C s] nested_here [of C] by auto

lemma alone_at_invoke:
  assumes "code_thread C s p = Some (s1, p')" "code_invokes C s p" "alone C s1 s2" "alone_at C s2 p' t"
  shows "alone_at C s p t"
  unfolding alone_at_def
proof
  fix st
  let ?st = "Doing p' # Calling # st"
  have "nested C (s1, [Calling # ?st]) (s2, [Calling # ?st])" using assms(3) by (simp add: alone_def)
  moreover have "nested C (s2, [Calling # ?st]) (t, [Calling # st])"
    using assms(4) nested_alone_intros(3) [of ?st C s2] by (simp add: alone_at_def)
  ultimately have "nested C (s1, [Calling # ?st]) (t, [Calling # st])" by (rule nested_trans)
  with nested_alone_intros(1) [of C s p s1 p'] assms(1,2)
  show "nested C (s, [Doing p # Calling # st]) (t, [Calling # st])" by simp
qed

text \<open>A thread alone, move by move.\<close>

datatype 'p move = Access | Call 'p | Return

fun nested_move :: "('s, 'p) code \<Rightarrow> 'p move \<Rightarrow> 's \<times> 'p frame list \<Rightarrow> ('s \<times> 'p frame list) option" where
  "nested_move C Access (s, Doing p # st) =
     (case code_thread C s p of
        Some (s', p') \<Rightarrow> Some (s', (if code_invokes C s p then [Calling] else []) @ Doing p' # st)
      | None \<Rightarrow> None)"
| "nested_move C (Call q) (s, Calling # st) = (if q \<in> code_starts C then Some (s, Doing q # Calling # st) else None)"
| "nested_move C Return (s, Calling # f # st) = Some (s, f # st)"
| "nested_move C Return (s, Doing p # f # st) = (if p = code_returned C then Some (s, f # st) else None)"
| "nested_move C m c = None"

lemma nested_move_access: "nested_move C m c = Some d \<Longrightarrow> nested_access C c d"
  by (cases "(C, m, c)" rule: nested_move.cases)
    (auto intro: nested_access.intros dest: access split: option.splits prod.splits if_splits)

primrec run_moves :: "('s, 'p) code \<Rightarrow> 'p move list \<Rightarrow> 's \<times> 'p frame list \<Rightarrow> ('s \<times> 'p frame list) option" where
  "run_moves C [] c = Some c"
| "run_moves C (m # ms) c = Option.bind (nested_move C m c) (run_moves C ms)"

lemma run_moves_nested: "run_moves C ms (s, st) = Some (s', st') \<Longrightarrow> nested C (s, [st]) (s', [st'])"
proof (induction ms arbitrary: s st)
  case (Cons m ms)
  then obtain t u where "nested_move C m (s, st) = Some (t, u)" "run_moves C ms (t, u) = Some (s', st')"
    by (auto simp: bind_eq_Some_conv)
  then show ?case using nested_alone_step [OF nested_move_access] Cons.IH by metis
qed (simp add: nested_here)

section \<open>Nested calls as threads of their own\<close>

fun places :: "'p frame list \<Rightarrow> 'p list" where
  "places [] = []"
| "places (Calling # st) = places st"
| "places (Doing p # st) = p # places st"

text \<open>A system of more threads, in any order, can do the same.\<close>

lemma interleaving_more:
  "interleaving th c d \<Longrightarrow> mset (snd c) \<subseteq># mset qs \<Longrightarrow>
   \<exists>qs'. interleaving th (fst c, qs) (fst d, qs') \<and> mset (snd d) \<subseteq># mset qs'"
proof (induction arbitrary: qs rule: interleaving.induct)
  case (switch i ps s s' p' c)
  have "ps ! i \<in># mset qs"
    using switch.hyps(1) switch.prems by (metis mset_subset_eqD nth_mem_mset snd_conv)
  then obtain j where j: "j < length qs" "qs ! j = ps ! i" by (metis in_multiset_in_set in_set_conv_nth)
  have "mset (ps[i := p']) = add_mset p' (mset ps - {#ps ! i#})" using switch.hyps(1) by (rule mset_update)
  moreover have "mset (qs[j := p']) = add_mset p' (mset qs - {#ps ! i#})" using j by (simp add: mset_update)
  moreover have "mset ps - {#ps ! i#} \<subseteq># mset qs - {#ps ! i#}" 
    using switch.prems \<open>ps ! i \<in># mset qs\<close> switch.hyps(1)
    by (metis insert_DiffM mset_subset_eq_add_mset_cancel nth_mem_mset snd_conv)
  ultimately have "mset (snd (s', ps[i := p'])) \<subseteq># mset (qs[j := p'])" by simp
  from switch.IH [OF this] obtain qs' where
    "interleaving th (s', qs[j := p']) (fst c, qs')" "mset (snd c) \<subseteq># mset qs'" by auto
  with interleaving.switch [of j qs th s s' p' "(fst c, qs')"] j switch.hyps(2) show ?case by auto
qed (auto intro: interleaving.here)

abbreviation all_places :: "'p frame list list \<Rightarrow> 'p list" where
  "all_places sts \<equiv> concat (map places sts)"

lemma mset_all_places_update:
  assumes "i < length sts"
  shows "mset (all_places (sts[i := st])) + mset (places (sts ! i)) = mset (all_places sts) + mset (places st)"
  using assms
proof (induction sts arbitrary: i)
  case (Cons t sts)
  then show ?case by (cases i) (auto simp: ac_simps)
qed simp

lemma nested_flat:
  "nested C c d \<Longrightarrow>
   \<exists>qs ps. set qs \<subseteq> code_starts C \<and> interleaving (code_thread C) (fst c, all_places (snd c) @ qs) (fst d, ps)"
proof (induction rule: nested.induct)
  case (nested_switch i sts s s' st' c)
  let ?th = "code_thread C"
  from nested_switch.IH obtain qs ps where
    IH: "set qs \<subseteq> code_starts C" "interleaving ?th (s', all_places (sts[i := st']) @ qs) (fst c, ps)" by auto
  note upd = mset_all_places_update [OF nested_switch.hyps(1), of st']
  have more: "\<exists>ps. interleaving ?th (s', rs) (fst c, ps)" if "mset (all_places (sts[i := st']) @ qs) \<subseteq># mset rs" for rs
    using interleaving_more [OF IH(2), of rs] that by auto
  from nested_switch.hyps(2) show ?case
  proof (cases rule: nested_access.cases)
    case (access p p' st)
    let ?L = "all_places sts @ qs"
    have "p \<in># mset (all_places sts)" using access(1) nth_mem [OF nested_switch.hyps(1)] by (auto intro: bexI [of _ "sts ! i"])
    then obtain N where N: "mset (all_places sts) = add_mset p N" by (metis multi_member_split)
    have "p \<in> set ?L" using \<open>p \<in># mset (all_places sts)\<close> by simp
    then obtain j where j: "j < length ?L" "?L ! j = p" by (metis in_set_conv_nth)
    have "places st' = p' # places st" using access(2) by simp
    then have "mset (all_places (sts[i := st'])) = add_mset p' N" using upd access(1) N by simp
    then have "mset (all_places (sts[i := st']) @ qs) = mset (?L[j := p'])"
      using j N by (subst mset_update) simp_all
    with more [of "?L[j := p']"] obtain ps' where "interleaving ?th (s', ?L[j := p']) (fst c, ps')" by auto
    then have "interleaving ?th (s, ?L) (fst c, ps')"
      using interleaving.switch [of j ?L ?th s s' p' "(fst c, ps')"] j access by simp
    then show ?thesis using IH(1) by auto
  next
    case (call q st)
    then have "mset (all_places (sts[i := st'])) = add_mset q (mset (all_places sts))" using upd by simp
    with more [of "all_places sts @ q # qs"] obtain ps' where "interleaving ?th (s', all_places sts @ q # qs) (fst c, ps')" by auto
    moreover have "set (q # qs) \<subseteq> code_starts C" using call(4) IH(1) by simp
    ultimately show ?thesis using call(2) by (metis fst_conv snd_conv)
  next
    case (callback_returns)
    then have "mset (all_places (sts[i := st'])) = mset (all_places sts)" using upd by simp
    with more [of "all_places sts @ qs"] callback_returns IH(1) show ?thesis by auto
  next
    case (operation_returns)
    then have "add_mset (code_returned C) (mset (all_places (sts[i := st']))) = mset (all_places sts)" using upd by simp
    then have "mset (all_places (sts[i := st'])) \<subseteq># mset (all_places sts)" by (metis mset_subset_eq_add_right add_mset_add_single mset_subset_eq_add_left)
    with more [of "all_places sts @ qs"] operation_returns IH(1) show ?thesis by auto
  qed
next
  case (nested_here c)
  show ?case using interleaving.here [of "code_thread C" "(fst c, all_places (snd c) @ [])"]
    by (metis empty_iff empty_set subsetI)
qed

section \<open>What is carried over\<close>

context stable
begin

lemma nested_keeps:
  assumes "nested C (s, sts) (s', sts')" "code_thread C = th" "\<forall>q \<in> code_starts C. ok q"
    and "inv s" "\<forall>st \<in> set sts. list_all ok (places st)"
  shows "inv s'"
proof -
  obtain qs ps where qs: "set qs \<subseteq> code_starts C" "interleaving th (s, all_places sts @ qs) (s', ps)"
    using nested_flat [OF assms(1)] assms(2) by auto
  have "list_all ok (all_places sts @ qs)" using assms(3,5) qs(1) by (auto simp: list_all_iff)
  with interleaving_keeps [OF qs(2)] assms(4) show ?thesis by simp
qed

end

context resource
begin

lemma nested_spends:
  assumes "nested C (s, sts) (s', sts')" "code_thread C = th" "\<forall>q \<in> code_starts C. held q = 0"
    and "\<forall>st \<in> set sts. \<forall>p \<in> set (places st). held p = 0"
  shows "free s' \<le> free s"
proof -
  obtain qs ps where qs: "set qs \<subseteq> code_starts C" "interleaving th (s, all_places sts @ qs) (s', ps)"
    using nested_flat [OF assms(1)] assms(2) by auto
  have "\<forall>p \<in> set (all_places sts @ qs). held p = 0" using assms(3,4) qs(1) by auto
  then have "sum_list (map held (all_places sts @ qs)) = 0" by (simp only: sum_list_eq_0_iff set_map) auto
  with interleaving_spends [OF qs(2)] show ?thesis by (simp only: fst_conv snd_conv)
qed

end

end
