(* ===== verification/Races.thy ===== *)
theory Races
  imports Nesting Dtls_Flow Sctp_Transport
begin

text \<open>
  The three transports under concurrency. The sequential models run each operation
  to its end; here the operations are cut at
  their atomic accesses and interleaved by an arbitrary scheduler. A callback is its event here; \<open>Nested_Races\<close> lets it call back. The code protects each field
  by a lock or an atomic of its own, and none across a check and the write that follows.
\<close>

section \<open>ICE: close against the agent\<close>

text \<open>
  The places of the agent's handlers and of the operations that read or write what the threads share. A
  state change is under the lock of the state, the closed flag is atomic, a callback is invoked
  without any lock. The driver task of an agent runs one handler at a time; any set of threads is allowed here, which is
  more than can happen, so that what holds under every schedule holds of the code. The schedules that are exhibited
  have one handler and one thread of the application.
\<close>

datatype ice_place =
    Juice_state_load juice_state
  | Juice_state_write ice_state
  | Juice_recv_load bytes
  | Juice_candidate_load str
  | Juice_candidate_parse str
  | Juice_done_load
  | Juice_done_write
  | Gather_load
  | Gather_write
  | Remote_load description
  | Remote_write_role description
  | Remote_write_mid str
  | Close_swap
  | Close_write
  | Restart_load
  | Restart_write_gathering
  | Restart_write_state bool
  | Restart_fire bool bool
  | Invoke ice_event
  | Returned

record ice_shared =
  sh_role :: role
  sh_state :: ice_state
  sh_gathering :: gathering_state
  sh_mid :: str
  sh_closed :: bool
  sh_events :: "ice_event list"

fun ice_thread :: "(ice_shared, ice_place) thread" where
  "ice_thread s (Juice_state_load j) =
     Some (s, if sh_closed s then Returned else Juice_state_write (map_state j))"
| "ice_thread s (Juice_state_write t) =
     Some (s\<lparr>sh_state := t\<rparr>, if sh_state s \<noteq> t then Invoke (Ev_state t) else Returned)"
| "ice_thread s (Juice_recv_load data) =
     Some (s, if sh_closed s then Returned else Invoke (Ev_data data))"
| "ice_thread s (Juice_candidate_load sdp) =
     Some (s, if sh_closed s then Returned else Juice_candidate_parse sdp)"
| "ice_thread s (Juice_candidate_parse sdp) =
     Some (s, case Candidate_parse sdp (sh_mid s) of Inr c \<Rightarrow> Invoke (Ev_candidate c) | Inl e \<Rightarrow> Returned)"
| "ice_thread s Juice_done_load =
     Some (s, if sh_closed s then Returned else Juice_done_write)"
| "ice_thread s Juice_done_write =
     Some (s\<lparr>sh_gathering := GatheringState_Complete\<rparr>,
           if sh_gathering s \<noteq> GatheringState_Complete then Invoke (Ev_gathering GatheringState_Complete) else Returned)"
| "ice_thread s Gather_load =
     Some (s, if sh_closed s then Returned else Gather_write)"
| "ice_thread s Gather_write =
     (if sh_gathering s = GatheringState_New
      then Some (s\<lparr>sh_gathering := GatheringState_InProgress\<rparr>, Invoke (Ev_gathering GatheringState_InProgress))
      else Some (s, Returned))"
| "ice_thread s (Remote_load d) =
     Some (s, if sh_closed s then Returned else Remote_write_role d)"
| "ice_thread s (Remote_write_role d) =
     Some (s\<lparr>sh_role := resolve_role (sh_role s) (d_role d)\<rparr>, Remote_write_mid (Description_bundle_mid d))"
| "ice_thread s (Remote_write_mid m) = Some (s\<lparr>sh_mid := m\<rparr>, Returned)"
| "ice_thread s Close_swap =
     Some (s\<lparr>sh_closed := True\<rparr>, if sh_closed s then Returned else Close_write)"
| "ice_thread s Close_write =
     Some (s\<lparr>sh_state := State_Closed\<rparr>, if sh_state s \<noteq> State_Closed then Invoke (Ev_state State_Closed) else Returned)"
| "ice_thread s Restart_load =
     Some (s, if sh_closed s then Returned else Restart_write_gathering)"
| "ice_thread s Restart_write_gathering =
     Some (s\<lparr>sh_gathering := GatheringState_New\<rparr>, Restart_write_state (sh_gathering s \<noteq> GatheringState_New))"
| "ice_thread s (Restart_write_state g) =
     Some (s\<lparr>sh_state := State_New\<rparr>, Restart_fire g (sh_state s \<noteq> State_New))"
| "ice_thread s (Restart_fire g t) =
     (if g then Some (s\<lparr>sh_events := sh_events s @ [Ev_gathering GatheringState_New]\<rparr>, Restart_fire False t)
      else Some (s, if t then Invoke (Ev_state State_New) else Returned))"
| "ice_thread s (Invoke e) = Some (s\<lparr>sh_events := sh_events s @ [e]\<rparr>, Returned)"
| "ice_thread s Returned = None"

text \<open>Run alone, a thread does what the handler of the sequential model does.\<close>

definition shared_of :: "('c, 'j, 'z) ice_logged_scheme \<Rightarrow> ice_shared" where
  "shared_of w = \<lparr>sh_role = ice_role w, sh_state = ice_state w, sh_gathering = ice_gathering w, sh_mid = ice_mid w,
     sh_closed = ice_closed w, sh_events = ice_log w\<rparr>"

fun ice_place_of :: "'c ice_op \<Rightarrow> ice_place option" where
  "ice_place_of (Op_on_juice_state j) = Some (Juice_state_load j)"
| "ice_place_of (Op_on_juice_recv data) = Some (Juice_recv_load data)"
| "ice_place_of (Op_on_juice_candidate sdp) = Some (Juice_candidate_load sdp)"
| "ice_place_of Op_on_juice_gathering_done = Some Juice_done_load"
| "ice_place_of Op_gather = Some Gather_load"
| "ice_place_of (Op_set_remote_description d) = Some (Remote_load d)"
| "ice_place_of Op_close = Some Close_swap"
| "ice_place_of Op_restart_ice = Some Restart_load"
| "ice_place_of op = None"

lemma ice_thread_alone:
  assumes "ice_place_of op = Some p"
  shows "\<exists>w'. run_ice (scripted env (\<lambda>_ _ _. []) (Suc n)) op w = Some w' \<and>
    run_schedule ice_thread (replicate 6 0) (shared_of w, [p]) = (shared_of w', [Returned])"
  using assms
  by (cases op) (auto simp: shared_of_def ice_op_defs Let_def deliver_def eval_nat_numeral split_beta split: sum.split)

fun ice_held :: "ice_place \<Rightarrow> nat" where
  "ice_held (Juice_state_write t) = (if t = State_Closed then 1 else 0)"
| "ice_held Close_write = 1"
| "ice_held (Invoke e) = (if e = Ev_state State_Closed then 1 else 0)"
| "ice_held p = 0"

definition ice_free :: "ice_shared \<Rightarrow> nat" where
  "ice_free s = count_list (sh_events s) (Ev_state State_Closed) + (if sh_closed s then 0 else 1)"

interpretation ice_closing: resource ice_thread ice_held ice_free
proof unfold_locales
  fix s p s' p'
  assume "ice_thread s p = Some (s', p')"
  then show "ice_free s' + ice_held p' \<le> ice_free s + ice_held p"
    using map_state_range by (cases "(s, p)" rule: ice_thread.cases) (auto simp: ice_free_def split: if_splits sum.splits)
qed

text \<open>A thread at one of these places writes no state once the transport is closed.\<close>

fun ice_quiet :: "ice_place \<Rightarrow> bool" where
  "ice_quiet (Juice_state_write t) = False"
| "ice_quiet Restart_write_gathering = False"
| "ice_quiet (Restart_write_state g) = False"
| "ice_quiet p = True"

interpretation ice_pinned: stable ice_thread "\<lambda>s. sh_closed s \<and> sh_state s = State_Closed" ice_quiet
proof unfold_locales
  fix s p s' p'
  assume "sh_closed s \<and> sh_state s = State_Closed" "ice_quiet p" "ice_thread s p = Some (s', p')"
  then show "(sh_closed s' \<and> sh_state s' = State_Closed) \<and> ice_quiet p'"
    by (cases "(s, p)" rule: ice_thread.cases) (auto split: if_splits sum.splits)
qed

text \<open>Each handler of the agent and each operation, run alone from its first access to its last,
  has the effect that the sequential model gives it, on the state, the closed flag and the
  events: the interleavings refine the same handlers.\<close>

theorem ice_threads_refine:
  assumes "ice_place_of op = Some p"
  shows "\<exists>w'. run_ice (scripted env (\<lambda>_ _ _. []) (Suc n)) op w = Some w' \<and>
    interleaving ice_thread (shared_of w, [p]) (shared_of w', [Returned])"
proof -
  from ice_thread_alone [OF assms] obtain w' where
    "run_ice (scripted env (\<lambda>_ _ _. []) (Suc n)) op w = Some w'"
    "run_schedule ice_thread (replicate 6 0) (shared_of w, [p]) = (shared_of w', [Returned])"
    by blast
  with run_schedule_interleaving [of ice_thread "(shared_of w, [p])" "replicate 6 0"] show ?thesis by auto
qed

theorem ice_threads_refine_witness:
  "\<exists>w'. run_ice (scripted sample_env (\<lambda>_ _ _. []) (Suc 0)) Op_close (start_world (0 :: nat) Role_ActPass sample_callbacks) = Some w' \<and>
    interleaving ice_thread (shared_of (start_world (0 :: nat) Role_ActPass sample_callbacks), [Close_swap]) (shared_of w', [Returned])"
  using ice_threads_refine [of Op_close Close_swap sample_env 0 "start_world (0 :: nat) Role_ActPass sample_callbacks"]
  unfolding ice_place_of.simps by blast

text \<open>C37: \<open>close\<close> does not pin the state, nor does it stop \<open>on_data\<close>. The application closes the transport while the driver
  is in one handler, which has read the closed flag just before: \<open>close\<close> returns, with the state Closed and reported, and
  then the handler goes on. If it is a change of state, Connected overwrites Closed for good and is reported after it; if
  it is a datagram, \<open>on_data\<close> is called after \<open>close\<close> has returned.\<close>

theorem ice_close_race:
  assumes "\<not> sh_closed s" "sh_state s \<notin> {State_Closed, State_Connected}"
  shows "let closed = s\<lparr>sh_closed := True, sh_state := State_Closed, sh_events := sh_events s @ [Ev_state State_Closed]\<rparr> in
    interleaving ice_thread (s, [Juice_state_load Juice_Connected, Close_swap]) (closed, [Juice_state_write State_Connected, Returned]) \<and>
    interleaving ice_thread (closed, [Juice_state_write State_Connected, Returned])
      (closed\<lparr>sh_state := State_Connected, sh_events := sh_events closed @ [Ev_state State_Connected]\<rparr>, [Returned, Returned]) \<and>
    interleaving ice_thread (s, [Juice_recv_load data, Close_swap]) (closed, [Invoke (Ev_data data), Returned]) \<and>
    interleaving ice_thread (closed, [Invoke (Ev_data data), Returned])
      (closed\<lparr>sh_events := sh_events closed @ [Ev_data data]\<rparr>, [Returned, Returned])"
proof -
  let ?closed = "s\<lparr>sh_closed := True, sh_state := State_Closed, sh_events := sh_events s @ [Ev_state State_Closed]\<rparr>"
  have "run_schedule ice_thread [0, 1, 1, 1] (s, [Juice_state_load Juice_Connected, Close_swap]) =
      (?closed, [Juice_state_write State_Connected, Returned])"
    "run_schedule ice_thread [0, 0] (?closed, [Juice_state_write State_Connected, Returned]) =
      (?closed\<lparr>sh_state := State_Connected, sh_events := sh_events ?closed @ [Ev_state State_Connected]\<rparr>, [Returned, Returned])"
    "run_schedule ice_thread [0, 1, 1, 1] (s, [Juice_recv_load data, Close_swap]) = (?closed, [Invoke (Ev_data data), Returned])"
    "run_schedule ice_thread [0] (?closed, [Invoke (Ev_data data), Returned]) =
      (?closed\<lparr>sh_events := sh_events ?closed @ [Ev_data data]\<rparr>, [Returned, Returned])"
    using assms by simp_all
  then show ?thesis unfolding Let_def by (intro conjI) (metis run_schedule_interleaving)+
qed

theorem ice_close_race_witness:
  "\<exists>s s1 s2. interleaving ice_thread (shared_of (start_world (0 :: nat) Role_ActPass sample_callbacks),
      [Juice_state_load Juice_Connected, Close_swap]) (s, [Juice_state_write State_Connected, Returned]) \<and>
    sh_closed s \<and> sh_state s = State_Closed \<and>
    interleaving ice_thread (s, [Juice_state_write State_Connected, Returned]) (s1, [Returned, Returned]) \<and>
    sh_closed s1 \<and> sh_state s1 = State_Connected \<and> sh_events s1 = [Ev_state State_Closed, Ev_state State_Connected] \<and>
    interleaving ice_thread (s, [Invoke (Ev_data [1]), Returned]) (s2, [Returned, Returned]) \<and>
    sh_events s2 = [Ev_state State_Closed, Ev_data [1]]"
  using ice_close_race [of "shared_of (start_world (0 :: nat) Role_ActPass sample_callbacks)" "[1]"]
  by (fastforce simp: shared_of_def Let_def)

text \<open>What \<open>close\<close> does guarantee under every schedule of any number of threads: the Closed
  event is delivered at most once, and once the transport is closed with no other
  thread between its check of the flag and its write, the state stays Closed.\<close>

theorem ice_close_guarantee:
  assumes "interleaving ice_thread (s, ps) (s', ps')"
  shows "(count_list (sh_events s) (Ev_state State_Closed) = 0 \<and> (\<forall>p \<in> set ps. ice_held p = 0) \<longrightarrow>
      count_list (sh_events s') (Ev_state State_Closed) \<le> 1) \<and>
    (sh_closed s \<and> sh_state s = State_Closed \<and> list_all ice_quiet ps \<longrightarrow> sh_closed s' \<and> sh_state s' = State_Closed)"
proof (intro conjI impI)
  assume start: "count_list (sh_events s) (Ev_state State_Closed) = 0 \<and> (\<forall>p \<in> set ps. ice_held p = 0)"
  then have "sum_list (map ice_held ps) = 0" by (induction ps) auto
  with ice_closing.interleaving_spends [OF assms] start show "count_list (sh_events s') (Ev_state State_Closed) \<le> 1"
    by (auto simp: ice_free_def split: if_splits)
next
  assume "sh_closed s \<and> sh_state s = State_Closed \<and> list_all ice_quiet ps"
  with ice_pinned.interleaving_keeps [OF assms] show "sh_closed s'" "sh_state s' = State_Closed" by simp_all
qed

theorem ice_close_guarantee_witness:
  "\<exists>s. interleaving ice_thread (shared_of (start_world (0 :: nat) Role_ActPass sample_callbacks), [Close_swap, Close_swap]) (s, [Returned, Returned]) \<and>
    count_list (sh_events s) (Ev_state State_Closed) = 1"
proof -
  let ?s = "shared_of (start_world (0 :: nat) Role_ActPass sample_callbacks)"
  obtain s where s: "interleaving ice_thread (?s, [Close_swap, Close_swap]) (s, [Returned, Returned])"
    "Ev_state State_Closed \<in> set (sh_events s)"
    using run_schedule_interleaving [of ice_thread "(?s, [Close_swap, Close_swap])" "[0, 1, 0, 0]"]
    by (auto simp: shared_of_def)
  have "count_list (sh_events ?s) (Ev_state State_Closed) = 0" by (simp add: shared_of_def)
  with ice_close_guarantee [OF s(1)] have "count_list (sh_events s) (Ev_state State_Closed) \<le> 1" by simp
  moreover have "count_list (sh_events s) (Ev_state State_Closed) \<noteq> 0" using s(2) by (simp add: count_list_0_iff)
  ultimately show ?thesis using s(1) by (intro exI [of _ s]) simp
qed

section \<open>DTLS: close against the handshake\<close>

text \<open>
  The places of \<open>start\<close>, \<open>send\<close>, \<open>pump_inbound\<close>, \<open>close\<close>, \<open>fail_transport\<close> and of the drain of the auto-start hook (\<open>Drain_lock\<close>).
  What OpenSSL answers is a parameter of the thread: how \<open>drive_handshake_locked\<close> ends (\<open>None\<close> for the server in \<open>start\<close>, which
  does not call it, and for a pump whose \<open>BIO_write\<close> fails), the plaintexts it hands out and whether they end with
  close_notify. \<open>set_callbacks\<close> and \<open>set_remote_fingerprint\<close> have no places: each is one write of a cell that no place
  depends on, since a callback is its event and what OpenSSL answers is a parameter. The inner lock is held from a \<open>lock\<close> place to \<open>Unlock\<close>;
  a thread that waits for the lock cannot move.
\<close>

datatype handshake_outcome = Hs_done | Hs_pending | Hs_failed

datatype drive_next = After_start | After_pump "bytes list" bool

datatype unlock_next = Then_return | Then_fail | Then_close

datatype dtls_place =
    Start_load "handshake_outcome option"
  | Start_swap "handshake_outcome option"
  | Start_write "handshake_outcome option"
  | Start_fire "handshake_outcome option"
  | Start_lock "handshake_outcome option"
  | Send_load
  | Send_check
  | Send_lock
  | Drain_lock
  | Pump_load "handshake_outcome option" "bytes list" bool
  | Pump_lock "handshake_outcome option" "bytes list" bool
  | Pump_check handshake_outcome "bytes list" bool
  | Drive handshake_outcome drive_next
  | Drive_finish drive_next
  | Drive_write drive_next
  | Drive_fire drive_next
  | Pump_read "bytes list" bool
  | Pump_deliver "bytes list" bool
  | Unlock unlock_next
  | Dtls_close_swap
  | Dtls_close_write
  | Dtls_fail_write
  | Dtls_invoke dtls_state
  | Dtls_returned

record dtls_shared =
  dsh_state :: dtls_state
  dsh_closed :: bool
  dsh_started :: bool
  dsh_done :: bool
  dsh_locked :: bool
  dsh_events :: "dtls_state list"
  dsh_data :: "bytes list"

fun drive_returns :: "drive_next \<Rightarrow> bool \<Rightarrow> dtls_place" where
  "drive_returns After_start ok = Unlock Then_return"
| "drive_returns (After_pump ps z) ok = (if ok then Pump_read ps z else Unlock Then_fail)"

fun dtls_thread :: "(dtls_shared, dtls_place) thread" where
  "dtls_thread s (Start_load h) = Some (s, if dsh_closed s then Dtls_returned else Start_swap h)"
| "dtls_thread s (Start_swap h) =
     Some (s\<lparr>dsh_started := True\<rparr>, if dsh_started s then Dtls_returned else Start_write h)"
| "dtls_thread s (Start_write h) =
     (if dsh_state s \<noteq> DtlsState_New then Some (s, Dtls_returned)
      else Some (s\<lparr>dsh_state := DtlsState_Connecting\<rparr>, Start_fire h))"
| "dtls_thread s (Start_fire h) = Some (s\<lparr>dsh_events := dsh_events s @ [DtlsState_Connecting]\<rparr>, Start_lock h)"
| "dtls_thread s (Start_lock h) =
     (if dsh_locked s then None
      else Some (s\<lparr>dsh_locked := True\<rparr>, case h of None \<Rightarrow> Unlock Then_return | Some hs \<Rightarrow> Drive hs After_start))"
| "dtls_thread s Send_load = Some (s, if dsh_closed s then Dtls_returned else Send_check)"
| "dtls_thread s Send_check = Some (s, if dsh_state s \<noteq> DtlsState_Connected then Dtls_returned else Send_lock)"
| "dtls_thread s Send_lock = (if dsh_locked s then None else Some (s\<lparr>dsh_locked := True\<rparr>, Unlock Then_return))"
| "dtls_thread s Drain_lock = (if dsh_locked s then None else Some (s\<lparr>dsh_locked := True\<rparr>, Unlock Then_return))"
| "dtls_thread s (Pump_load h ps z) = Some (s, if dsh_closed s then Dtls_returned else Pump_lock h ps z)"
| "dtls_thread s (Pump_lock h ps z) =
     (if dsh_locked s then None
      else Some (s\<lparr>dsh_locked := True\<rparr>, case h of None \<Rightarrow> Unlock Then_return | Some hs \<Rightarrow> Pump_check hs ps z))"
| "dtls_thread s (Pump_check hs ps z) =
     Some (s, if dsh_state s = DtlsState_Connecting then Drive hs (After_pump ps z) else Pump_read ps z)"
| "dtls_thread s (Drive hs k) =
     Some (s, case hs of Hs_done \<Rightarrow> Drive_finish k | Hs_pending \<Rightarrow> drive_returns k True | Hs_failed \<Rightarrow> drive_returns k False)"
| "dtls_thread s (Drive_finish k) = Some (s\<lparr>dsh_done := True\<rparr>, if dsh_done s then drive_returns k True else Drive_write k)"
| "dtls_thread s (Drive_write k) = Some (s\<lparr>dsh_state := DtlsState_Connected\<rparr>, Drive_fire k)"
| "dtls_thread s (Drive_fire k) = Some (s\<lparr>dsh_events := dsh_events s @ [DtlsState_Connected]\<rparr>, drive_returns k True)"
| "dtls_thread s (Pump_read ps z) =
     Some (s, if dsh_state s = DtlsState_Connected then Pump_deliver ps z else Unlock Then_return)"
| "dtls_thread s (Pump_deliver ps z) =
     (case ps of
        p # ps \<Rightarrow> Some (s\<lparr>dsh_data := dsh_data s @ [p]\<rparr>, Pump_deliver ps z)
      | [] \<Rightarrow> Some (s, Unlock (if z then Then_close else Then_return)))"
| "dtls_thread s (Unlock k) =
     Some (s\<lparr>dsh_locked := False\<rparr>,
           case k of Then_return \<Rightarrow> Dtls_returned | Then_fail \<Rightarrow> Dtls_fail_write | Then_close \<Rightarrow> Dtls_close_swap)"
| "dtls_thread s Dtls_close_swap =
     Some (s\<lparr>dsh_closed := True\<rparr>, if dsh_closed s then Dtls_returned else Dtls_close_write)"
| "dtls_thread s Dtls_close_write =
     Some (s\<lparr>dsh_state := DtlsState_Closed\<rparr>,
           if dsh_state s \<noteq> DtlsState_Closed then Dtls_invoke DtlsState_Closed else Dtls_returned)"
| "dtls_thread s Dtls_fail_write =
     (if dsh_state s \<in> {DtlsState_Failed, DtlsState_Closed} then Some (s, Dtls_returned)
      else Some (s\<lparr>dsh_state := DtlsState_Failed\<rparr>, Dtls_invoke DtlsState_Failed))"
| "dtls_thread s (Dtls_invoke t) = Some (s\<lparr>dsh_events := dsh_events s @ [t]\<rparr>, Dtls_returned)"
| "dtls_thread s Dtls_returned = None"

text \<open>The states that are reported at most once, with the flag that grants each its turn.\<close>

fun dtls_held :: "dtls_state \<Rightarrow> dtls_place \<Rightarrow> nat" where
  "dtls_held t (Start_write h) = (if t = DtlsState_Connecting then 1 else 0)"
| "dtls_held t (Start_fire h) = (if t = DtlsState_Connecting then 1 else 0)"
| "dtls_held t (Drive_write k) = (if t = DtlsState_Connected then 1 else 0)"
| "dtls_held t (Drive_fire k) = (if t = DtlsState_Connected then 1 else 0)"
| "dtls_held t Dtls_close_write = (if t = DtlsState_Closed then 1 else 0)"
| "dtls_held t (Dtls_invoke u) = (if t = u \<and> t \<notin> {DtlsState_New, DtlsState_Failed} then 1 else 0)"
| "dtls_held t p = 0"

fun dtls_granted :: "dtls_state \<Rightarrow> dtls_shared \<Rightarrow> bool" where
  "dtls_granted DtlsState_Connecting s = dsh_started s"
| "dtls_granted DtlsState_Connected s = dsh_done s"
| "dtls_granted DtlsState_Closed s = dsh_closed s"
| "dtls_granted t s = True"

definition dtls_free :: "dtls_state \<Rightarrow> dtls_shared \<Rightarrow> nat" where
  "dtls_free t s = (if t \<in> {DtlsState_New, DtlsState_Failed} then 0
     else count_list (dsh_events s) t + (if dtls_granted t s then 0 else 1))"

lemma dtls_held_none [simp]:
  "dtls_held t (drive_returns k ok) = 0"
  "dtls_held t (case h of None \<Rightarrow> Unlock Then_return | Some hs \<Rightarrow> Drive hs After_start) = 0"
  "dtls_held t (case h of None \<Rightarrow> Unlock Then_return | Some hs \<Rightarrow> Pump_check hs ps z) = 0"
  "dtls_held t (case k' of Then_return \<Rightarrow> Dtls_returned | Then_fail \<Rightarrow> Dtls_fail_write | Then_close \<Rightarrow> Dtls_close_swap) = 0"
  "dtls_held t (case hs of Hs_done \<Rightarrow> Drive_finish k | Hs_pending \<Rightarrow> drive_returns k True | Hs_failed \<Rightarrow> drive_returns k False) = 0"
  by (cases k; simp split: option.split unlock_next.split handshake_outcome.split)+

interpretation dtls_turns: resource dtls_thread "dtls_held t" "dtls_free t" for t
proof unfold_locales
  fix s p s' p'
  assume "dtls_thread s p = Some (s', p')"
  then show "dtls_free t s' + dtls_held t p' \<le> dtls_free t s + dtls_held t p"
    by (cases t; cases "(s, p)" rule: dtls_thread.cases; simp add: dtls_free_def split: if_splits list.splits; clarsimp)
qed

text \<open>Starting is idempotent under every schedule: whatever the threads that start, pump, close and
  fail the transport, Connecting, Connected and Closed are each reported at most once.\<close>

theorem dtls_events_once:
  assumes "interleaving dtls_thread (s, ps) (s', ps')"
    and "dsh_events s = []" "\<forall>p \<in> set ps. dtls_held t p = 0" "t \<in> {DtlsState_Connecting, DtlsState_Connected, DtlsState_Closed}"
  shows "count_list (dsh_events s') t \<le> 1"
proof -
  have "sum_list (map (dtls_held t) ps) = 0" using assms(3) by (induction ps) auto
  with dtls_turns.interleaving_spends [OF assms(1), of t] assms(2,4) show ?thesis
    by (auto simp: dtls_free_def split: if_splits)
qed

definition dtls_shared_new :: dtls_shared where
  "dtls_shared_new = \<lparr>dsh_state = DtlsState_New, dsh_closed = False, dsh_started = False, dsh_done = False,
     dsh_locked = False, dsh_events = [], dsh_data = []\<rparr>"

theorem dtls_events_once_witness:
  "\<exists>s. interleaving dtls_thread (dtls_shared_new, [Start_load None, Start_load (Some Hs_pending)]) (s, [Dtls_returned, Dtls_returned]) \<and>
     dsh_events s = [DtlsState_Connecting] \<and> count_list (dsh_events s) DtlsState_Connecting \<le> 1"
proof -
  let ?s = "dtls_shared_new\<lparr>dsh_started := True, dsh_state := DtlsState_Connecting, dsh_events := [DtlsState_Connecting]\<rparr>"
  have run: "interleaving dtls_thread (dtls_shared_new, [Start_load None, Start_load (Some Hs_pending)]) (?s, [Dtls_returned, Dtls_returned])"
    using run_schedule_interleaving [of dtls_thread "(dtls_shared_new, [Start_load None, Start_load (Some Hs_pending)])" "[0, 1, 0, 1, 0, 0, 0, 0]"]
    by (simp add: dtls_shared_new_def)
  with dtls_events_once [OF run, of DtlsState_Connecting] show ?thesis
    by (intro exI [of _ ?s]) (simp add: dtls_shared_new_def)
qed

text \<open>C38: \<open>close\<close> races with the end of the handshake. A pump that has passed its checks sets Connected without
  looking at the flag again: the transport is closed, every call answers Closed, but its
  state is Connected, the application has seen Connected after Closed, and it is still given data.\<close>

theorem dtls_close_race:
  assumes "dsh_state s = DtlsState_Connecting" "\<not> dsh_closed s" "\<not> dsh_done s" "\<not> dsh_locked s"
  shows "interleaving dtls_thread (s, [Pump_load (Some Hs_done) [data] False, Dtls_close_swap])
    (s\<lparr>dsh_closed := True, dsh_done := True, dsh_state := DtlsState_Connected,
       dsh_events := dsh_events s @ [DtlsState_Closed, DtlsState_Connected], dsh_data := dsh_data s @ [data]\<rparr>,
     [Dtls_returned, Dtls_returned])"
proof -
  have "run_schedule dtls_thread [0, 0, 0, 1, 1, 1, 0, 0, 0, 0, 0, 0, 0, 0] (s, [Pump_load (Some Hs_done) [data] False, Dtls_close_swap]) =
    (s\<lparr>dsh_closed := True, dsh_done := True, dsh_state := DtlsState_Connected,
       dsh_events := dsh_events s @ [DtlsState_Closed, DtlsState_Connected], dsh_data := dsh_data s @ [data]\<rparr>,
     [Dtls_returned, Dtls_returned])"
    using assms by simp
  with run_schedule_interleaving show ?thesis by metis
qed

theorem dtls_close_race_witness:
  "\<exists>s. interleaving dtls_thread (dtls_shared_new\<lparr>dsh_state := DtlsState_Connecting\<rparr>, [Pump_load (Some Hs_done) [[1]] False, Dtls_close_swap])
       (s, [Dtls_returned, Dtls_returned]) \<and>
     dsh_closed s \<and> dsh_state s = DtlsState_Connected \<and> dsh_events s = [DtlsState_Closed, DtlsState_Connected] \<and>
     dsh_data s = [[1]]"
  using dtls_close_race [of "dtls_shared_new\<lparr>dsh_state := DtlsState_Connecting\<rparr>" "[1]"]
  by (fastforce simp: dtls_shared_new_def)

section \<open>SCTP: close against connect\<close>

text \<open>The state is an atomic byte, changed by a compare-exchange and by a swap.\<close>

datatype sctp_place =
    Connect_load
  | Connect_swap
  | Connect_exchange
  | Connect_associate
  | Connect_fire
  | Sctp_close_swap
  | Sctp_close_write
  | Sctp_close_fire
  | Sctp_close_clear
  | Sctp_returned

record sctp_shared =
  ssh_cell :: u8
  ssh_closed :: bool
  ssh_started :: bool
  ssh_associated :: bool
  ssh_events :: "sctp_state list"

fun sctp_thread :: "(sctp_shared, sctp_place) thread" where
  "sctp_thread s Connect_load = Some (s, if ssh_closed s then Sctp_returned else Connect_swap)"
| "sctp_thread s Connect_swap =
     Some (s\<lparr>ssh_started := True\<rparr>, if ssh_started s then Sctp_returned else Connect_exchange)"
| "sctp_thread s Connect_exchange =
     (if ssh_cell s = SctpState_as_u8 SctpState_New
      then Some (s\<lparr>ssh_cell := SctpState_as_u8 SctpState_Connecting\<rparr>, Connect_associate)
      else Some (s, Sctp_returned))"
| "sctp_thread s Connect_associate = Some (s\<lparr>ssh_associated := True\<rparr>, Connect_fire)"
| "sctp_thread s Connect_fire = Some (s\<lparr>ssh_events := ssh_events s @ [SctpState_Connecting]\<rparr>, Sctp_returned)"
| "sctp_thread s Sctp_close_swap =
     Some (s\<lparr>ssh_closed := True\<rparr>, if ssh_closed s then Sctp_returned else Sctp_close_write)"
| "sctp_thread s Sctp_close_write =
     Some (s\<lparr>ssh_cell := SctpState_as_u8 SctpState_Closed\<rparr>,
           if ssh_cell s \<noteq> SctpState_as_u8 SctpState_Closed then Sctp_close_fire else Sctp_close_clear)"
| "sctp_thread s Sctp_close_fire = Some (s\<lparr>ssh_events := ssh_events s @ [SctpState_Closed]\<rparr>, Sctp_close_clear)"
| "sctp_thread s Sctp_close_clear = Some (s\<lparr>ssh_associated := False\<rparr>, Sctp_returned)"
| "sctp_thread s Sctp_returned = None"

fun sctp_held :: "sctp_state \<Rightarrow> sctp_place \<Rightarrow> nat" where
  "sctp_held t Connect_exchange = (if t = SctpState_Connecting then 1 else 0)"
| "sctp_held t Connect_associate = (if t = SctpState_Connecting then 1 else 0)"
| "sctp_held t Connect_fire = (if t = SctpState_Connecting then 1 else 0)"
| "sctp_held t Sctp_close_write = (if t = SctpState_Closed then 1 else 0)"
| "sctp_held t Sctp_close_fire = (if t = SctpState_Closed then 1 else 0)"
| "sctp_held t p = 0"

fun sctp_granted :: "sctp_state \<Rightarrow> sctp_shared \<Rightarrow> bool" where
  "sctp_granted SctpState_Connecting s = ssh_started s"
| "sctp_granted SctpState_Closed s = ssh_closed s"
| "sctp_granted t s = True"

definition sctp_free :: "sctp_state \<Rightarrow> sctp_shared \<Rightarrow> nat" where
  "sctp_free t s = count_list (ssh_events s) t + (if sctp_granted t s then 0 else 1)"

interpretation sctp_turns: resource sctp_thread "sctp_held t" "sctp_free t" for t
proof unfold_locales
  fix s p s' p'
  assume "sctp_thread s p = Some (s', p')"
  then show "sctp_free t s' + sctp_held t p' \<le> sctp_free t s + sctp_held t p"
    by (cases "(s, p)" rule: sctp_thread.cases; cases t) (auto simp: sctp_free_def split: if_splits)
qed

interpretation sctp_final: stable sctp_thread "\<lambda>s. SctpState_from_u8 (ssh_cell s) = SctpState_Closed" "\<lambda>_. True"
proof unfold_locales
  fix s p s' p'
  assume "SctpState_from_u8 (ssh_cell s) = SctpState_Closed" "sctp_thread s p = Some (s', p')"
  then show "SctpState_from_u8 (ssh_cell s') = SctpState_Closed \<and> True"
    by (cases "(s, p)" rule: sctp_thread.cases) (auto simp: SctpState_from_u8_def split: if_splits)
qed

text \<open>The compare-exchange makes the state of the association safe: under every schedule of any
  number of threads that connect and close, Closed is final, and Connecting and Closed are each
  reported at most once.\<close>

theorem sctp_close_final:
  assumes "interleaving sctp_thread (s, ps) (s', ps')"
  shows "(SctpState_from_u8 (ssh_cell s) = SctpState_Closed \<longrightarrow> SctpState_from_u8 (ssh_cell s') = SctpState_Closed) \<and>
    (ssh_events s = [] \<and> (\<forall>p \<in> set ps. sctp_held t p = 0) \<longrightarrow> count_list (ssh_events s') t \<le> 1)"
proof (intro conjI impI)
  assume "SctpState_from_u8 (ssh_cell s) = SctpState_Closed"
  with sctp_final.interleaving_keeps [OF assms] show "SctpState_from_u8 (ssh_cell s') = SctpState_Closed"
    by (simp add: list_all_iff)
next
  assume start: "ssh_events s = [] \<and> (\<forall>p \<in> set ps. sctp_held t p = 0)"
  then have "sum_list (map (sctp_held t) ps) = 0" by (induction ps) auto
  with sctp_turns.interleaving_spends [OF assms, of t] start show "count_list (ssh_events s') t \<le> 1"
    by (auto simp: sctp_free_def split: if_splits)
qed

definition sctp_shared_new :: sctp_shared where
  "sctp_shared_new = \<lparr>ssh_cell = SctpState_as_u8 SctpState_New, ssh_closed = False, ssh_started = False,
     ssh_associated = False, ssh_events = []\<rparr>"

theorem sctp_close_final_witness:
  "\<exists>s. interleaving sctp_thread (sctp_shared_new, [Connect_load, Sctp_close_swap]) (s, [Sctp_returned, Sctp_returned]) \<and>
     ssh_events s = [SctpState_Connecting, SctpState_Closed] \<and> count_list (ssh_events s) SctpState_Closed \<le> 1"
proof -
  let ?s = "sctp_shared_new\<lparr>ssh_cell := 4, ssh_closed := True, ssh_started := True,
    ssh_events := [SctpState_Connecting, SctpState_Closed]\<rparr>"
  have run: "interleaving sctp_thread (sctp_shared_new, [Connect_load, Sctp_close_swap]) (?s, [Sctp_returned, Sctp_returned])"
    using run_schedule_interleaving [of sctp_thread "(sctp_shared_new, [Connect_load, Sctp_close_swap])" "[0, 0, 0, 0, 0, 1, 1, 1, 1]"]
    by (simp add: sctp_shared_new_def)
  with sctp_close_final [OF run, of SctpState_Closed] show ?thesis
    by (intro exI [of _ ?s]) (simp add: sctp_shared_new_def)
qed

text \<open>Its flag is not: a connect that is overtaken by \<open>close\<close> after its compare-exchange marks the closed
  transport as associated, and the application sees Connecting after Closed.\<close>

theorem sctp_associated_race:
  "interleaving sctp_thread (sctp_shared_new, [Connect_load, Sctp_close_swap])
    (sctp_shared_new\<lparr>ssh_cell := SctpState_as_u8 SctpState_Closed, ssh_closed := True, ssh_started := True,
       ssh_associated := True, ssh_events := [SctpState_Closed, SctpState_Connecting]\<rparr>, [Sctp_returned, Sctp_returned])"
proof -
  have "run_schedule sctp_thread [0, 0, 0, 1, 1, 1, 1, 0, 0] (sctp_shared_new, [Connect_load, Sctp_close_swap]) =
    (sctp_shared_new\<lparr>ssh_cell := SctpState_as_u8 SctpState_Closed, ssh_closed := True, ssh_started := True,
       ssh_associated := True, ssh_events := [SctpState_Closed, SctpState_Connecting]\<rparr>, [Sctp_returned, Sctp_returned])"
    by (simp add: sctp_shared_new_def)
  with run_schedule_interleaving show ?thesis by metis
qed

section \<open>The threads against the sequential model\<close>

definition sctp_shared_of :: "('u, 'j, 'v, 'l, 'k, 'z) sctp_logged_scheme \<Rightarrow> sctp_shared" where
  "sctp_shared_of w = \<lparr>ssh_cell = sctp_cell w, ssh_closed = sctp_closed w, ssh_started = sctp_started w,
     ssh_associated = sctp_associated w, ssh_events = sctp_states (sctp_log w)\<rparr>"

text \<open>The two threads of SCTP, run alone from the first access to the last, do what \<open>connect\<close> and \<open>close\<close>
  do in the sequential model, on the state, the flags and the events.\<close>

theorem sctp_threads_refine:
  "\<exists>w1 w2. run_sctp (scripted_sctp (\<lambda>_ _ _. []) env (Suc n)) Sctp_connect w = Some w1 \<and>
     interleaving sctp_thread (sctp_shared_of w, [Connect_load]) (sctp_shared_of w1, [Sctp_returned]) \<and>
     run_sctp (scripted_sctp (\<lambda>_ _ _. []) env (Suc n)) Sctp_close w = Some w2 \<and>
     interleaving sctp_thread (sctp_shared_of w, [Sctp_close_swap]) (sctp_shared_of w2, [Sctp_returned])"
proof -
  note unfold = sctp_shared_of_def SctpTransport_connect_def SctpTransport_close_def fire_sctp_state_change_def Let_def
    log_sctp_def sctp_states_append eval_nat_numeral
  have "\<exists>w'. run_sctp (scripted_sctp (\<lambda>_ _ _. []) env (Suc n)) Sctp_connect w = Some w' \<and>
     run_schedule sctp_thread (replicate 5 0) (sctp_shared_of w, [Connect_load]) = (sctp_shared_of w', [Sctp_returned])"
    by (auto simp: unfold simp del: scripted_sctp.simps SctpState_as_u8.simps)
  moreover have "\<exists>w'. run_sctp (scripted_sctp (\<lambda>_ _ _. []) env (Suc n)) Sctp_close w = Some w' \<and>
     run_schedule sctp_thread (replicate 4 0) (sctp_shared_of w, [Sctp_close_swap]) = (sctp_shared_of w', [Sctp_returned])"
    by (auto simp: unfold simp del: scripted_sctp.simps SctpState_as_u8.simps)
  ultimately show ?thesis by (meson interleaving_alone)
qed

fun dtls_data :: "dtls_event list \<Rightarrow> bytes list" where
  "dtls_data [] = []"
| "dtls_data (Ev_dtls_data d # es) = d # dtls_data es"
| "dtls_data (e # es) = dtls_data es"

lemma dtls_data_append: "dtls_data (es @ es') = dtls_data es @ dtls_data es'"
  by (induction es rule: dtls_data.induct) simp_all

definition dtls_shared_of :: "('u, 'j, 'd, 'l, 'z) dtls_logged_scheme \<Rightarrow> dtls_shared" where
  "dtls_shared_of w = \<lparr>dsh_state = dtls_state w, dsh_closed = dtls_closed w, dsh_started = dtls_started w,
     dsh_done = dtls_handshake_done w, dsh_locked = dtls_locked w, dsh_events = dtls_states (dtls_log w),
     dsh_data = dtls_data (dtls_log w)\<rparr>"

text \<open>Callbacks that only take note of the event.\<close>

definition quiet_dtls ::
    "('u, 'j, 'je, 'd, 'l, 'w, 'e, 'h, ('u, 'j, 'd, 'l, 'z) dtls_logged_scheme) dtls_env \<Rightarrow> bool" where
  "quiet_dtls env \<longleftrightarrow> (\<forall>c s v. call_dtls_state_change env c s v = Some (log_dtls (Ev_dtls_state s) v))"

lemma quiet_scripted: "quiet_dtls (scripted_dtls log_dtls (\<lambda>_ _ _. []) env (Suc n))"
  by (simp add: quiet_dtls_def Let_def run_script_def)

text \<open>The threads of DTLS, run alone, do what the sequential model does on the state, the flags, the lock
  and the events: starting a server, closing, and failing the transport.\<close>

theorem dtls_threads_refine:
  assumes "quiet_dtls env" "\<not> dtls_locked w" "\<not> dtls_is_client w"
  shows "\<exists>r1 w1 r2 w2 w3.
    DtlsTransport_start env w = Some (r1, w1) \<and>
    interleaving dtls_thread (dtls_shared_of w, [Start_load None]) (dtls_shared_of w1, [Dtls_returned]) \<and>
    DtlsTransport_close env w = Some (r2, w2) \<and>
    interleaving dtls_thread (dtls_shared_of w, [Dtls_close_swap]) (dtls_shared_of w2, [Dtls_returned]) \<and>
    fail_transport env w = Some w3 \<and>
    interleaving dtls_thread (dtls_shared_of w, [Dtls_fail_write]) (dtls_shared_of w3, [Dtls_returned])"
proof -
  have fires: "call_dtls_state_change env c s v = Some (log_dtls (Ev_dtls_state s) v)" for c s v
    using assms(1) by (simp add: quiet_dtls_def)
  note unfold = dtls_shared_of_def fire_dtls_state_change_def fires Let_def log_dtls_def dtls_states_append dtls_data_append eval_nat_numeral
  have "\<exists>r w'. DtlsTransport_start env w = Some (r, w') \<and>
      run_schedule dtls_thread (replicate 6 0) (dtls_shared_of w, [Start_load None]) = (dtls_shared_of w', [Dtls_returned])"
    using assms(2,3)
    by (auto simp: unfold DtlsTransport_start_def IceTransport_set_callbacks_def lock_inner_def unlock_inner_def)
  moreover have "\<exists>r w'. DtlsTransport_close env w = Some (r, w') \<and>
      run_schedule dtls_thread (replicate 3 0) (dtls_shared_of w, [Dtls_close_swap]) = (dtls_shared_of w', [Dtls_returned])"
    by (auto simp: unfold DtlsTransport_close_def)
  moreover have "\<exists>w'. fail_transport env w = Some w' \<and>
      run_schedule dtls_thread (replicate 2 0) (dtls_shared_of w, [Dtls_fail_write]) = (dtls_shared_of w', [Dtls_returned])"
    by (auto simp: unfold fail_transport_def)
  ultimately show ?thesis by (meson interleaving_alone)
qed

theorem dtls_threads_refine_witness:
  "\<exists>r1 w1 r2 w2 w3.
    DtlsTransport_start (scripted_dtls log_dtls (\<lambda>_ _ _. []) toy_env (Suc 0)) (toy_world True False) = Some (r1, w1) \<and>
    interleaving dtls_thread (dtls_shared_of (toy_world True False), [Start_load None]) (dtls_shared_of w1, [Dtls_returned]) \<and>
    DtlsTransport_close (scripted_dtls log_dtls (\<lambda>_ _ _. []) toy_env (Suc 0)) (toy_world True False) = Some (r2, w2) \<and>
    interleaving dtls_thread (dtls_shared_of (toy_world True False), [Dtls_close_swap]) (dtls_shared_of w2, [Dtls_returned]) \<and>
    fail_transport (scripted_dtls log_dtls (\<lambda>_ _ _. []) toy_env (Suc 0)) (toy_world True False) = Some w3 \<and>
    interleaving dtls_thread (dtls_shared_of (toy_world True False), [Dtls_fail_write]) (dtls_shared_of w3, [Dtls_returned])"
  by (rule dtls_threads_refine) (simp_all add: quiet_scripted toy_world_def)

text \<open>The pump, run alone on the datagram that completes the handshake, goes through the places of its
  thread: it takes the lock, sets Connected, reports it and gives the lock back.\<close>

theorem dtls_pump_refines:
  assumes "quiet_dtls env" "\<not> dtls_locked w" "dtls_state w = DtlsState_Connecting" "\<not> dtls_handshake_done w"
    and "BIO_write_in env data (dtls_ssl w) = (wr, l1)" "0 \<le> wr"
    and "SSL_do_handshake env (verify_callback (de_openssl env) (dtls_expected w)) l1 = (ret, l2)"
      "SSL_get_error env l2 ret = SSL_ERROR_NONE"
    and "drain_outbound_locked env (w\<lparr>dtls_locked := True, dtls_ssl := l2\<rparr>) =
      Some (Inr (), w\<lparr>dtls_locked := True, dtls_ssl := l3, ice_agent := j\<rparr>)"
    and "plaintexts env (SSL_set_mtu env 4097 l3) [] False l4"
  shows "\<exists>w'. pump_inbound env data w = Some w' \<and>
    interleaving dtls_thread (dtls_shared_of w, [Pump_load (Some Hs_done) [] False]) (dtls_shared_of w', [Dtls_returned])"
proof -
  have fires: "call_dtls_state_change env c s v = Some (log_dtls (Ev_dtls_state s) v)" for c s v
    using assms(1) by (simp add: quiet_dtls_def)
  note unfold = dtls_shared_of_def fire_dtls_state_change_def fires Let_def log_dtls_def dtls_states_append dtls_data_append eval_nat_numeral
  obtain ret' buf where stop: "SSL_read env 4096 (SSL_set_mtu env 4097 l3) = ((ret', buf), l4)" "ret' \<le> 0"
    "SSL_get_error env l4 ret' \<noteq> SSL_ERROR_ZERO_RETURN"
    using assms(10) by (auto elim: plaintexts_NilE)
  have "\<exists>w'. pump_inbound env data w = Some w' \<and>
      run_schedule dtls_thread (replicate 10 0) (dtls_shared_of w, [Pump_load (Some Hs_done) [] False]) = (dtls_shared_of w', [Dtls_returned])"
    using assms(2-9) stop
    by (auto simp: unfold pump_inbound_def drive_handshake_locked_def lock_inner_def unlock_inner_def read_loop_stop)
  then show ?thesis by (meson interleaving_alone)
qed

theorem dtls_pump_refines_witness:
  "\<exists>w'. pump_inbound (scripted_dtls log_dtls (\<lambda>_ _ _. []) toy_env (Suc 0)) [7]
      ((toy_world True False)\<lparr>dtls_state := DtlsState_Connecting, dtls_expected := Some toy_pin\<rparr>) = Some w' \<and>
    interleaving dtls_thread
      (dtls_shared_of ((toy_world True False)\<lparr>dtls_state := DtlsState_Connecting, dtls_expected := Some toy_pin\<rparr>), [Pump_load (Some Hs_done) [] False])
      (dtls_shared_of w', [Dtls_returned])"
proof (rule dtls_pump_refines)
  let ?w = "(toy_world True False)\<lparr>dtls_state := DtlsState_Connecting, dtls_expected := Some toy_pin\<rparr>"
  let ?env = "scripted_dtls log_dtls (\<lambda>_ _ _. []) toy_env (Suc 0)"
  let ?l = "toy_new\<lparr>toy_peer := Some 7\<rparr>"
  show "quiet_dtls ?env" by (rule quiet_scripted)
  show "BIO_write_in ?env [7] (dtls_ssl ?w) = (1, toy_new\<lparr>toy_in := [7]\<rparr>)" by (simp add: toy_world_def toy_new_def)
  show "SSL_do_handshake ?env (verify_callback (de_openssl ?env) (dtls_expected ?w)) (toy_new\<lparr>toy_in := [7]\<rparr>) = (1, ?l)"
    by (simp add: toy_eval toy_verify)
  show "drain_outbound_locked ?env (?w\<lparr>dtls_locked := True, dtls_ssl := ?l\<rparr>) =
      Some (Inr (), ?w\<lparr>dtls_locked := True, dtls_ssl := ?l, ice_agent := ice_agent ?w\<rparr>)"
    by (subst drain_empty) (simp_all add: toy_new_def)
  show "plaintexts ?env (SSL_set_mtu ?env 4097 ?l) [] False ?l"
    using plaintexts_stop [of ?env ?l "-1" "[]" ?l] by (simp add: toy_new_def)
qed (simp_all add: toy_world_def)

end
