(* ===== verification/Nested_Races.thy ===== *)
theory Nested_Races
  imports Races
begin

text \<open>
  The transports under concurrency with callbacks that call back: any number of threads, each of which
  runs any code over the transport, and callbacks that do the same at any depth.
\<close>

section \<open>ICE\<close>

fun ice_start :: "ice_place \<Rightarrow> bool" where
  "ice_start (Juice_state_load j) = True"
| "ice_start (Juice_recv_load data) = True"
| "ice_start (Juice_candidate_load sdp) = True"
| "ice_start Juice_done_load = True"
| "ice_start Gather_load = True"
| "ice_start (Remote_load d) = True"
| "ice_start Close_swap = True"
| "ice_start Restart_load = True"
| "ice_start p = False"

lemma ice_start_place_of: "ice_place_of op = Some p \<Longrightarrow> ice_start p"
  by (cases op) auto

fun ice_invokes :: "ice_shared \<Rightarrow> ice_place \<Rightarrow> bool" where
  "ice_invokes s (Invoke e) = True"
| "ice_invokes s (Restart_fire g t) = g"
| "ice_invokes s p = False"

definition ice_code :: "(ice_shared, ice_place) code" where
  "ice_code = \<lparr>code_thread = ice_thread, code_invokes = ice_invokes, code_returned = Returned, code_starts = Collect ice_start\<rparr>"

lemma ice_code_fields [simp]:
  "code_thread ice_code = ice_thread" "code_invokes ice_code = ice_invokes" "code_returned ice_code = Returned"
  "code_starts ice_code = Collect ice_start"
  by (simp_all add: ice_code_def)

text \<open>What the application's code did between two worlds, as a run of one thread with nothing else.\<close>

abbreviation ice_did :: "('c, 'j, 'z) ice_logged_scheme \<Rightarrow> ('c, 'j, 'z) ice_logged_scheme \<Rightarrow> bool" where
  "ice_did w w' \<equiv> alone ice_code (shared_of w) (shared_of w')"

abbreviation ice_does :: "ice_shared \<Rightarrow> ice_place \<Rightarrow> ice_shared \<Rightarrow> bool" where
  "ice_does \<equiv> alone_at ice_code"

definition calls_did :: "('c, 'j, 'e, ('c, 'j, 'z) ice_logged_scheme) ice_env \<Rightarrow> bool" where
  "calls_did env \<longleftrightarrow>
     (\<forall>c x w w'. call_state_change env c x w = Some w' \<longrightarrow> ice_did (deliver (Ev_state x) w) w') \<and>
     (\<forall>c x w w'. call_gathering_state_change env c x w = Some w' \<longrightarrow> ice_did (deliver (Ev_gathering x) w) w') \<and>
     (\<forall>c x w w'. call_candidate env c x w = Some w' \<longrightarrow> ice_did (deliver (Ev_candidate x) w) w') \<and>
     (\<forall>c x w w'. call_data env c x w = Some w' \<longrightarrow> ice_did (deliver (Ev_data x) w) w')"

lemma calls_didD:
  assumes "calls_did env"
  shows "call_state_change env c s w = Some w' \<Longrightarrow> ice_did (deliver (Ev_state s) w) w'"
    "call_gathering_state_change env c g w = Some w' \<Longrightarrow> ice_did (deliver (Ev_gathering g) w) w'"
    "call_candidate env c cand w = Some w' \<Longrightarrow> ice_did (deliver (Ev_candidate cand) w) w'"
    "call_data env c data w = Some w' \<Longrightarrow> ice_did (deliver (Ev_data data) w) w'"
  using assms unfolding calls_did_def by blast+

lemma ice_did_refl: "shared_of w' = shared_of w \<Longrightarrow> ice_did w w'"
  by simp

lemma ice_does_did: "ice_does (shared_of w) p (shared_of w') \<Longrightarrow> ice_start p \<Longrightarrow> ice_did w w'"
  by (rule alone_call) simp_all

lemma ice_does_access:
  "ice_thread s p = Some (s', p') \<Longrightarrow> \<not> ice_invokes s p \<Longrightarrow> ice_does s' p' t \<Longrightarrow> ice_does s p t"
  by (rule alone_at_access) simp_all

lemma ice_does_return: "ice_does s Returned s"
  using alone_at_return [of ice_code] by simp

lemma ice_does_invoke:
  assumes "ice_thread (shared_of w) p = Some (shared_of (deliver e w), p')" "ice_invokes (shared_of w) p"
    and "ice_did (deliver e w) w'" "ice_does (shared_of w') p' t"
  shows "ice_does (shared_of w) p t"
  using assms by (auto intro: alone_at_invoke)

lemma ice_does_event:
  "ice_did (deliver e w) w' \<Longrightarrow> s = shared_of w \<Longrightarrow> ice_does s (Invoke e) (shared_of w')"
  by (simp, rule ice_does_invoke) (auto simp: shared_of_def deliver_def intro: ice_does_return)

text \<open>
  Every operation and every handler, with whatever its callbacks call, is a run of the thread.
\<close>

lemma ice_does_fired:
  assumes "if changed then ice_did (deliver e w) w' else w' = w"
  shows "ice_does (shared_of w) (if changed then Invoke e else Returned) (shared_of w')"
  using assms ice_does_event [of e w w'] ice_does_return by auto

lemma ice_op_did:
  assumes calls: "calls_did env" and step: "run_ice env op w = Some w'"
  shows "ice_did w w'"
proof (cases "ice_place_of op")
  case None
  with step show ?thesis
    by (intro ice_did_refl) (cases op; auto simp: ice_op_defs shared_of_def Let_def split_beta split: if_splits prod.splits sum.splits)
next
  case (Some p)
  note [dest] = calls_didD [OF calls]
  have "ice_does (shared_of w) p (shared_of w')"
  proof (cases "ice_closed w \<and> ice_gated op")
    case True
    with step ice_gated_stutter [of w op env] have "w' = w" by simp
    moreover have "ice_thread (shared_of w) p = Some (shared_of w, Returned)" "\<not> ice_invokes (shared_of w) p"
      using True Some by (cases op; auto simp: shared_of_def)+
    ultimately show ?thesis using ice_does_access ice_does_return by blast
  next
    case False
    show ?thesis
    proof (cases op)
      case (Op_on_juice_state j)
      let ?w = "w\<lparr>ice_state := map_state j\<rparr>"
      have "if ice_state w \<noteq> map_state j then ice_did (deliver (Ev_state (map_state j)) ?w) w' else w' = ?w"
        using step Op_on_juice_state False by (auto simp: ice_op_defs Let_def split: if_splits)
      from ice_does_fired [OF this] show ?thesis
        using Some False Op_on_juice_state
        by (auto simp: shared_of_def intro!: ice_does_access [of _ "Juice_state_load j"] ice_does_access [of _ "Juice_state_write (map_state j)"])
    next
      case Op_close
      let ?w = "w\<lparr>ice_closed := True, ice_state := State_Closed\<rparr>"
      have "if ice_state w \<noteq> State_Closed then ice_did (deliver (Ev_state State_Closed) ?w) w' else w' = ?w"
        using step Op_close False by (auto simp: ice_op_defs Let_def bind_eq_Some_conv split: if_splits)
      from ice_does_fired [OF this] show ?thesis
        using Some False Op_close
        by (auto simp: shared_of_def intro!: ice_does_access [of _ Close_swap] ice_does_access [of _ Close_write])
    next
      case Op_on_juice_gathering_done
      let ?w = "w\<lparr>ice_gathering := GatheringState_Complete\<rparr>"
      have "if ice_gathering w \<noteq> GatheringState_Complete then ice_did (deliver (Ev_gathering GatheringState_Complete) ?w) w' else w' = ?w"
        using step Op_on_juice_gathering_done False by (auto simp: ice_op_defs Let_def split: if_splits)
      from ice_does_fired [OF this] show ?thesis
        using Some False Op_on_juice_gathering_done
        by (auto simp: shared_of_def intro!: ice_does_access [of _ Juice_done_load] ice_does_access [of _ Juice_done_write])
    next
      case (Op_on_juice_recv data)
      have "ice_did (deliver (Ev_data data) w) w'" using step Op_on_juice_recv False by (auto simp: ice_op_defs)
      from ice_does_event [OF this refl] show ?thesis
        using Some False Op_on_juice_recv by (auto simp: shared_of_def intro!: ice_does_access [of _ "Juice_recv_load data"])
    next
      case (Op_on_juice_candidate sdp)
      show ?thesis
      proof (cases "Candidate_parse sdp (ice_mid w)")
        case (Inl e)
        then have "w' = w" using step Op_on_juice_candidate False by (simp add: ice_op_defs)
        with Inl show ?thesis using Some False Op_on_juice_candidate ice_does_return
          by (auto simp: shared_of_def intro!: ice_does_access [of _ "Juice_candidate_load sdp"] ice_does_access [of _ "Juice_candidate_parse sdp"])
      next
        case (Inr c)
        then have "ice_did (deliver (Ev_candidate c) w) w'" using step Op_on_juice_candidate False by (auto simp: ice_op_defs)
        from ice_does_event [OF this refl] Inr show ?thesis using Some False Op_on_juice_candidate
          by (auto simp: shared_of_def intro!: ice_does_access [of _ "Juice_candidate_load sdp"] ice_does_access [of _ "Juice_candidate_parse sdp"])
      qed
    next
      case Op_gather
      show ?thesis
      proof (cases "ice_gathering w = GatheringState_New")
        case True
        let ?w = "w\<lparr>ice_gathering := GatheringState_InProgress\<rparr>"
        from True obtain v where v: "ice_did (deliver (Ev_gathering GatheringState_InProgress) ?w) v" "shared_of v = shared_of w'"
          using step Op_gather False by (auto simp: ice_op_defs Let_def bind_eq_Some_conv shared_of_def split_beta)
        from ice_does_event [OF v(1) refl] v(2) True show ?thesis using Some False Op_gather
          by (auto simp: shared_of_def intro!: ice_does_access [of _ Gather_load] ice_does_access [of _ Gather_write])
      next
        case False
        then have "w' = w" using step Op_gather by (auto simp: ice_op_defs Let_def split: if_splits)
        with False show ?thesis using Some Op_gather ice_does_return
          by (auto simp: shared_of_def intro!: ice_does_access [of _ Gather_load] ice_does_access [of _ Gather_write])
      qed
    next
      case (Op_set_remote_description d)
      then have "shared_of w' = (shared_of w)\<lparr>sh_role := resolve_role (ice_role w) (d_role d), sh_mid := Description_bundle_mid d\<rparr>"
        using step False by (auto simp: ice_op_defs Let_def split_beta shared_of_def)
      with Some False Op_set_remote_description show ?thesis
        using ice_does_return [of "shared_of w'"]
        by (auto simp: shared_of_def intro!: ice_does_access [of _ "Remote_load d"] ice_does_access [of _ "Remote_write_role d"]
            ice_does_access [of _ "Remote_write_mid (Description_bundle_mid d)"])
    next
      case Op_restart_ice
      let ?g = "ice_gathering w \<noteq> GatheringState_New" and ?t = "ice_state w \<noteq> State_New"
      let ?w = "w\<lparr>ice_gathering := GatheringState_New, ice_state := State_New\<rparr>"
      have same: "ice_state w = State_New \<Longrightarrow> w\<lparr>ice_gathering := GatheringState_New\<rparr> = ?w"
        "ice_gathering w = GatheringState_New \<Longrightarrow> w\<lparr>ice_state := State_New\<rparr> = ?w"
        by (cases w; simp)+
      obtain v where v: "if ?g then ice_did (deliver (Ev_gathering GatheringState_New) ?w) v else v = ?w"
        "if ?t then ice_did (deliver (Ev_state State_New) v) w' else w' = v"
        using step Op_restart_ice False
        by (auto simp: ice_op_defs Let_def bind_eq_Some_conv split: if_splits)
          (metis same(1) calls_didD(2) [OF calls], metis same(2) calls_didD(1) [OF calls])
      have "ice_does (shared_of v) (Restart_fire False ?t) (shared_of w')"
        using ice_does_fired [OF v(2)] by (auto intro: ice_does_access [of _ "Restart_fire False ?t"])
      then have "ice_does (shared_of ?w) (Restart_fire ?g ?t) (shared_of w')"
        using v(1) ice_does_invoke [of ?w "Restart_fire True ?t" "Ev_gathering GatheringState_New" "Restart_fire False ?t" v]
        by (auto simp: shared_of_def deliver_def split: if_splits)
      with Some False Op_restart_ice show ?thesis
        by (auto simp: shared_of_def intro!: ice_does_access [of _ Restart_load] ice_does_access [of _ Restart_write_gathering]
            ice_does_access [of _ "Restart_write_state ?g"])
    qed (use Some in auto)
  qed
  with Some show ?thesis by (auto intro: ice_does_did ice_start_place_of)
qed

lemma scripted_did: "calls_did (scripted env script n)"
proof (induction n)
  case (Suc n)
  have "ice_did w w'" if "run_all (run_ice (scripted env script n)) ops w = Some w'" for ops w w'
    using that
    by (induction ops arbitrary: w) (auto simp: bind_eq_Some_conv intro: ice_did_refl alone_trans ice_op_did [OF Suc])
  then show ?case by (simp add: calls_did_def Let_def)
qed (simp add: calls_did_def)

lemma ice_run_did: "run_all (run_ice (scripted env script n)) ops w = Some w' \<Longrightarrow> ice_did w w'"
  by (induction ops arbitrary: w)
    (auto simp: bind_eq_Some_conv intro: ice_did_refl alone_trans ice_op_did [OF scripted_did])

text \<open>C15: the sequential model and the concurrent one agree. Every run of the sequential model, of any calls and
  agent events with any callbacks nested to any depth, is what one thread does alone when its
  operations are cut at their atomic accesses: same role, states, mid, closed flag and events.\<close>

theorem ice_runs_refine:
  assumes "run_all (run_ice (scripted env script n)) ops w = Some w'"
  shows "nested ice_code (shared_of w, [[Calling]]) (shared_of w', [[Calling]])"
  using ice_run_did [OF assms] by (simp add: alone_def)

text \<open>The application closes from its callback for Connected.\<close>

definition closing_script :: "(nat, nat, unit) ice_script" where
  "closing_script = (\<lambda>c e w. if e = Ev_state State_Connected then [Op_close] else [])"

definition closing_world :: "(nat, nat) ice_logged" where
  "closing_world = start_world 0 Role_ActPass sample_callbacks"

lemma closing_run:
  "run_all (run_ice (scripted sample_env closing_script (Suc (Suc 0)))) [Op_on_juice_state Juice_Connected] closing_world =
   Some (closing_world\<lparr>ice_closed := True, ice_state := State_Closed,
     ice_log := [Ev_state State_Connected, Ev_state State_Closed]\<rparr>)"
  by (simp add: closing_script_def closing_world_def ice_op_defs Let_def deliver_def start_world_def initial_ice_def ice.defs
      sample_callbacks_def)

theorem ice_runs_refine_witness:
  "nested ice_code (shared_of closing_world, [[Calling]])
     (shared_of (closing_world\<lparr>ice_closed := True, ice_state := State_Closed,
        ice_log := [Ev_state State_Connected, Ev_state State_Closed]\<rparr>), [[Calling]])"
  by (rule ice_runs_refine [OF closing_run])

text \<open>C18: what \<open>close\<close> guarantees, whatever the code around it: under every schedule of any number of threads,
  each calling what it likes, with callbacks that call back to any depth, the Closed event is delivered at most
  once; and once the transport is closed with no agent handler or restart between its check of the flag and its write,
  the state stays Closed.\<close>

theorem ice_nested_guarantee:
  assumes "nested ice_code (s, sts) (s', sts')"
  shows "(count_list (sh_events s) (Ev_state State_Closed) = 0 \<and> (\<forall>st \<in> set sts. \<forall>p \<in> set (places st). ice_held p = 0) \<longrightarrow>
      count_list (sh_events s') (Ev_state State_Closed) \<le> 1) \<and>
    (sh_closed s \<and> sh_state s = State_Closed \<and> (\<forall>st \<in> set sts. list_all ice_quiet (places st)) \<longrightarrow>
      sh_closed s' \<and> sh_state s' = State_Closed)"
proof (intro conjI impI)
  have "ice_held q = 0" if "ice_start q" for q using that by (cases q) auto
  moreover assume "count_list (sh_events s) (Ev_state State_Closed) = 0 \<and> (\<forall>st \<in> set sts. \<forall>p \<in> set (places st). ice_held p = 0)"
  ultimately show "count_list (sh_events s') (Ev_state State_Closed) \<le> 1"
    using ice_closing.nested_spends [OF assms] by (auto simp: ice_free_def split: if_splits)
next
  have "ice_quiet q" if "ice_start q" for q using that by (cases q) auto
  moreover assume "sh_closed s \<and> sh_state s = State_Closed \<and> (\<forall>st \<in> set sts. list_all ice_quiet (places st))"
  ultimately show "sh_closed s'" "sh_state s' = State_Closed"
    using ice_pinned.nested_keeps [OF assms] by auto
qed

theorem ice_nested_guarantee_witness:
  "\<exists>s. nested ice_code (shared_of closing_world, [[Calling]]) (s, [[Calling]]) \<and>
     count_list (sh_events s) (Ev_state State_Closed) \<le> 1 \<and> Ev_state State_Closed \<in> set (sh_events s)"
proof -
  have run: "nested ice_code (shared_of closing_world, [[Calling]])
     (shared_of (closing_world\<lparr>ice_closed := True, ice_state := State_Closed,
        ice_log := [Ev_state State_Connected, Ev_state State_Closed]\<rparr>), [[Calling]])"
    using ice_run_did [OF closing_run] by (simp add: alone_def)
  have "count_list (sh_events (shared_of closing_world)) (Ev_state State_Closed) = 0"
    by (simp add: shared_of_def closing_world_def)
  with ice_nested_guarantee [OF run] run show ?thesis by (fastforce simp: shared_of_def)
qed

section \<open>DTLS\<close>

fun dtls_starts :: "dtls_place \<Rightarrow> bool" where
  "dtls_starts (Start_load h) = True"
| "dtls_starts Send_load = True"
| "dtls_starts Drain_lock = True"
| "dtls_starts (Pump_load h ps z) = True"
| "dtls_starts Dtls_close_swap = True"
| "dtls_starts Dtls_fail_write = True"
| "dtls_starts p = False"

fun dtls_invokes :: "dtls_shared \<Rightarrow> dtls_place \<Rightarrow> bool" where
  "dtls_invokes s (Start_fire h) = True"
| "dtls_invokes s (Drive_fire k) = True"
| "dtls_invokes s (Pump_deliver ps z) = (ps \<noteq> [])"
| "dtls_invokes s (Dtls_invoke t) = True"
| "dtls_invokes s p = False"

definition dtls_code :: "(dtls_shared, dtls_place) code" where
  "dtls_code = \<lparr>code_thread = dtls_thread, code_invokes = dtls_invokes, code_returned = Dtls_returned,
     code_starts = Collect dtls_starts\<rparr>"

text \<open>C21: the same for DTLS: whatever any number of threads and their nested callbacks start, send, drain, pump, close and fail,
  Connecting, Connected and Closed are each reported at most once.\<close>

theorem dtls_nested_once:
  assumes "nested dtls_code (s, sts) (s', sts')" "dsh_events s = []"
    and "\<forall>st \<in> set sts. \<forall>p \<in> set (places st). dtls_held t p = 0"
    and "t \<in> {DtlsState_Connecting, DtlsState_Connected, DtlsState_Closed}"
  shows "count_list (dsh_events s') t \<le> 1"
proof -
  have "dtls_held t q = 0" if "dtls_starts q" for q using that by (cases q) auto
  then show ?thesis
    using dtls_turns.nested_spends [OF assms(1), of t] assms(2-)
    by (auto simp: dtls_code_def dtls_free_def split: if_splits)
qed

theorem dtls_nested_once_witness:
  "\<exists>s. nested dtls_code (dtls_shared_new, [[Calling]]) (s, [[Calling]]) \<and>
     dsh_events s = [DtlsState_Connecting, DtlsState_Closed] \<and> count_list (dsh_events s) DtlsState_Closed \<le> 1"
proof -
  let ?s = "dtls_shared_new\<lparr>dsh_started := True, dsh_closed := True, dsh_state := DtlsState_Closed,
    dsh_events := [DtlsState_Connecting, DtlsState_Closed]\<rparr>"
  have run: "nested dtls_code (dtls_shared_new, [[Calling]]) (?s, [[Calling]])"
    by (rule run_moves_nested [where ms = "[Call (Start_load None), Access, Access, Access, Access,
        Call Dtls_close_swap, Access, Access, Access, Return, Return, Return, Access, Access, Return]"])
      (simp add: dtls_code_def dtls_shared_new_def)
  from dtls_nested_once [OF run, of DtlsState_Closed] show ?thesis
    using run by (intro exI [of _ ?s]) (simp add: dtls_shared_new_def)
qed

section \<open>SCTP\<close>

fun sctp_starts :: "sctp_place \<Rightarrow> bool" where
  "sctp_starts Connect_load = True"
| "sctp_starts Sctp_close_swap = True"
| "sctp_starts p = False"

fun sctp_invokes :: "sctp_shared \<Rightarrow> sctp_place \<Rightarrow> bool" where
  "sctp_invokes s Connect_fire = True"
| "sctp_invokes s Sctp_close_fire = True"
| "sctp_invokes s p = False"

definition sctp_code :: "(sctp_shared, sctp_place) code" where
  "sctp_code = \<lparr>code_thread = sctp_thread, code_invokes = sctp_invokes, code_returned = Sctp_returned,
     code_starts = Collect sctp_starts\<rparr>"

text \<open>C22: and for SCTP, where Closed is final without a condition on the other threads.\<close>

theorem sctp_nested_final:
  assumes "nested sctp_code (s, sts) (s', sts')"
  shows "(SctpState_from_u8 (ssh_cell s) = SctpState_Closed \<longrightarrow> SctpState_from_u8 (ssh_cell s') = SctpState_Closed) \<and>
    (ssh_events s = [] \<and> (\<forall>st \<in> set sts. \<forall>p \<in> set (places st). sctp_held t p = 0) \<longrightarrow> count_list (ssh_events s') t \<le> 1)"
proof (intro conjI impI)
  assume "SctpState_from_u8 (ssh_cell s) = SctpState_Closed"
  with sctp_final.nested_keeps [OF assms] show "SctpState_from_u8 (ssh_cell s') = SctpState_Closed"
    by (simp add: sctp_code_def list_all_iff)
next
  have "sctp_held t q = 0" if "sctp_starts q" for q using that by (cases q) auto
  moreover assume "ssh_events s = [] \<and> (\<forall>st \<in> set sts. \<forall>p \<in> set (places st). sctp_held t p = 0)"
  ultimately show "count_list (ssh_events s') t \<le> 1"
    using sctp_turns.nested_spends [OF assms, of t] by (auto simp: sctp_code_def sctp_free_def split: if_splits)
qed

theorem sctp_nested_final_witness:
  "\<exists>s. nested sctp_code (sctp_shared_new, [[Calling]]) (s, [[Calling]]) \<and>
     ssh_events s = [SctpState_Connecting, SctpState_Closed] \<and> count_list (ssh_events s) SctpState_Closed \<le> 1"
proof -
  let ?s = "sctp_shared_new\<lparr>ssh_cell := 4, ssh_closed := True, ssh_started := True,
    ssh_events := [SctpState_Connecting, SctpState_Closed]\<rparr>"
  have run: "nested sctp_code (sctp_shared_new, [[Calling]]) (?s, [[Calling]])"
    by (rule run_moves_nested [where ms = "[Call Connect_load, Access, Access, Access, Access, Access,
        Call Sctp_close_swap, Access, Access, Access, Return, Access, Return, Return, Return]"])
      (simp add: sctp_code_def sctp_shared_new_def)
  from sctp_nested_final [OF run, of SctpState_Closed] show ?thesis
    using run by (intro exI [of _ ?s]) (simp add: sctp_shared_new_def)
qed

end
