(* ===== verification/Stack_Races.thy ===== *)
theory Stack_Races
  imports Nested_Races
begin

text \<open>
  The sequential models of DTLS and SCTP, with the closures of the whole stack below them, as what one thread
  does alone: every run of calls with callbacks at any depth is a run of the places of \<open>dtls_thread\<close> and of
  \<open>sctp_thread\<close>, each entered from the top.
\<close>

section \<open>DTLS\<close>

lemma dtls_code_fields [simp]:
  "code_thread dtls_code = dtls_thread" "code_invokes dtls_code = dtls_invokes" "code_returned dtls_code = Dtls_returned"
  "code_starts dtls_code = Collect dtls_starts"
  by (simp_all add: dtls_code_def)

abbreviation dtls_did :: "('u, 'j, 'd, 'l, 'z) dtls_logged_scheme \<Rightarrow> ('u, 'j, 'd, 'l, 'z) dtls_logged_scheme \<Rightarrow> bool" where
  "dtls_did w w' \<equiv> alone dtls_code (dtls_shared_of w) (dtls_shared_of w')"

abbreviation dtls_does :: "dtls_shared \<Rightarrow> dtls_place \<Rightarrow> dtls_shared \<Rightarrow> bool" where
  "dtls_does \<equiv> alone_at dtls_code"

lemma dtls_step:
  "case dtls_thread s p of Some (s', p') \<Rightarrow> dtls_does s' p' t | None \<Rightarrow> False \<Longrightarrow> \<not> dtls_invokes s p \<Longrightarrow> dtls_does s p t"
  by (auto split: option.splits intro: alone_at_access)

lemma dtls_invoke:
  "case dtls_thread s p of Some (s1, p') \<Rightarrow> alone dtls_code s1 s2 \<and> dtls_does s2 p' t | None \<Rightarrow> False \<Longrightarrow>
   dtls_invokes s p \<Longrightarrow> dtls_does s p t"
  by (auto split: option.splits intro: alone_at_invoke)

lemma dtls_does_return [simp]: "dtls_does s Dtls_returned s"
  using alone_at_return [of dtls_code] by simp

lemma dtls_does_did: "dtls_does (dtls_shared_of w) p (dtls_shared_of w') \<Longrightarrow> dtls_starts p \<Longrightarrow> dtls_did w w'"
  by (rule alone_call) simp_all

lemma dtls_shared_fields [simp]:
  "dtls_shared_of (w\<lparr>dtls_callbacks := ds\<rparr>) = dtls_shared_of w" "dtls_shared_of (w\<lparr>dtls_ssl := l\<rparr>) = dtls_shared_of w"
  "dtls_shared_of (w\<lparr>dtls_expected := fp\<rparr>) = dtls_shared_of w" "dtls_shared_of (w\<lparr>ice_agent := a\<rparr>) = dtls_shared_of w"
  "dtls_shared_of (w\<lparr>ice_role := rl\<rparr>) = dtls_shared_of w" "dtls_shared_of (w\<lparr>ice_state := is\<rparr>) = dtls_shared_of w"
  "dtls_shared_of (w\<lparr>ice_gathering := g\<rparr>) = dtls_shared_of w" "dtls_shared_of (w\<lparr>ice_mid := m\<rparr>) = dtls_shared_of w"
  "dtls_shared_of (w\<lparr>ice_callbacks := cs\<rparr>) = dtls_shared_of w" "dtls_shared_of (w\<lparr>ice_closed := c\<rparr>) = dtls_shared_of w"
  "dtls_shared_of (log_dtls (Ev_ice e) w) = dtls_shared_of w"
  by (simp_all add: dtls_shared_of_def log_dtls_def dtls_states_append dtls_data_append)

lemma dtls_shared_updates [simp]:
  "dtls_shared_of (w\<lparr>dtls_state := s\<rparr>) = (dtls_shared_of w)\<lparr>dsh_state := s\<rparr>"
  "dtls_shared_of (w\<lparr>dtls_closed := b\<rparr>) = (dtls_shared_of w)\<lparr>dsh_closed := b\<rparr>"
  "dtls_shared_of (w\<lparr>dtls_started := b\<rparr>) = (dtls_shared_of w)\<lparr>dsh_started := b\<rparr>"
  "dtls_shared_of (w\<lparr>dtls_handshake_done := b\<rparr>) = (dtls_shared_of w)\<lparr>dsh_done := b\<rparr>"
  "dtls_shared_of (w\<lparr>dtls_locked := b\<rparr>) = (dtls_shared_of w)\<lparr>dsh_locked := b\<rparr>"
  "dtls_shared_of (log_dtls (Ev_dtls_state s) w) = (dtls_shared_of w)\<lparr>dsh_events := dsh_events (dtls_shared_of w) @ [s]\<rparr>"
  "dtls_shared_of (log_dtls (Ev_dtls_data d) w) = (dtls_shared_of w)\<lparr>dsh_data := dsh_data (dtls_shared_of w) @ [d]\<rparr>"
  by (simp_all add: dtls_shared_of_def log_dtls_def dtls_states_append dtls_data_append)

lemma dtls_shared_reads [simp]:
  "dsh_state (dtls_shared_of w) = dtls_state w" "dsh_closed (dtls_shared_of w) = dtls_closed w"
  "dsh_started (dtls_shared_of w) = dtls_started w" "dsh_done (dtls_shared_of w) = dtls_handshake_done w"
  "dsh_locked (dtls_shared_of w) = dtls_locked w"
  by (simp_all add: dtls_shared_of_def)

text \<open>Writing what is there already.\<close>

lemma dtls_same [simp]:
  "dsh_done s \<Longrightarrow> s\<lparr>dsh_done := True\<rparr> = s" "dsh_started s \<Longrightarrow> s\<lparr>dsh_started := True\<rparr> = s"
  "dsh_closed s \<Longrightarrow> s\<lparr>dsh_closed := True\<rparr> = s" "dsh_state s = t \<Longrightarrow> s\<lparr>dsh_state := t\<rparr> = s"
  "\<not> dsh_locked s \<Longrightarrow> s\<lparr>dsh_locked := False\<rparr> = s"
  by simp_all

text \<open>An environment whose callbacks are code of the application.\<close>

definition dtls_calls_did :: "('u, 'j, 'je, 'd, 'l, 'w, 'e, 'h, ('u, 'j, 'd, 'l, 'z) dtls_logged_scheme) dtls_env \<Rightarrow> bool" where
  "dtls_calls_did env \<longleftrightarrow>
     (\<forall>c s w w'. call_dtls_state_change env c s w = Some w' \<longrightarrow> dtls_did (log_dtls (Ev_dtls_state s) w) w') \<and>
     (\<forall>c d w w'. call_dtls_data env c d w = Some w' \<longrightarrow> dtls_did (log_dtls (Ev_dtls_data d) w) w') \<and>
     (\<forall>w0. ice_calls_keep (de_ice env) (dtls_did w0))"

lemma dtls_calls_didD:
  assumes "dtls_calls_did env"
  shows "fire_dtls_state_change env s w = Some w' \<Longrightarrow> dtls_did (log_dtls (Ev_dtls_state s) w) w'"
    "call_dtls_data env c d w = Some w' \<Longrightarrow> dtls_did (log_dtls (Ev_dtls_data d) w) w'"
    "ice_calls_keep (de_ice env) (dtls_did w0)"
  using assms unfolding dtls_calls_did_def fire_dtls_state_change_def by blast+

lemma drain_did:
  assumes "drain_outbound_locked env w = Some (r, w')"
  shows "dtls_shared_of w' = dtls_shared_of w"
  by (rule drain_preserves [OF assms, where Q = "\<lambda>v. dtls_shared_of v = dtls_shared_of w"])
    (simp_all add: IceTransport_send_def split: prod.splits)

lemma drive_does:
  assumes calls: "dtls_calls_did env" and drive: "drive_handshake_locked env w = Some (r, w')"
  obtains hs where "\<And>k t. dtls_does (dtls_shared_of w') (drive_returns k (\<not> isl r)) t \<Longrightarrow> dtls_does (dtls_shared_of w) (Drive hs k) t"
proof -
  obtain ret l where l: "SSL_do_handshake env (verify_callback (de_openssl env) (dtls_expected w)) (dtls_ssl w) = (ret, l)"
    by force
  from drive l obtain q v where v: "drain_outbound_locked env (w\<lparr>dtls_ssl := l\<rparr>) = Some (q, v)"
    by (auto simp: drive_handshake_locked_def Let_def bind_eq_Some_conv)
  have S: "dtls_shared_of v = dtls_shared_of w" using drain_did [OF v] by simp
  then have same: "dtls_handshake_done v = dtls_handshake_done w" by (simp add: dtls_shared_of_def)
  show ?thesis
  proof (cases "\<not> isl q \<and> SSL_get_error env l ret = SSL_ERROR_NONE")
    case True
    show ?thesis
    proof (cases "dtls_handshake_done w")
      case finished: True
      with True drive l v same have "r = Inr ()" "w' = v"
        by (auto simp: drive_handshake_locked_def Let_def split: sum.splits)
      with finished S show ?thesis
        by (intro that [of Hs_done]) (rule dtls_step, simp, rule dtls_step, simp_all)
    next
      case False
      let ?v = "v\<lparr>dtls_handshake_done := True, dtls_ssl := SSL_set_mtu env 4097 (dtls_ssl v), dtls_state := DtlsState_Connected\<rparr>"
      from False True drive l v same have r: "r = Inr ()" "fire_dtls_state_change env DtlsState_Connected ?v = Some w'"
        by (auto simp: drive_handshake_locked_def Let_def bind_eq_Some_conv split: sum.splits)
      from dtls_calls_didD(1) [OF calls r(2)] have "alone dtls_code ((dtls_shared_of w)\<lparr>dsh_done := True, dsh_state := DtlsState_Connected,
          dsh_events := dsh_events (dtls_shared_of w) @ [DtlsState_Connected]\<rparr>) (dtls_shared_of w')"
        by (simp add: S)
      with False r(1) show ?thesis
        by (intro that [of Hs_done])
          (rule dtls_step, simp, rule dtls_step, simp, rule dtls_step, simp, rule dtls_invoke [where ?s2.0 = "dtls_shared_of w'"], simp_all)
    qed
  next
    case False
    with drive l v have "w' = v"
      by (auto simp: drive_handshake_locked_def Let_def split: sum.splits ssl_error.splits)
    with S show ?thesis
      by (intro that [of "if isl r then Hs_failed else Hs_pending"]) (rule dtls_step, auto)
  qed
qed

lemma read_loop_does:
  assumes calls: "dtls_calls_did env" and read: "read_loop env w = Some (z, w')"
  obtains ps where "\<And>t. dtls_does (dtls_shared_of w') (Unlock (if z then Then_close else Then_return)) t \<Longrightarrow>
    dtls_does (dtls_shared_of w) (Pump_deliver ps z) t"
proof -
  let ?Q = "\<lambda>w x. \<exists>ps. \<forall>t. dtls_does (dtls_shared_of (snd x)) (Unlock (if fst x then Then_close else Then_return)) t \<longrightarrow>
    dtls_does (dtls_shared_of w) (Pump_deliver ps (fst x)) t"
  have "env' = env \<longrightarrow> ?Q w x" if "read_loop env' w = Some x" for env' w x
  proof (rule read_loop.raw_induct [where P = "\<lambda>env' w x. env' = env \<longrightarrow> ?Q w x", OF _ that])
    fix loop env' w x
    assume 1: "\<And>env' w x. loop env' w = Some x \<Longrightarrow> env' = env \<longrightarrow> ?Q w x"
      "(case SSL_read env' 4096 (dtls_ssl w) of
          ((ret, buf), l) \<Rightarrow>
            if ret \<le> 0 then
              Some (SSL_get_error env' l ret = SSL_ERROR_ZERO_RETURN, w\<lparr>dtls_ssl := l\<rparr>)
            else
              Option.bind (call_dtls_data env' (dc_on_data (dtls_callbacks w)) buf (w\<lparr>dtls_ssl := l\<rparr>)) (loop env')) = Some x"
    have "?Q w x" if "env' = env"
    proof -
      obtain ret buf l where l: "SSL_read env 4096 (dtls_ssl w) = ((ret, buf), l)" by (metis surj_pair)
      show ?thesis
      proof (cases "ret \<le> 0")
        case True
        with 1(2) l that have "dtls_shared_of (snd x) = dtls_shared_of w" by auto
        then show ?thesis by (intro exI [of _ "[]"]) (auto intro: dtls_step)
      next
        case False
        with 1(2) l that obtain v where v: "call_dtls_data env (dc_on_data (dtls_callbacks w)) buf (w\<lparr>dtls_ssl := l\<rparr>) = Some v"
          "loop env v = Some x" by (auto simp: bind_eq_Some_conv)
        from 1(1) [OF v(2)] obtain ps where ps: "dtls_does (dtls_shared_of (snd x)) (Unlock (if fst x then Then_close else Then_return)) t \<Longrightarrow>
          dtls_does (dtls_shared_of v) (Pump_deliver ps (fst x)) t" for t by blast
        from dtls_calls_didD(2) [OF calls v(1)]
        have "alone dtls_code ((dtls_shared_of w)\<lparr>dsh_data := dsh_data (dtls_shared_of w) @ [buf]\<rparr>) (dtls_shared_of v)"
          by simp
        then show ?thesis
          by (intro exI [of _ "buf # ps"] allI impI dtls_invoke [where ?s2.0 = "dtls_shared_of v"]) (simp_all add: ps)
      qed
    qed
    then show "env' = env \<longrightarrow> ?Q w x" by blast
  qed
  from this [OF read] that show ?thesis by (auto; blast)
qed

lemma fail_does:
  assumes calls: "dtls_calls_did env" and fail: "fail_transport env w = Some w'"
  shows "dtls_does (dtls_shared_of w) Dtls_fail_write (dtls_shared_of w')"
proof (cases "dtls_state w \<in> {DtlsState_Failed, DtlsState_Closed}")
  case True
  with fail show ?thesis by (intro dtls_step) (auto simp: fail_transport_def)
next
  case False
  let ?v = "w\<lparr>dtls_state := DtlsState_Failed\<rparr>"
  from False fail have "fire_dtls_state_change env DtlsState_Failed ?v = Some w'" by (simp add: fail_transport_def)
  from dtls_calls_didD(1) [OF calls this] False show ?thesis
    by (intro dtls_step) (auto intro!: dtls_invoke [where ?s2.0 = "dtls_shared_of w'"])
qed

lemma close_does:
  assumes calls: "dtls_calls_did env" and close: "DtlsTransport_close env w = Some (r, w')"
  shows "dtls_does (dtls_shared_of w) Dtls_close_swap (dtls_shared_of w')"
proof (cases "dtls_closed w \<or> dtls_state w = DtlsState_Closed")
  case True
  with close show ?thesis
    by (auto simp: DtlsTransport_close_def Let_def split: if_splits intro!: dtls_step)
next
  case False
  let ?v = "w\<lparr>dtls_closed := True, dtls_state := DtlsState_Closed\<rparr>"
  from False close have "fire_dtls_state_change env DtlsState_Closed ?v = Some w'"
    by (auto simp: DtlsTransport_close_def Let_def bind_eq_Some_conv)
  from dtls_calls_didD(1) [OF calls this] False show ?thesis
    by (intro dtls_step, simp_all, intro dtls_step) (auto intro!: dtls_invoke [where ?s2.0 = "dtls_shared_of w'"])
qed

lemma unlock_shared [simp]: "dtls_shared_of (unlock_inner w) = (dtls_shared_of w)\<lparr>dsh_locked := False\<rparr>"
  by (simp add: unlock_inner_def)

lemma pump_read_does:
  assumes calls: "dtls_calls_did env"
    and rest: "(if dtls_state w = DtlsState_Connected then
        Option.bind (read_loop env w) (\<lambda>(zero_return, w).
          if zero_return then map_option snd (bridge_close env (unlock_inner w)) else Some (unlock_inner w))
      else Some (unlock_inner w)) = Some w'"
  obtains ps z where "dtls_does (dtls_shared_of w) (Pump_read ps z) (dtls_shared_of w')"
proof (cases "dtls_state w = DtlsState_Connected")
  case True
  with rest obtain z v where v: "read_loop env w = Some (z, v)"
    "(if z then map_option snd (bridge_close env (unlock_inner v)) else Some (unlock_inner v)) = Some w'"
    by (auto simp: bind_eq_Some_conv)
  obtain ps where ps: "dtls_does (dtls_shared_of v) (Unlock (if z then Then_close else Then_return)) t \<Longrightarrow>
    dtls_does (dtls_shared_of w) (Pump_deliver ps z) t" for t
    using read_loop_does [OF calls v(1)] by blast
  have "dtls_does (dtls_shared_of v) (Unlock (if z then Then_close else Then_return)) (dtls_shared_of w')"
  proof (cases z)
    case True
    with v(2) obtain r where "DtlsTransport_close env (unlock_inner v) = Some (r, w')" by (auto simp: bridge_close_eq)
    from close_does [OF calls this] True show ?thesis by (intro dtls_step) simp_all
  next
    case False
    with v(2) show ?thesis by (intro dtls_step) auto
  qed
  with ps True show ?thesis by (intro that [of ps z] dtls_step) simp_all
next
  case False
  with rest have "dtls_does (dtls_shared_of w) (Pump_read [] False) (dtls_shared_of w')"
    by (intro dtls_step) (auto intro!: dtls_step)
  then show ?thesis by (rule that)
qed

lemma pump_did:
  assumes calls: "dtls_calls_did env" and pump: "pump_inbound env data w = Some w'"
  shows "dtls_did w w'"
proof (cases "dtls_closed w")
  case True
  with pump show ?thesis by (simp add: pump_inbound_def)
next
  case False
  obtain wr l where l: "BIO_write_in env data (dtls_ssl w) = (wr, l)" by force
  let ?w = "w\<lparr>dtls_locked := True, dtls_ssl := l\<rparr>"
  from pump False have lock: "\<not> dtls_locked w" by (auto simp: pump_inbound_def lock_inner_def split: if_splits)
  have entered: "dtls_did w w'" if "dtls_does (dtls_shared_of ?w) (Pump_check hs ps z) (dtls_shared_of w')" for hs ps z
    by (rule dtls_does_did [where p = "Pump_load (Some hs) ps z"], rule dtls_step, simp_all add: False, rule dtls_step)
      (use that lock in simp_all)
  show ?thesis
  proof (cases "wr < 0")
    case True
    with pump False l lock have "w' = unlock_inner ?w" by (simp add: pump_inbound_def lock_inner_def)
    with lock show ?thesis by simp
  next
    case written: False
    with pump False l lock obtain r v where
      v: "(if dtls_state w = DtlsState_Connecting then drive_handshake_locked env ?w else Some (Inr (), ?w)) = Some (r, v)"
      and rest: "(case r of Inl e \<Rightarrow> fail_transport env (unlock_inner v)
        | Inr u \<Rightarrow> if dtls_state v = DtlsState_Connected
            then Option.bind (read_loop env v) (\<lambda>(zero_return, w).
              if zero_return then map_option snd (bridge_close env (unlock_inner w)) else Some (unlock_inner w))
            else Some (unlock_inner v)) = Some w'"
      by (auto simp: pump_inbound_def lock_inner_def Let_def bind_eq_Some_conv)
    show ?thesis
    proof (cases "dtls_state w = DtlsState_Connecting")
      case True
      then obtain hs where hs: "dtls_does (dtls_shared_of v) (drive_returns k (\<not> isl r)) t \<Longrightarrow> dtls_does (dtls_shared_of ?w) (Drive hs k) t" for k t
        using drive_does [OF calls, of ?w r v] v by (metis (full_types))
      have drives: "dtls_does (dtls_shared_of ?w) (Pump_check hs ps z) (dtls_shared_of w')"
        if "dtls_does (dtls_shared_of v) (drive_returns (After_pump ps z) (\<not> isl r)) (dtls_shared_of w')" for ps z
        by (rule dtls_step) (use hs [OF that] True in simp_all)
      show ?thesis
      proof (cases r)
        case (Inl e)
        with rest have "fail_transport env (unlock_inner v) = Some w'" by simp
        from fail_does [OF calls this] have "dtls_does (dtls_shared_of v) (Unlock Then_fail) (dtls_shared_of w')"
          by (intro dtls_step) simp_all
        with entered [OF drives, of "[]" False] Inl show ?thesis by simp
      next
        case (Inr u)
        with rest obtain ps z where "dtls_does (dtls_shared_of v) (Pump_read ps z) (dtls_shared_of w')"
          using pump_read_does [OF calls, of v w'] by auto
        with entered [OF drives, of ps z] Inr show ?thesis by simp
      qed
    next
      case False
      with v rest have "v = ?w" "r = Inr ()" by auto
      with rest obtain ps z where "dtls_does (dtls_shared_of ?w) (Pump_read ps z) (dtls_shared_of w')"
        using pump_read_does [OF calls, of v w'] by auto
      with False show ?thesis by (intro entered [of Hs_pending ps z] dtls_step) simp_all
    qed
  qed
qed

lemma start_did:
  assumes calls: "dtls_calls_did env" and start: "DtlsTransport_start env w = Some (r, w')"
  shows "dtls_did w w'"
proof (cases "\<not> dtls_closed w \<and> \<not> dtls_started w \<and> dtls_state w = DtlsState_New")
  case True
  let ?w = "w\<lparr>dtls_started := True, dtls_state := DtlsState_Connecting\<rparr>"
  from True start obtain v where v: "fire_dtls_state_change env DtlsState_Connecting ?w = Some v"
    by (auto simp: DtlsTransport_start_def Let_def bind_eq_Some_conv)
  let ?prev = "ice_callbacks v"
  let ?v = "IceTransport_set_callbacks
    (?prev\<lparr>on_state_change := DtlsStateHook (on_state_change ?prev), on_data := DtlsPump\<rparr>) v"
  define u where "u = ?v\<lparr>dtls_locked := True, dtls_ssl := SSL_set_mtu env (DEFAULT_MTU - 48) (dtls_ssl ?v)\<rparr>"
  from start True v have lock: "\<not> dtls_locked v"
    by (auto simp: DtlsTransport_start_def Let_def lock_inner_def IceTransport_set_callbacks_def split: if_splits)
  have rest: "(if dtls_is_client u then
      Option.bind (drive_handshake_locked env u) (\<lambda>(r, w).
        case r of
          Inl (DtlsTransportError_Ice e) \<Rightarrow> Some (Inr (), unlock_inner w)
        | Inl other \<Rightarrow> Some (Inl other, unlock_inner w)
        | Inr u \<Rightarrow> Some (Inr (), unlock_inner w))
      else Some (Inr (), unlock_inner u)) = Some (r, w')"
    using True start v by (simp add: DtlsTransport_start_def lock_inner_def Let_def u_def split: if_split_asm)
  have S: "dtls_shared_of u = (dtls_shared_of v)\<lparr>dsh_locked := True\<rparr>" by (simp add: u_def IceTransport_set_callbacks_def)
  have "\<exists>h. dtls_does (dtls_shared_of u) (case h of None \<Rightarrow> Unlock Then_return | Some hs \<Rightarrow> Drive hs After_start) (dtls_shared_of w')"
  proof (cases "dtls_is_client u")
    case True
    with rest obtain q x where x: "drive_handshake_locked env u = Some (q, x)" "w' = unlock_inner x"
      by (cases "drive_handshake_locked env u") (auto split: sum.split_asm dtls_error.split_asm)
    obtain hs where hs: "dtls_does (dtls_shared_of x) (drive_returns k (\<not> isl q)) t \<Longrightarrow> dtls_does (dtls_shared_of u) (Drive hs k) t" for k t
      using drive_does [OF calls x(1)] by (metis (full_types))
    from x(2) have "dtls_does (dtls_shared_of x) (drive_returns After_start (\<not> isl q)) (dtls_shared_of w')"
      by (simp, intro dtls_step) simp_all
    from hs [OF this] show ?thesis by (intro exI [of _ "Some hs"]) simp
  next
    case False
    with rest have "dtls_does (dtls_shared_of u) (Unlock Then_return) (dtls_shared_of w')" by (intro dtls_step) auto
    then show ?thesis by (intro exI [of _ None]) simp
  qed
  then obtain h where h: "dtls_does (dtls_shared_of u) (case h of None \<Rightarrow> Unlock Then_return | Some hs \<Rightarrow> Drive hs After_start) (dtls_shared_of w')"
    by blast
  have locked: "dtls_does (dtls_shared_of v) (Start_lock h) (dtls_shared_of w')"
    by (rule dtls_step) (use h lock S in simp_all)
  have fired: "alone dtls_code ((dtls_shared_of w)\<lparr>dsh_started := True, dsh_state := DtlsState_Connecting,
      dsh_events := dsh_events (dtls_shared_of w) @ [DtlsState_Connecting]\<rparr>) (dtls_shared_of v)"
    using dtls_calls_didD(1) [OF calls v] by simp
  have "dtls_does ((dtls_shared_of w)\<lparr>dsh_started := True, dsh_state := DtlsState_Connecting\<rparr>) (Start_fire h) (dtls_shared_of w')"
    by (rule dtls_invoke [where ?s2.0 = "dtls_shared_of v"]) (use fired locked in simp_all)
  with True have "dtls_does ((dtls_shared_of w)\<lparr>dsh_started := True\<rparr>) (Start_write h) (dtls_shared_of w')"
    by (intro dtls_step) simp_all
  with True have "dtls_does (dtls_shared_of w) (Start_swap h) (dtls_shared_of w')" by (intro dtls_step) simp_all
  with True have "dtls_does (dtls_shared_of w) (Start_load h) (dtls_shared_of w')" by (intro dtls_step) simp_all
  then show ?thesis by (rule dtls_does_did) simp
next
  case False
  with start show ?thesis
    by (intro dtls_does_did [where p = "Start_load None"])
      (auto simp: DtlsTransport_start_def Let_def split: if_splits intro!: dtls_step)
qed

lemma send_did:
  assumes "DtlsTransport_send env data w = Some (r, w')"
  shows "dtls_shared_of w' = dtls_shared_of w"
  using assms
  by (auto simp: DtlsTransport_send_def lock_inner_def Let_def bind_eq_Some_conv split: if_splits prod.splits dest!: drain_did)

text \<open>What the whole stack keeps, from any starting point.\<close>

lemma dtls_did_operations:
  assumes "dtls_calls_did env"
  shows "dtls_operations (dtls_did w0) env UNIV"
proof unfold_locales
  fix w v q v'
  assume "lock_inner w = Some v" "drain_outbound_locked env v = Some (q, v')" "dtls_did w0 w"
  moreover from this have "dtls_shared_of (unlock_inner v') = dtls_shared_of w"
    by (auto simp: lock_inner_def drain_did split: if_splits)
  ultimately show "dtls_did w0 (unlock_inner v')" by simp
next
  fix data w r w'
  assume "DtlsTransport_send env data w = Some (r, w')" "dtls_did w0 w"
  with send_did [of env data w r w'] show "dtls_did w0 w'" by simp
next
  fix w r w'
  assume "DtlsTransport_close env w = Some (r, w')" "dtls_did w0 w"
  with dtls_does_did [OF close_does [OF assms]] show "dtls_did w0 w'" by (auto intro: alone_trans)
next
  fix w w'
  assume "fail_transport env w = Some w'" "dtls_did w0 w"
  with dtls_does_did [OF fail_does [OF assms]] show "dtls_did w0 w'" by (auto intro: alone_trans)
qed (auto intro: alone_trans start_did [OF assms] pump_did [OF assms] dtls_calls_didD(3) [OF assms])

lemma scripted_dtls_did: "dtls_calls_did (scripted_dtls log_dtls script env n)"
proof (induction n)
  case (Suc n)
  have runs: "dtls_did w0 w'" if "run_all (run_dtls (scripted_dtls log_dtls script env n)) ops w = Some w'" "dtls_did w0 w" for ops w0 w w'
    using dtls_operations.run_all_keeps [OF dtls_did_operations [OF Suc] that(1) _ that(2)] by simp
  show ?case
    unfolding dtls_calls_did_def ice_calls_keep_def
    by (auto simp: scripted_dtls.simps run_script_def Let_def simp del: dtls_shared_updates elim!: runs)
qed (simp add: scripted_dtls.simps(1) dtls_calls_did_def ice_calls_keep_def)

text \<open>C16: the sequential model of DTLS is the concurrent one with a single thread: whatever is called, fed and
  scripted, with the closures on ICE and callbacks at any depth, each run enters its operations at the top and goes
  through their accesses to the end, lock included, with the same state, flags, events and data.\<close>

theorem dtls_runs_refine:
  assumes "run_all (run_dtls (scripted_dtls log_dtls script env n)) ops w = Some w'"
  shows "nested dtls_code (dtls_shared_of w, [[Calling]]) (dtls_shared_of w', [[Calling]])"
  using dtls_operations.run_all_keeps [OF dtls_did_operations [OF scripted_dtls_did] assms _ alone_refl]
  by (simp add: alone_def)

theorem dtls_runs_refine_witness:
  "\<exists>w. run_all (run_dtls (scripted_dtls log_dtls (\<lambda>_ _ _. []) toy_env (Suc 0))) toy_ops (toy_world True True) = Some w \<and>
     dtls_state w = DtlsState_Connected \<and>
     nested dtls_code (dtls_shared_of (toy_world True True), [[Calling]]) (dtls_shared_of w, [[Calling]])"
  using toy_run dtls_runs_refine by blast

section \<open>SCTP\<close>

lemma sctp_code_fields [simp]:
  "code_thread sctp_code = sctp_thread" "code_invokes sctp_code = sctp_invokes" "code_returned sctp_code = Sctp_returned"
  "code_starts sctp_code = Collect sctp_starts"
  by (simp_all add: sctp_code_def)

abbreviation sctp_did :: "('u, 'j, 'v, 'l, 'k, 'z) sctp_logged_scheme \<Rightarrow> ('u, 'j, 'v, 'l, 'k, 'z) sctp_logged_scheme \<Rightarrow> bool" where
  "sctp_did w w' \<equiv> alone sctp_code (sctp_shared_of w) (sctp_shared_of w')"

abbreviation sctp_does :: "sctp_shared \<Rightarrow> sctp_place \<Rightarrow> sctp_shared \<Rightarrow> bool" where
  "sctp_does \<equiv> alone_at sctp_code"

lemma sctp_step:
  "case sctp_thread s p of Some (s', p') \<Rightarrow> sctp_does s' p' t | None \<Rightarrow> False \<Longrightarrow> \<not> sctp_invokes s p \<Longrightarrow> sctp_does s p t"
  by (auto split: option.splits intro: alone_at_access)

lemma sctp_invoke:
  "case sctp_thread s p of Some (s1, p') \<Rightarrow> alone sctp_code s1 s2 \<and> sctp_does s2 p' t | None \<Rightarrow> False \<Longrightarrow>
   sctp_invokes s p \<Longrightarrow> sctp_does s p t"
  by (auto split: option.splits intro: alone_at_invoke)

lemma sctp_does_return [simp]: "sctp_does s Sctp_returned s"
  using alone_at_return [of sctp_code] by simp

lemma sctp_shared_fields [simp]:
  "sctp_shared_of (w\<lparr>ice_agent := j\<rparr>) = sctp_shared_of w" "sctp_shared_of (w\<lparr>ice_role := rl\<rparr>) = sctp_shared_of w"
  "sctp_shared_of (w\<lparr>ice_state := is\<rparr>) = sctp_shared_of w" "sctp_shared_of (w\<lparr>ice_gathering := g\<rparr>) = sctp_shared_of w"
  "sctp_shared_of (w\<lparr>ice_mid := m\<rparr>) = sctp_shared_of w" "sctp_shared_of (w\<lparr>ice_callbacks := ics\<rparr>) = sctp_shared_of w"
  "sctp_shared_of (w\<lparr>ice_closed := c\<rparr>) = sctp_shared_of w" "sctp_shared_of (w\<lparr>dtls_ssl := l\<rparr>) = sctp_shared_of w"
  "sctp_shared_of (w\<lparr>dtls_handshake_done := c\<rparr>) = sctp_shared_of w" "sctp_shared_of (w\<lparr>dtls_locked := c\<rparr>) = sctp_shared_of w"
  "sctp_shared_of (w\<lparr>dtls_state := ds\<rparr>) = sctp_shared_of w" "sctp_shared_of (w\<lparr>dtls_callbacks := dcs\<rparr>) = sctp_shared_of w"
  "sctp_shared_of (w\<lparr>dtls_closed := c\<rparr>) = sctp_shared_of w" "sctp_shared_of (w\<lparr>dtls_expected := fp\<rparr>) = sctp_shared_of w"
  "sctp_shared_of (w\<lparr>dtls_started := c\<rparr>) = sctp_shared_of w" "sctp_shared_of (w\<lparr>sctp_callbacks := cs\<rparr>) = sctp_shared_of w"
  "sctp_shared_of (w\<lparr>sctp_alive := c\<rparr>) = sctp_shared_of w" "sctp_shared_of (log_sctp (Ev_dtls e) w) = sctp_shared_of w"
  by (simp_all add: sctp_shared_of_def log_sctp_def sctp_states_append)

definition sctp_calls_did ::
    "('u, 'j, 'je, 'v, 'l, 'w, 'e, 'h, 'k, ('u, 'j, 'v, 'l, 'k, 'z) sctp_logged_scheme) sctp_env \<Rightarrow> bool" where
  "sctp_calls_did env \<longleftrightarrow>
     (\<forall>k s w w'. call_sctp_state_change env k s w = Some w' \<longrightarrow> sctp_did (log_sctp (Ev_sctp s) w) w') \<and>
     (\<forall>w0. ice_calls_keep (de_ice (se_dtls env)) (sctp_did w0) \<and>
       (\<forall>d s w w'. call_dtls_state_change (se_dtls env) d s w = Some w' \<longrightarrow> sctp_did w0 w \<longrightarrow> sctp_did w0 w') \<and>
       (\<forall>d data w w'. call_dtls_data (se_dtls env) d data w = Some w' \<longrightarrow> sctp_did w0 w \<longrightarrow> sctp_did w0 w'))"

lemma sctp_calls_didD:
  assumes "sctp_calls_did env"
  shows "fire_sctp_state_change env s w = Some w' \<Longrightarrow> sctp_did (log_sctp (Ev_sctp s) w) w'"
    "ice_calls_keep (de_ice (se_dtls env)) (sctp_did w0)"
    "call_dtls_state_change (se_dtls env) d ds w = Some w' \<Longrightarrow> sctp_did w0 w \<Longrightarrow> sctp_did w0 w'"
    "call_dtls_data (se_dtls env) d data w = Some w' \<Longrightarrow> sctp_did w0 w \<Longrightarrow> sctp_did w0 w'"
  using assms unfolding sctp_calls_did_def fire_sctp_state_change_def by blast+

lemmas sctp_shared_simps = sctp_shared_of_def log_sctp_def sctp_states_append

lemma connect_did:
  assumes calls: "sctp_calls_did env" and connect: "SctpTransport_connect env w = Some w'"
  shows "sctp_did w w'"
proof (rule alone_call [where q = Connect_load])
  show "sctp_does (sctp_shared_of w) Connect_load (sctp_shared_of w')"
  proof (cases "\<not> sctp_closed w \<and> \<not> sctp_started w \<and> sctp_cell w = SctpState_as_u8 SctpState_New")
    case True
    let ?v = "w\<lparr>sctp_started := True, sctp_cell := SctpState_as_u8 SctpState_Connecting, sctp_associated := True\<rparr>"
    from True connect have "fire_sctp_state_change env SctpState_Connecting ?v = Some w'"
      by (simp add: SctpTransport_connect_def Let_def)
    from sctp_calls_didD(1) [OF calls this] have "sctp_does (sctp_shared_of ?v) Connect_fire (sctp_shared_of w')"
      by (intro sctp_invoke [where ?s2.0 = "sctp_shared_of w'"]) (simp_all add: sctp_shared_simps)
    with True have "sctp_does (sctp_shared_of (w\<lparr>sctp_started := True\<rparr>)) Connect_exchange (sctp_shared_of w')"
      by (intro sctp_step, simp add: sctp_shared_simps, intro sctp_step) (simp_all add: sctp_shared_simps)
    with True show ?thesis
      by (intro sctp_step, simp add: sctp_shared_simps, intro sctp_step) (simp_all add: sctp_shared_simps)
  next
    case False
    with connect show ?thesis
      by (auto simp: SctpTransport_connect_def Let_def sctp_shared_simps simp del: SctpState_as_u8.simps split: if_splits
          intro!: sctp_step)
  qed
qed simp

lemma sctp_close_did:
  assumes calls: "sctp_calls_did env" and close: "SctpTransport_close env w = Some (r, w')"
  shows "sctp_did w w'"
proof (rule alone_call [where q = Sctp_close_swap])
  show "sctp_does (sctp_shared_of w) Sctp_close_swap (sctp_shared_of w')"
  proof (cases "sctp_closed w")
    case True
    with close show ?thesis by (intro sctp_step) (auto simp: SctpTransport_close_def Let_def sctp_shared_simps)
  next
    case False
    let ?v = "w\<lparr>sctp_closed := True, sctp_cell := SctpState_as_u8 SctpState_Closed\<rparr>"
    let ?p = "if sctp_cell w \<noteq> SctpState_as_u8 SctpState_Closed then Sctp_close_fire else Sctp_close_clear"
    from False close obtain v where w': "w' = v\<lparr>sctp_associated := False\<rparr>"
      and v: "(if sctp_cell w \<noteq> SctpState_as_u8 SctpState_Closed then fire_sctp_state_change env SctpState_Closed ?v else Some ?v) = Some v"
      by (auto simp: SctpTransport_close_def Let_def bind_eq_Some_conv simp del: SctpState_as_u8.simps)
    have clear: "sctp_does (sctp_shared_of v) Sctp_close_clear (sctp_shared_of w')"
      by (intro sctp_step) (simp_all add: w' sctp_shared_of_def)
    have "sctp_does (sctp_shared_of ?v) ?p (sctp_shared_of w')"
    proof (cases "sctp_cell w = SctpState_as_u8 SctpState_Closed")
      case True
      with v clear show ?thesis by simp
    next
      case False
      with v have "fire_sctp_state_change env SctpState_Closed ?v = Some v" by simp
      from sctp_calls_didD(1) [OF calls this] clear False show ?thesis
        by (simp del: SctpState_as_u8.simps, intro sctp_invoke [where ?s2.0 = "sctp_shared_of v"])
          (simp_all add: sctp_shared_simps)
    qed
    with False show ?thesis
      by (intro sctp_step, simp add: sctp_shared_simps del: SctpState_as_u8.simps, intro sctp_step)
        (simp_all add: sctp_shared_simps del: SctpState_as_u8.simps)
  qed
qed simp

lemma sctp_did_operations:
  assumes "sctp_calls_did env"
  shows "sctp_operations (sctp_did w0) env"
  by unfold_locales
    (auto intro: alone_trans connect_did [OF assms] sctp_close_did [OF assms] sctp_calls_didD(2-4) [OF assms])

lemma scripted_sctp_did: "sctp_calls_did (scripted_sctp script env n)"
proof (induction n)
  case (Suc n)
  note runs = sctp_operations.run_all_keeps [OF sctp_did_operations [OF Suc]]
  show ?case
    unfolding sctp_calls_did_def ice_calls_keep_def by (auto simp: Let_def elim!: runs)
qed (simp add: sctp_calls_did_def ice_calls_keep_def)

text \<open>C17: and so is the association of the whole stack: each run of calls on SCTP, DTLS, ICE and the agent, with the
  closures between the layers and callbacks at any depth, is a run of one thread that connects and closes.\<close>

theorem sctp_runs_refine:
  assumes "run_all (run_sctp (scripted_sctp script env n)) ops w = Some w'"
  shows "nested sctp_code (sctp_shared_of w, [[Calling]]) (sctp_shared_of w', [[Calling]])"
  using sctp_operations.run_all_keeps [OF sctp_did_operations [OF scripted_sctp_did] assms alone_refl]
  by (simp add: alone_def)

theorem sctp_runs_refine_witness:
  "\<exists>w. run_all (run_sctp (scripted_sctp (\<lambda>_ _ _. []) toy_stack_env (Suc 0))) [Sctp_connect, Sctp_close] toy_stack = Some w \<and>
     sctp_closed w \<and> nested sctp_code (sctp_shared_of toy_stack, [[Calling]]) (sctp_shared_of w, [[Calling]])"
proof -
  obtain w where w: "run_all (run_sctp (scripted_sctp (\<lambda>_ _ _. []) toy_stack_env (Suc 0))) [Sctp_connect, Sctp_close] toy_stack = Some w"
    "sctp_closed w"
    using toy_stack_fresh
    by (simp add: SctpTransport_connect_def SctpTransport_close_def fire_sctp_state_change_def Let_def log_sctp_def sctp_fresh_def
        del: scripted_sctp.simps)
  with sctp_runs_refine [OF w(1)] show ?thesis by blast
qed

end
