(* ===== verification/Unit_Tests.thy ===== *)
theory Unit_Tests
  imports Rust_Num "HOL-Library.Code_Target_Numeral"
begin

text \<open>
  What the unit tests of the sources are written with. A test is a boolean that is the conjunction of its
  assertions; where the test would panic, it is false.
\<close>

definition unwrap_then :: "'e + 'a \<Rightarrow> ('a \<Rightarrow> bool) \<Rightarrow> bool" where
  "unwrap_then r P = (case r of Inl e \<Rightarrow> False | Inr x \<Rightarrow> P x)"

definition unwrap_err_then :: "'e + 'a \<Rightarrow> ('e \<Rightarrow> bool) \<Rightarrow> bool" where
  "unwrap_err_then r P = (case r of Inl e \<Rightarrow> P e | Inr x \<Rightarrow> False)"

definition expect_then :: "'a option \<Rightarrow> ('a \<Rightarrow> bool) \<Rightarrow> bool" where
  "expect_then r P = (case r of None \<Rightarrow> False | Some x \<Rightarrow> P x)"

text \<open>
  Decimal digits for evaluation: from the bits of the number, least significant digit first, in place
  of repeated division.
\<close>

datatype digit = D0 | D1 | D2 | D3 | D4 | D5 | D6 | D7 | D8 | D9

fun digit_val :: "digit \<Rightarrow> nat" where
  "digit_val D0 = 0"
| "digit_val D1 = 1"
| "digit_val D2 = 2"
| "digit_val D3 = 3"
| "digit_val D4 = 4"
| "digit_val D5 = 5"
| "digit_val D6 = 6"
| "digit_val D7 = 7"
| "digit_val D8 = 8"
| "digit_val D9 = 9"

fun digit_text :: "digit \<Rightarrow> char" where
  "digit_text D0 = CHR ''0''"
| "digit_text D1 = CHR ''1''"
| "digit_text D2 = CHR ''2''"
| "digit_text D3 = CHR ''3''"
| "digit_text D4 = CHR ''4''"
| "digit_text D5 = CHR ''5''"
| "digit_text D6 = CHR ''6''"
| "digit_text D7 = CHR ''7''"
| "digit_text D8 = CHR ''8''"
| "digit_text D9 = CHR ''9''"

fun double_digit :: "digit \<Rightarrow> bool \<Rightarrow> digit \<times> bool" where
  "double_digit D0 False = (D0, False)"
| "double_digit D0 True = (D1, False)"
| "double_digit D1 False = (D2, False)"
| "double_digit D1 True = (D3, False)"
| "double_digit D2 False = (D4, False)"
| "double_digit D2 True = (D5, False)"
| "double_digit D3 False = (D6, False)"
| "double_digit D3 True = (D7, False)"
| "double_digit D4 False = (D8, False)"
| "double_digit D4 True = (D9, False)"
| "double_digit D5 False = (D0, True)"
| "double_digit D5 True = (D1, True)"
| "double_digit D6 False = (D2, True)"
| "double_digit D6 True = (D3, True)"
| "double_digit D7 False = (D4, True)"
| "double_digit D7 True = (D5, True)"
| "double_digit D8 False = (D6, True)"
| "double_digit D8 True = (D7, True)"
| "double_digit D9 False = (D8, True)"
| "double_digit D9 True = (D9, True)"

fun double_digits :: "bool \<Rightarrow> digit list \<Rightarrow> digit list" where
  "double_digits c [] = (if c then [D1] else [])"
| "double_digits c (d # ds) = (case double_digit d c of (v, c') \<Rightarrow> v # double_digits c' ds)"

primrec num_digits :: "num \<Rightarrow> digit list" where
  "num_digits num.One = [D1]"
| "num_digits (num.Bit0 k) = double_digits False (num_digits k)"
| "num_digits (num.Bit1 k) = double_digits True (num_digits k)"

fun digits_val :: "digit list \<Rightarrow> nat" where
  "digits_val [] = 0"
| "digits_val (d # ds) = digit_val d + 10 * digits_val ds"

lemma double_digit_val:
  "double_digit d c = (v, c') \<Longrightarrow> digit_val v + (if c' then 10 else 0) = 2 * digit_val d + (if c then 1 else 0)"
  by (cases d; cases c) auto

lemma double_digits_val: "digits_val (double_digits c ds) = 2 * digits_val ds + (if c then 1 else 0)"
  by (induction ds arbitrary: c) (auto split: prod.split dest!: double_digit_val split: if_splits)

lemma double_digits_last:
  "ds \<noteq> [] \<Longrightarrow> last ds \<noteq> D0 \<Longrightarrow> double_digits c ds \<noteq> [] \<and> last (double_digits c ds) \<noteq> D0"
proof (induction ds arbitrary: c)
  case (Cons d ds)
  then show ?case by (cases "ds = []"; cases d; cases c) auto
qed simp

lemma num_digits_val: "digits_val (num_digits k) = numeral k"
  by (induction k) (simp_all add: double_digits_val numeral_Bit0 numeral_Bit1)

lemma num_digits_last: "num_digits k \<noteq> [] \<and> last (num_digits k) \<noteq> D0"
  by (induction k) (simp_all add: double_digits_last)

lemma digit_val_small: "digit_val d < 10"
  by (cases d) simp_all

lemma digit_char_val: "digit_char (digit_val d) = digit_text d"
  by (cases d) (simp_all only: digit_val.simps digit_text.simps, code_simp+)

lemma digits_pos: "ds \<noteq> [] \<Longrightarrow> last ds \<noteq> D0 \<Longrightarrow> 0 < digits_val ds"
proof (induction ds)
  case (Cons d ds)
  then show ?case by (cases "ds = []"; cases d) auto
qed simp

lemma dec_str_digits:
  "ds \<noteq> [] \<Longrightarrow> last ds \<noteq> D0 \<Longrightarrow> dec_str (digits_val ds) = map digit_text (rev ds)"
proof (induction ds)
  case (Cons d ds)
  show ?case
  proof (cases "ds = []")
    case True
    then show ?thesis using digit_val_small [of d] by (simp add: dec_str_def radix_str.simps digit_char_val)
  next
    case False
    with Cons.prems have "last ds \<noteq> D0" "0 < digits_val ds" by (simp_all add: digits_pos)
    with False Cons.IH show ?thesis
      using digit_val_small [of d]
      by (subst dec_str_def, subst radix_str.simps) (simp add: dec_str_def digit_char_val)
  qed
qed simp

definition integer_dec :: "integer \<Rightarrow> str" where
  "integer_dec i = dec_str (nat_of_integer i)"

lemma integer_dec_code [code]:
  "integer_dec 0 = ''0''"
  "integer_dec (Code_Numeral.Pos k) = map digit_text (rev (num_digits k))"
  "integer_dec (Code_Numeral.Neg k) = ''0''"
proof -
  have "digit_char 0 = CHR ''0''" by code_simp
  then have zero: "dec_str 0 = ''0''" by (simp add: dec_str_def radix_str.simps)
  then show "integer_dec 0 = ''0''" "integer_dec (Code_Numeral.Neg k) = ''0''"
    by (simp_all add: integer_dec_def nat_of_integer_def)
  have "nat_of_integer (Code_Numeral.Pos k) = numeral k" by simp
  with dec_str_digits [of "num_digits k"] num_digits_last [of k] num_digits_val [of k]
  show "integer_dec (Code_Numeral.Pos k) = map digit_text (rev (num_digits k))"
    by (simp add: integer_dec_def)
qed

lemma dec_str_code [code]: "dec_str n = integer_dec (integer_of_nat n)"
  by (simp add: integer_dec_def)

text \<open>\<open>str::starts_with\<close> and \<open>str::replace\<close>, for a pattern that is not empty; the number counts the characters of a
  match still to be skipped. A multi-line literal is given by its lines.\<close>

definition str_starts_with :: "str \<Rightarrow> str \<Rightarrow> bool" where
  "str_starts_with s pat \<longleftrightarrow> strip_pre pat s \<noteq> None"

fun str_replace_from :: "nat \<Rightarrow> str \<Rightarrow> str \<Rightarrow> str \<Rightarrow> str" where
  "str_replace_from k [] pat rep = []"
| "str_replace_from (Suc k) (c # cs) pat rep = str_replace_from k cs pat rep"
| "str_replace_from 0 (c # cs) pat rep =
     (if strip_pre pat (c # cs) \<noteq> None then rep @ str_replace_from (length pat - 1) cs pat rep
      else c # str_replace_from 0 cs pat rep)"

definition str_replace :: "str \<Rightarrow> str \<Rightarrow> str \<Rightarrow> str" where
  "str_replace s pat rep = str_replace_from 0 s pat rep"

definition crlf_lines :: "str list \<Rightarrow> str" where
  "crlf_lines ls = concat (map (\<lambda>l. l @ crlf) ls)"

end
