(* ===== verification/Candidate_Tests.thy ===== *)
theory Candidate_Tests
  imports Unit_Tests Candidate
begin

text \<open>
  The unit tests of \<open>src/candidate.rs\<close>, run on the model.
\<close>

definition candidate_parse_host_udp_ipv4_roundtrip :: bool where
  "candidate_parse_host_udp_ipv4_roundtrip \<longleftrightarrow>
     (let raw = ''candidate:1 1 UDP 2113937151 192.168.1.10 56789 typ host'' in
      unwrap_then (Candidate_from_str raw) (\<lambda>c.
        Candidate_candidate_type c = CandidateType_Host \<and> Candidate_transport_type c = TransportType_Udp \<and>
        Candidate_foundation c = ''1'' \<and> Candidate_component c = 1 \<and> Candidate_priority c = 2113937151 \<and>
        Candidate_address c = Some ''192.168.1.10'' \<and> Candidate_port c = Some 56789 \<and> Candidate_family c = Family_Ipv4 \<and>
        Candidate_is_resolved c \<and> Candidate_to_sdp c = raw))"

lemma candidate_parse_host_udp_ipv4_roundtrip_holds: "candidate_parse_host_udp_ipv4_roundtrip"
  by code_simp

definition candidate_parse_host_udp_ipv6_roundtrip :: bool where
  "candidate_parse_host_udp_ipv6_roundtrip \<longleftrightarrow>
     (let raw = ''candidate:1 1 udp 2122252543 2001:db8::1 50001 typ host'' in
      unwrap_then (Candidate_from_str raw) (\<lambda>c.
        Candidate_candidate_type c = CandidateType_Host \<and> Candidate_transport_type c = TransportType_Udp \<and>
        Candidate_family c = Family_Ipv6 \<and> Candidate_address c = Some ''2001:db8::1'' \<and>
        Candidate_port c = Some 50001 \<and> Candidate_to_sdp c = raw))"

lemma candidate_parse_host_udp_ipv6_roundtrip_holds: "candidate_parse_host_udp_ipv6_roundtrip"
  by code_simp

definition candidate_parse_srflx_with_raddr_rport :: bool where
  "candidate_parse_srflx_with_raddr_rport \<longleftrightarrow>
     (let raw = ''candidate:842163049 1 udp 1677729535 192.0.2.1 50000 typ srflx raddr 198.51.100.1 rport 5000'' in
      unwrap_then (Candidate_from_str raw) (\<lambda>c.
        Candidate_candidate_type c = CandidateType_ServerReflexive \<and> Candidate_transport_type c = TransportType_Udp \<and>
        Candidate_related_address c = Some ''198.51.100.1'' \<and> Candidate_related_port c = Some 5000 \<and>
        Candidate_to_sdp c = raw))"

lemma candidate_parse_srflx_with_raddr_rport_holds: "candidate_parse_srflx_with_raddr_rport"
  by code_simp

definition candidate_parse_prflx_ipv4_roundtrip :: bool where
  "candidate_parse_prflx_ipv4_roundtrip \<longleftrightarrow>
     (let raw = ''candidate:7 1 UDP 1845501695 203.0.113.7 50500 typ prflx'' in
      unwrap_then (Candidate_from_str raw) (\<lambda>c.
        Candidate_candidate_type c = CandidateType_PeerReflexive \<and> Candidate_to_sdp c = raw))"

lemma candidate_parse_prflx_ipv4_roundtrip_holds: "candidate_parse_prflx_ipv4_roundtrip"
  by code_simp

definition candidate_parse_relay_ipv6_roundtrip :: bool where
  "candidate_parse_relay_ipv6_roundtrip \<longleftrightarrow>
     (let raw = ''candidate:9 1 UDP 16777215 2001:db8::abcd 33445 typ relay raddr 2001:db8::1 rport 60000'' in
      unwrap_then (Candidate_from_str raw) (\<lambda>c.
        Candidate_candidate_type c = CandidateType_Relayed \<and> Candidate_family c = Family_Ipv6 \<and>
        Candidate_related_address c = Some ''2001:db8::1'' \<and> Candidate_to_sdp c = raw))"

lemma candidate_parse_relay_ipv6_roundtrip_holds: "candidate_parse_relay_ipv6_roundtrip"
  by code_simp

definition candidate_parse_tcp_active_with_tcptype :: bool where
  "candidate_parse_tcp_active_with_tcptype \<longleftrightarrow>
     (let raw = ''candidate:3 1 tcp 1518280447 192.0.2.1 9 typ host tcptype active'' in
      unwrap_then (Candidate_from_str raw) (\<lambda>c.
        Candidate_transport_type c = TransportType_TcpActive \<and> Candidate_tcp_type c = Some ''active'' \<and>
        Candidate_to_sdp c = raw))"

lemma candidate_parse_tcp_active_with_tcptype_holds: "candidate_parse_tcp_active_with_tcptype"
  by code_simp

definition candidate_parse_tcp_passive_with_tcptype :: bool where
  "candidate_parse_tcp_passive_with_tcptype \<longleftrightarrow>
     (let raw = ''candidate:4 1 TCP 2128609279 10.0.0.1 8888 typ host tcptype passive'' in
      unwrap_then (Candidate_from_str raw) (\<lambda>c.
        Candidate_transport_type c = TransportType_TcpPassive \<and> Candidate_to_sdp c = raw))"

lemma candidate_parse_tcp_passive_with_tcptype_holds: "candidate_parse_tcp_passive_with_tcptype"
  by code_simp

definition candidate_parse_tcp_so_with_tcptype :: bool where
  "candidate_parse_tcp_so_with_tcptype \<longleftrightarrow>
     (let raw = ''candidate:5 1 TCP 2128609279 10.0.0.1 9000 typ host tcptype so'' in
      unwrap_then (Candidate_from_str raw) (\<lambda>c.
        Candidate_transport_type c = TransportType_TcpSo \<and> Candidate_to_sdp c = raw))"

lemma candidate_parse_tcp_so_with_tcptype_holds: "candidate_parse_tcp_so_with_tcptype"
  by code_simp

definition candidate_parse_tcp_without_tcptype_falls_back_to_unknown :: bool where
  "candidate_parse_tcp_without_tcptype_falls_back_to_unknown \<longleftrightarrow>
     (let raw = ''candidate:6 1 TCP 2128609279 10.0.0.1 8888 typ host'' in
      unwrap_then (Candidate_from_str raw) (\<lambda>c.
        Candidate_transport_type c = TransportType_TcpUnknown \<and> Candidate_to_sdp c = raw))"

lemma candidate_parse_tcp_without_tcptype_falls_back_to_unknown_holds: "candidate_parse_tcp_without_tcptype_falls_back_to_unknown"
  by code_simp

definition candidate_parse_accepts_candidate_prefix :: bool where
  "candidate_parse_accepts_candidate_prefix \<longleftrightarrow>
     (let raw = ''candidate:1 1 UDP 2113937151 192.168.1.10 56789 typ host'' in
      unwrap_then (Candidate_from_str raw) (\<lambda>with_prefix.
      unwrap_then (Candidate_from_str ''1 1 UDP 2113937151 192.168.1.10 56789 typ host'') (\<lambda>without.
        Candidate_to_sdp with_prefix = raw \<and> Candidate_to_sdp without = raw)))"

lemma candidate_parse_accepts_candidate_prefix_holds: "candidate_parse_accepts_candidate_prefix"
  by code_simp

definition candidate_parse_accepts_a_equals_prefix :: bool where
  "candidate_parse_accepts_a_equals_prefix \<longleftrightarrow>
     (let raw = ''a=candidate:1 1 UDP 2113937151 192.168.1.10 56789 typ host'' in
      unwrap_then (Candidate_from_str raw) (\<lambda>c. Candidate_to_sdp c = drop 2 raw \<and> Candidate_fmt c = raw))"

lemma candidate_parse_accepts_a_equals_prefix_holds: "candidate_parse_accepts_a_equals_prefix"
  by code_simp

definition candidate_parse_double_roundtrip_is_identity :: bool where
  "candidate_parse_double_roundtrip_is_identity \<longleftrightarrow>
     (let raw = ''candidate:842163049 1 udp 1677729535 192.0.2.1 50000 typ srflx raddr 198.51.100.1 rport 5000 generation 0 ufrag foo network-id 1'' in
      unwrap_then (Candidate_from_str raw) (\<lambda>c1.
        let s1 = Candidate_to_sdp c1 in
        unwrap_then (Candidate_from_str s1) (\<lambda>c2. Candidate_to_sdp c2 = s1 \<and> s1 = raw)))"

lemma candidate_parse_double_roundtrip_is_identity_holds: "candidate_parse_double_roundtrip_is_identity"
  by code_simp

definition candidate_parse_rejects_too_few_fields :: bool where
  "candidate_parse_rejects_too_few_fields \<longleftrightarrow>
     (unwrap_err_then (Candidate_from_str ''candidate:1 1 UDP 2113937151 192.168.1.10'')
        (\<lambda>err. err = ParseError_MissingField ''port''))"

lemma candidate_parse_rejects_too_few_fields_holds: "candidate_parse_rejects_too_few_fields"
  by code_simp

definition candidate_parse_rejects_bad_integer :: bool where
  "candidate_parse_rejects_bad_integer \<longleftrightarrow>
     (unwrap_err_then (Candidate_from_str ''candidate:1 abc UDP 2113937151 192.168.1.10 56789 typ host'')
        (\<lambda>err. err = ParseError_BadInteger ''component''))"

lemma candidate_parse_rejects_bad_integer_holds: "candidate_parse_rejects_bad_integer"
  by code_simp

definition candidate_parse_rejects_missing_typ_marker :: bool where
  "candidate_parse_rejects_missing_typ_marker \<longleftrightarrow>
     (unwrap_err_then (Candidate_from_str ''candidate:1 1 UDP 2113937151 192.168.1.10 56789 host foo'')
        (\<lambda>err. err = ParseError_MissingTypMarker))"

lemma candidate_parse_rejects_missing_typ_marker_holds: "candidate_parse_rejects_missing_typ_marker"
  by code_simp

definition candidate_parse_unknown_type_keeps_token_but_classifies_unknown :: bool where
  "candidate_parse_unknown_type_keeps_token_but_classifies_unknown \<longleftrightarrow>
     (let raw = ''candidate:1 1 UDP 2113937151 192.168.1.10 56789 typ bogus'' in
      unwrap_then (Candidate_from_str raw) (\<lambda>c.
        Candidate_candidate_type c = CandidateType_Unknown \<and> Candidate_to_sdp c = raw))"

lemma candidate_parse_unknown_type_keeps_token_but_classifies_unknown_holds: "candidate_parse_unknown_type_keeps_token_but_classifies_unknown"
  by code_simp

definition candidate_mid_default_is_zero_string :: bool where
  "candidate_mid_default_is_zero_string \<longleftrightarrow>
     (unwrap_then (Candidate_from_str ''candidate:1 1 UDP 2113937151 192.168.1.10 56789 typ host'') (\<lambda>c.
        Candidate_mid c = ''0'' \<and> \<not> Candidate_has_mid c))"

lemma candidate_mid_default_is_zero_string_holds: "candidate_mid_default_is_zero_string"
  by code_simp

definition candidate_mid_preserved_and_not_in_sdp :: bool where
  "candidate_mid_preserved_and_not_in_sdp \<longleftrightarrow>
     (let raw = ''candidate:1 1 UDP 2113937151 192.168.1.10 56789 typ host'' in
      unwrap_then (Candidate_parse raw ''audio'') (\<lambda>c.
        Candidate_mid c = ''audio'' \<and> Candidate_has_mid c \<and>
        (let sdp = Candidate_to_sdp c in sdp = raw \<and> \<not> str_contains sdp ''audio'')))"

lemma candidate_mid_preserved_and_not_in_sdp_holds: "candidate_mid_preserved_and_not_in_sdp"
  by code_simp

definition candidate_hint_mid_only_sets_when_empty :: bool where
  "candidate_hint_mid_only_sets_when_empty \<longleftrightarrow>
     (unwrap_then (Candidate_parse ''candidate:1 1 UDP 2113937151 192.168.1.10 56789 typ host'' ''video'') (\<lambda>c.
      unwrap_then (Candidate_from_str ''candidate:1 1 UDP 2113937151 192.168.1.10 56789 typ host'') (\<lambda>d.
        Candidate_mid (Candidate_hint_mid c ''audio'') = ''video'' \<and> Candidate_mid (Candidate_hint_mid d ''audio'') = ''audio'')))"

lemma candidate_hint_mid_only_sets_when_empty_holds: "candidate_hint_mid_only_sets_when_empty"
  by code_simp

definition candidate_ip_literal_short_circuits_resolution :: bool where
  "candidate_ip_literal_short_circuits_resolution \<longleftrightarrow>
     (unwrap_then (Candidate_from_str ''candidate:1 1 UDP 2113937151 192.168.1.10 56789 typ host'') (\<lambda>c.
        Candidate_is_resolved c \<and> Candidate_family c = Family_Ipv4 \<and>
        Candidate_resolved c = Some (IpAddr_V4 192 168 1 10, 56789)))"

lemma candidate_ip_literal_short_circuits_resolution_holds: "candidate_ip_literal_short_circuits_resolution"
  by code_simp

definition candidate_hostname_candidate_stays_unresolved :: bool where
  "candidate_hostname_candidate_stays_unresolved \<longleftrightarrow>
     (let raw = ''candidate:1 1 UDP 2113937151 stun.example.com 56789 typ host'' in
      unwrap_then (Candidate_from_str raw) (\<lambda>c.
        \<not> Candidate_is_resolved c \<and> Candidate_family c = Family_Unresolved \<and>
        Candidate_address c = None \<and> Candidate_port c = None \<and> Candidate_to_sdp c = raw))"

lemma candidate_hostname_candidate_stays_unresolved_holds: "candidate_hostname_candidate_stays_unresolved"
  by code_simp

definition candidate_equality_matches_cpp_semantics :: bool where
  "candidate_equality_matches_cpp_semantics \<longleftrightarrow>
     (unwrap_then (Candidate_from_str ''candidate:1 1 UDP 2113937151 192.168.1.10 56789 typ host'') (\<lambda>a.
      unwrap_then (Candidate_from_str ''candidate:1 1 UDP 9999 192.168.1.10 56789 typ host'') (\<lambda>b.
      unwrap_then (Candidate_from_str ''candidate:2 1 UDP 2113937151 192.168.1.10 56789 typ host'') (\<lambda>c.
        candidate_eq a b \<and> \<not> candidate_eq a c))))"

lemma candidate_equality_matches_cpp_semantics_holds: "candidate_equality_matches_cpp_semantics"
  by code_simp

definition candidate_display_prefixes_a_equals :: bool where
  "candidate_display_prefixes_a_equals \<longleftrightarrow>
     (unwrap_then (Candidate_from_str ''candidate:1 1 UDP 2113937151 192.168.1.10 56789 typ host'') (\<lambda>c.
        Candidate_fmt c = ''a=candidate:1 1 UDP 2113937151 192.168.1.10 56789 typ host''))"

lemma candidate_display_prefixes_a_equals_holds: "candidate_display_prefixes_a_equals"
  by code_simp

definition candidate_default_candidate_matches_cpp_defaults :: bool where
  "candidate_default_candidate_matches_cpp_defaults \<longleftrightarrow>
     (let c = Candidate_new in
        Candidate_foundation c = ''none'' \<and> Candidate_component c = 0 \<and> Candidate_priority c = 0 \<and>
        Candidate_candidate_type c = CandidateType_Unknown \<and> Candidate_transport_type c = TransportType_Unknown \<and>
        \<not> Candidate_is_resolved c \<and> Candidate_family c = Family_Unresolved \<and> Candidate_mid c = ''0'')"

lemma candidate_default_candidate_matches_cpp_defaults_holds: "candidate_default_candidate_matches_cpp_defaults"
  by code_simp

end
