(* ===== verification/Description_Tests.thy ===== *)
theory Description_Tests
  imports Unit_Tests Sdp_Parser
begin

text \<open>
  The unit tests of \<open>src/description.rs\<close>, run on the model. The clock that only makes session ids is unset.
\<close>

definition OFFER_SDP :: str where
  "OFFER_SDP = crlf_lines [
     ''v=0'', ''o=rtc 3767197920 0 IN IP4 127.0.0.1'', ''s=-'', ''t=0 0'', ''a=group:BUNDLE 0'', ''a=msid-semantic:WMS *'',
     ''a=ice-options:trickle'',
     ''a=fingerprint:sha-256 0F:74:31:25:CB:A2:13:EC:28:6F:6D:2C:61:FF:5D:C2:BC:B9:DB:3D:98:14:8D:1A:BB:EA:33:0C:A4:60:A8:8E'',
     ''m=application 9 UDP/DTLS/SCTP webrtc-datachannel'', ''c=IN IP4 0.0.0.0'', ''a=mid:0'', ''a=sendrecv'', ''a=setup:actpass'',
     ''a=ice-ufrag:ufrag'', ''a=ice-pwd:password1234567890123456'',
     ''a=fingerprint:sha-256 0F:74:31:25:CB:A2:13:EC:28:6F:6D:2C:61:FF:5D:C2:BC:B9:DB:3D:98:14:8D:1A:BB:EA:33:0C:A4:60:A8:8E'',
     ''a=sctp-port:5000'', ''a=max-message-size:262144'']"

text \<open>What the offer parses to, shared by the tests that read it.\<close>

definition offer_fingerprint :: str where
  "offer_fingerprint =
     ''0F:74:31:25:CB:A2:13:EC:28:6F:6D:2C:61:FF:5D:C2:BC:B9:DB:3D:98:14:8D:1A:BB:EA:33:0C:A4:60:A8:8E''"

definition offer_description :: description where
  "offer_description = \<lparr>d_typ = Type_Unspec, d_role = Role_ActPass, d_username = ''rtc'',
     d_session_id = ''3767197920'', d_session_version = ''0'', d_bundle_mids = [''0''], d_ice_ufrag = Some ''ufrag'',
     d_ice_pwd = Some ''password1234567890123456'', d_ice_options = [''trickle''],
     d_fingerprint = Some \<lparr>fp_algorithm = FingerprintAlgorithm_Sha256, fp_value = offer_fingerprint\<rparr>,
     d_extmap_allow_mixed = False, d_extra_attrs = [],
     d_application = Some \<lparr>app_mid = ''0'', app_sctp_port = Some 5000, app_max_message_size = Some 262144,
       app_extra_attrs = [], app_direction = Direction_SendRecv\<rparr>,
     d_other_sections = [], d_candidates = [], d_ended = False\<rparr>"

lemma offer_parse: "Description_parse None OFFER_SDP = Inr offer_description"
  by code_simp

lemma offer_to_sdp: "Description_to_sdp offer_description = OFFER_SDP"
  by code_simp

lemmas offer_eval = offer_parse offer_to_sdp unwrap_then_def sum.case Let_def

definition sdp_parse_offer_basic_fields :: bool where
  "sdp_parse_offer_basic_fields \<longleftrightarrow>
     (unwrap_then (Description_parse None OFFER_SDP) (\<lambda>d.
        Description_role d = Role_ActPass \<and> Description_ice_ufrag d = ''ufrag'' \<and>
        Description_ice_pwd d = ''password1234567890123456'' \<and> Description_bundle_mids d = [''0''] \<and>
        Description_username d = ''rtc'' \<and> Description_session_id d = ''3767197920'' \<and>
        expect_then (Description_application d) (\<lambda>app.
          Application_mid app = ''0'' \<and> Application_sctp_port app = Some 5000 \<and>
          Application_max_message_size app = Some 262144) \<and>
        expect_then (Description_fingerprint d) (\<lambda>fp.
          fp_algorithm fp = FingerprintAlgorithm_Sha256 \<and> str_starts_with (fp_value fp) ''0F:74:31'')))"

lemma sdp_parse_offer_basic_fields_holds: "sdp_parse_offer_basic_fields"
  unfolding sdp_parse_offer_basic_fields_def offer_eval by code_simp

definition sdp_parse_offer_roundtrip_idempotent :: bool where
  "sdp_parse_offer_roundtrip_idempotent \<longleftrightarrow>
     (unwrap_then (Description_parse None OFFER_SDP) (\<lambda>d1.
        let sdp1 = Description_to_sdp d1 in
        unwrap_then (Description_parse None sdp1) (\<lambda>d2.
          let sdp2 = Description_to_sdp d2 in
          sdp1 = sdp2 \<and> str_contains sdp1 ''m=application 9 UDP/DTLS/SCTP webrtc-datachannel'' \<and>
          str_contains sdp1 ''a=mid:0'' \<and> str_contains sdp1 ''a=sctp-port:5000'' \<and>
          str_contains sdp1 ''a=max-message-size:262144'' \<and> str_contains sdp1 ''a=setup:actpass'')))"

lemma sdp_parse_offer_roundtrip_idempotent_holds: "sdp_parse_offer_roundtrip_idempotent"
  unfolding sdp_parse_offer_roundtrip_idempotent_def offer_eval by code_simp

definition sdp_parse_answer_role_active :: bool where
  "sdp_parse_answer_role_active \<longleftrightarrow>
     (let sdp = str_replace OFFER_SDP ''a=setup:actpass'' ''a=setup:active'' in
      unwrap_then (Description_parse None sdp) (\<lambda>d. Description_role d = Role_Active))"

lemma sdp_parse_answer_role_active_holds: "sdp_parse_answer_role_active"
  by code_simp

definition sdp_builder_offer_emits_expected_attrs :: bool where
  "sdp_builder_offer_emits_expected_attrs \<longleftrightarrow>
     (let d = Description_new None Type_Offer Role_ActPass;
          d = Description_set_ice_ufrag d ''abcd'';
          d = Description_set_ice_pwd d ''0123456789ABCDEF0123'';
          d = Description_set_fingerprint d \<lparr>fp_algorithm = FingerprintAlgorithm_Sha256, fp_value = ''ab:cd:ef:01''\<rparr>;
          app = Application_set_max_message_size (Application_set_sctp_port (Application_new ''0'') 5000) 262144;
          d = Description_set_application d app;
          sdp = Description_to_sdp d
      in str_starts_with sdp (''v=0'' @ crlf) \<and> str_contains sdp (''a=group:BUNDLE 0'' @ crlf) \<and>
         str_contains sdp (''a=msid-semantic:WMS *'' @ crlf) \<and>
         str_contains sdp (''m=application 9 UDP/DTLS/SCTP webrtc-datachannel'' @ crlf) \<and>
         str_contains sdp (''a=mid:0'' @ crlf) \<and> str_contains sdp (''a=setup:actpass'' @ crlf) \<and>
         str_contains sdp (''a=ice-ufrag:abcd'' @ crlf) \<and> str_contains sdp (''a=ice-pwd:0123456789ABCDEF0123'' @ crlf) \<and>
         str_contains sdp (''a=fingerprint:sha-256 AB:CD:EF:01'' @ crlf) \<and> str_contains sdp (''a=sctp-port:5000'' @ crlf) \<and>
         str_contains sdp (''a=max-message-size:262144'' @ crlf) \<and> Description_type d = Type_Offer)"

lemma sdp_builder_offer_emits_expected_attrs_holds: "sdp_builder_offer_emits_expected_attrs"
  by code_simp

definition sdp_add_candidate_hints_mid_when_missing :: bool where
  "sdp_add_candidate_hints_mid_when_missing \<longleftrightarrow>
     (let d = Description_set_application (Description_new None Type_Offer Role_ActPass) (Application_new ''0'') in
      unwrap_then (Candidate_from_str ''candidate:1 1 UDP 2113937151 192.168.1.10 56789 typ host'') (\<lambda>c.
        \<not> Candidate_has_mid c \<and>
        (let d = Description_add_candidate d c in
         length (Description_candidates d) = 1 \<and> Candidate_mid (Description_candidates d ! 0) = ''0'' \<and>
         Candidate_has_mid (Description_candidates d ! 0))))"

lemma sdp_add_candidate_hints_mid_when_missing_holds: "sdp_add_candidate_hints_mid_when_missing"
  by code_simp

definition sdp_add_candidate_preserves_explicit_mid :: bool where
  "sdp_add_candidate_preserves_explicit_mid \<longleftrightarrow>
     (let d = Description_set_application (Description_new None Type_Offer Role_ActPass) (Application_new ''0'') in
      unwrap_then (Candidate_parse ''candidate:1 1 UDP 2113937151 192.168.1.10 56789 typ host'' ''2'') (\<lambda>c.
        Candidate_mid (Description_candidates (Description_add_candidate d c) ! 0) = ''2''))"

lemma sdp_add_candidate_preserves_explicit_mid_holds: "sdp_add_candidate_preserves_explicit_mid"
  by code_simp

definition sdp_bundle_mids_parsed :: bool where
  "sdp_bundle_mids_parsed \<longleftrightarrow>
     (let sdp = crlf_lines [''v=0'', ''o=rtc 1 0 IN IP4 127.0.0.1'', ''s=-'', ''t=0 0'', ''a=group:BUNDLE 0 1 2'',
        ''a=msid-semantic:WMS *''] in
      unwrap_then (Description_parse None sdp) (\<lambda>d. Description_bundle_mids d = [''0'', ''1'', ''2'']))"

lemma sdp_bundle_mids_parsed_holds: "sdp_bundle_mids_parsed"
  by code_simp

definition sdp_fingerprint_parsed :: bool where
  "sdp_fingerprint_parsed \<longleftrightarrow>
     (unwrap_then (Description_parse None OFFER_SDP) (\<lambda>d.
        expect_then (Description_fingerprint d) (\<lambda>fp.
          fp_algorithm fp = FingerprintAlgorithm_Sha256 \<and>
          fp_value fp = ''0F:74:31:25:CB:A2:13:EC:28:6F:6D:2C:61:FF:5D:C2:BC:B9:DB:3D:98:14:8D:1A:BB:EA:33:0C:A4:60:A8:8E'')))"

lemma sdp_fingerprint_parsed_holds: "sdp_fingerprint_parsed"
  unfolding sdp_fingerprint_parsed_def offer_eval by code_simp

definition sdp_fingerprint_validates_sha256 :: bool where
  "sdp_fingerprint_validates_sha256 \<longleftrightarrow>
     (let fp = \<lparr>fp_algorithm = FingerprintAlgorithm_Sha256,
            fp_value = ''0F:74:31:25:CB:A2:13:EC:28:6F:6D:2C:61:FF:5D:C2:BC:B9:DB:3D:98:14:8D:1A:BB:EA:33:0C:A4:60:A8:8E''\<rparr>;
          bad = \<lparr>fp_algorithm = FingerprintAlgorithm_Sha256, fp_value = ''DEADBEEF''\<rparr>
      in Fingerprint_is_valid fp \<and> \<not> Fingerprint_is_valid bad)"

lemma sdp_fingerprint_validates_sha256_holds: "sdp_fingerprint_validates_sha256"
  by code_simp

definition sdp_ice_options_trickle_parsed :: bool where
  "sdp_ice_options_trickle_parsed \<longleftrightarrow>
     (unwrap_then (Description_parse None OFFER_SDP) (\<lambda>d. Description_ice_options d = [''trickle'']))"

lemma sdp_ice_options_trickle_parsed_holds: "sdp_ice_options_trickle_parsed"
  unfolding sdp_ice_options_trickle_parsed_def offer_eval by code_simp

definition sdp_role_actpass_default_on_new :: bool where
  "sdp_role_actpass_default_on_new \<longleftrightarrow>
     (Description_role (Description_new None Type_Offer Role_ActPass) = Role_ActPass)"

lemma sdp_role_actpass_default_on_new_holds: "sdp_role_actpass_default_on_new"
  by code_simp

definition sdp_other_media_preserved_verbatim :: bool where
  "sdp_other_media_preserved_verbatim \<longleftrightarrow>
     (let sdp = crlf_lines [''v=0'', ''o=rtc 42 0 IN IP4 127.0.0.1'', ''s=-'', ''t=0 0'', ''a=group:BUNDLE 0 audio'',
        ''a=msid-semantic:WMS *'', ''m=application 9 UDP/DTLS/SCTP webrtc-datachannel'', ''c=IN IP4 0.0.0.0'', ''a=mid:0'',
        ''a=setup:actpass'', ''a=ice-ufrag:abcd'', ''a=ice-pwd:passphraselongenoughforice'', ''a=sctp-port:5000'',
        ''m=audio 9 UDP/TLS/RTP/SAVPF 111'', ''c=IN IP4 0.0.0.0'', ''a=mid:audio'', ''a=sendrecv'', ''a=rtpmap:111 opus/48000/2'',
        ''a=fmtp:111 minptime=10;useinbandfec=1''] in
      unwrap_then (Description_parse None sdp) (\<lambda>d.
        Description_application d \<noteq> None \<and> ''audio'' \<in> set (Description_bundle_mids d) \<and>
        (let out = Description_to_sdp d in
         str_contains out (''m=audio 9 UDP/TLS/RTP/SAVPF 111'' @ crlf) \<and>
         str_contains out (''a=rtpmap:111 opus/48000/2'' @ crlf) \<and>
         str_contains out (''a=fmtp:111 minptime=10;useinbandfec=1'' @ crlf))))"

lemma sdp_other_media_preserved_verbatim_holds: "sdp_other_media_preserved_verbatim"
  by code_simp

definition sdp_end_of_candidates_roundtrip :: bool where
  "sdp_end_of_candidates_roundtrip \<longleftrightarrow>
     (let sdp = crlf_lines [''v=0'', ''o=rtc 1 0 IN IP4 127.0.0.1'', ''s=-'', ''t=0 0'', ''a=group:BUNDLE 0'', ''a=msid-semantic:WMS *'',
        ''m=application 9 UDP/DTLS/SCTP webrtc-datachannel'', ''c=IN IP4 0.0.0.0'', ''a=mid:0'', ''a=setup:actpass'',
        ''a=sctp-port:5000'', ''a=candidate:1 1 UDP 2113937151 192.168.1.10 56789 typ host'', ''a=end-of-candidates''] in
      unwrap_then (Description_parse None sdp) (\<lambda>d.
        length (Description_candidates d) = 1 \<and> Description_end_of_candidates d \<and>
        (let out = Description_to_sdp d in
         str_contains out (''a=candidate:1 1 UDP 2113937151 192.168.1.10 56789 typ host'' @ crlf) \<and>
         str_contains out (''a=end-of-candidates'' @ crlf))))"

lemma sdp_end_of_candidates_roundtrip_holds: "sdp_end_of_candidates_roundtrip"
  by code_simp

definition sdp_application_or_create_inserts_default :: bool where
  "sdp_application_or_create_inserts_default \<longleftrightarrow>
     (let d = Description_new None Type_Offer Role_ActPass;
          d1 = Description_application_or_create d ''data'';
          d2 = Description_application_or_create d1 ''other''
      in Description_application d = None \<and>
         expect_then (Description_application d1) (\<lambda>app. Application_mid app = ''data'') \<and>
         expect_then (Description_application d2) (\<lambda>again. Application_mid again = ''data''))"

lemma sdp_application_or_create_inserts_default_holds: "sdp_application_or_create_inserts_default"
  by code_simp

definition sdp_bad_sdp_does_not_panic :: bool where
  "sdp_bad_sdp_does_not_panic \<longleftrightarrow>
     (unwrap_then (Description_parse None (''not an sdp'' @ [LF] @ ''nothing here'' @ [LF])) (\<lambda>d.
        Description_application d = None))"

lemma sdp_bad_sdp_does_not_panic_holds: "sdp_bad_sdp_does_not_panic"
  by code_simp

definition sdp_bad_sctp_port_returns_error :: bool where
  "sdp_bad_sctp_port_returns_error \<longleftrightarrow>
     (let sdp = crlf_lines [''v=0'', ''o=rtc 1 0 IN IP4 127.0.0.1'', ''s=-'', ''t=0 0'',
        ''m=application 9 UDP/DTLS/SCTP webrtc-datachannel'', ''a=mid:0'', ''a=sctp-port:not-a-port''] in
      unwrap_err_then (Description_parse None sdp) (\<lambda>err. err = DescriptionParseError_BadInteger ''sctp-port''))"

lemma sdp_bad_sctp_port_returns_error_holds: "sdp_bad_sctp_port_returns_error"
  by code_simp

definition sdp_fromstr_trait_works :: bool where
  "sdp_fromstr_trait_works \<longleftrightarrow>
     (unwrap_then (Description_from_str None OFFER_SDP) (\<lambda>d.
        expect_then (Description_application d) (\<lambda>app. Application_mid app = ''0'')))"

lemma sdp_fromstr_trait_works_holds: "sdp_fromstr_trait_works"
  unfolding sdp_fromstr_trait_works_def Description_from_str_def offer_eval by code_simp

definition sdp_display_equals_to_sdp :: bool where
  "sdp_display_equals_to_sdp \<longleftrightarrow>
     (unwrap_then (Description_parse None OFFER_SDP) (\<lambda>d. Description_fmt d = Description_to_sdp d))"

lemma sdp_display_equals_to_sdp_holds: "sdp_display_equals_to_sdp"
  unfolding sdp_display_equals_to_sdp_def offer_eval by code_simp

definition sdp_type_round_trip_string :: bool where
  "sdp_type_round_trip_string \<longleftrightarrow>
     (Type_as_str Type_Offer = ''offer'' \<and> Type_from_string ''offer'' = Type_Offer \<and>
      Type_from_string ''garbage'' = Type_Unspec \<and> Type_from_string '''' = Type_Unspec)"

lemma sdp_type_round_trip_string_holds: "sdp_type_round_trip_string"
  by code_simp

definition sdp_hint_type_only_promotes_unspec :: bool where
  "sdp_hint_type_only_promotes_unspec \<longleftrightarrow>
     (let d = Description_hint_type (Description_new None Type_Unspec Role_ActPass) Type_Offer
      in Description_type d = Type_Offer \<and> Description_type (Description_hint_type d Type_Answer) = Type_Offer)"

lemma sdp_hint_type_only_promotes_unspec_holds: "sdp_hint_type_only_promotes_unspec"
  by code_simp

definition sdp_extmap_allow_mixed_parsed_and_emitted :: bool where
  "sdp_extmap_allow_mixed_parsed_and_emitted \<longleftrightarrow>
     (let sdp = crlf_lines [''v=0'', ''o=rtc 1 0 IN IP4 127.0.0.1'', ''s=-'', ''t=0 0'', ''a=extmap-allow-mixed'',
        ''a=msid-semantic:WMS *''] in
      unwrap_then (Description_parse None sdp) (\<lambda>d.
        Description_extmap_allow_mixed d \<and> str_contains (Description_to_sdp d) (''a=extmap-allow-mixed'' @ crlf)))"

lemma sdp_extmap_allow_mixed_parsed_and_emitted_holds: "sdp_extmap_allow_mixed_parsed_and_emitted"
  by code_simp

definition sdp_candidate_attached_to_application_mid_in_output :: bool where
  "sdp_candidate_attached_to_application_mid_in_output \<longleftrightarrow>
     (let d = Description_new None Type_Offer Role_ActPass;
          d = Description_set_ice_ufrag d ''u'';
          d = Description_set_ice_pwd d ''ppppppppppppppppppppppp'';
          d = Description_set_application d (Application_new ''data'') in
      unwrap_then (Candidate_from_str ''candidate:1 1 UDP 2113937151 192.168.1.10 56789 typ host'') (\<lambda>c.
        let out = Description_to_sdp (Description_add_candidate d c) in
        str_contains out (''a=mid:data'' @ crlf) \<and>
        str_contains out (''a=candidate:1 1 UDP 2113937151 192.168.1.10 56789 typ host'' @ crlf)))"

lemma sdp_candidate_attached_to_application_mid_in_output_holds: "sdp_candidate_attached_to_application_mid_in_output"
  by code_simp

end
