(* ===== verification/Certificate_Tests.thy ===== *)
theory Certificate_Tests
  imports Unit_Tests Certificate
begin

text \<open>
  The unit tests of \<open>src/certificate.rs\<close>, run on the model over the sample OpenSSL. That two generated certificates
  differ rests on the randomness of OpenSSL, for which a sample that numbers its handles stands in.
\<close>

definition certificate_generate_default_produces_ecdsa_with_sha256_fingerprint :: bool where
  "certificate_generate_default_produces_ecdsa_with_sha256_fingerprint \<longleftrightarrow>
     (unwrap_then (fst (Certificate_generate_default sample_openssl ())) (\<lambda>c.
      expect_then (Certificate_fingerprint sample_openssl c FingerprintAlgorithm_Sha256) (\<lambda>r. unwrap_then r (\<lambda>fp.
        fp_algorithm fp = FingerprintAlgorithm_Sha256 \<and> length (fp_value fp) = 95 \<and> Fingerprint_is_valid fp))))"

lemma certificate_generate_default_produces_ecdsa_with_sha256_fingerprint_holds: "certificate_generate_default_produces_ecdsa_with_sha256_fingerprint"
  by code_simp

definition certificate_fingerprint_is_deterministic_for_one_cert :: bool where
  "certificate_fingerprint_is_deterministic_for_one_cert \<longleftrightarrow>
     (unwrap_then (fst (Certificate_generate_default sample_openssl ())) (\<lambda>c.
      let value = (\<lambda>algorithm P. expect_then (Certificate_fingerprint sample_openssl c algorithm)
        (\<lambda>r. unwrap_then r (\<lambda>fp. P (fp_value fp)))) in
      value FingerprintAlgorithm_Sha256 (\<lambda>a. value FingerprintAlgorithm_Sha256 (\<lambda>b. a = b)) \<and>
      value FingerprintAlgorithm_Sha1 (\<lambda>s1. length s1 = 20 * 3 - 1) \<and>
      value FingerprintAlgorithm_Sha512 (\<lambda>s5. length s5 = 64 * 3 - 1)))"

lemma certificate_fingerprint_is_deterministic_for_one_cert_holds: "certificate_fingerprint_is_deterministic_for_one_cert"
  by code_simp

definition certificate_fingerprint_format_is_uppercase_colon_hex :: bool where
  "certificate_fingerprint_format_is_uppercase_colon_hex \<longleftrightarrow>
     (unwrap_then (fst (Certificate_generate_default sample_openssl ())) (\<lambda>c.
      expect_then (Certificate_fingerprint sample_openssl c FingerprintAlgorithm_Sha256) (\<lambda>r. unwrap_then r (\<lambda>fp.
        list_all (\<lambda>(i, ch). if i mod 3 = 2 then ch = CHR '':''
                            else is_ascii_hexdigit ch \<and> \<not> (97 \<le> code ch \<and> code ch \<le> 122))
          (List.enumerate 0 (fp_value fp))))))"

lemma certificate_fingerprint_format_is_uppercase_colon_hex_holds: "certificate_fingerprint_format_is_uppercase_colon_hex"
  by code_simp

section \<open>Generated certificates\<close>

text \<open>An OpenSSL that numbers what it makes: no two handles are the same, and the digest tells them apart.\<close>

definition fresh_handle :: "nat \<Rightarrow> (unit + nat) \<times> nat" where
  "fresh_handle w = (Inr w, Suc w)"

definition numbered_openssl :: "(nat, unit, nat) openssl" where
  "numbered_openssl =
     (let ok = (\<lambda>w. (Inr (), w)) in
      \<lparr>EcGroup_from_curve_name = (\<lambda>_. fresh_handle), EcKey_generate = (\<lambda>_. fresh_handle), PKey_from_ec_key = (\<lambda>_. fresh_handle),
       Rsa_generate = (\<lambda>_. fresh_handle), PKey_from_rsa = (\<lambda>_. fresh_handle), X509NameBuilder_new = fresh_handle,
       append_entry_by_text = (\<lambda>_ _ _. ok), X509NameBuilder_build = (\<lambda>n. n), X509Builder_new = fresh_handle,
       set_version = (\<lambda>_ _. ok), BigNum_new = fresh_handle, BigNum_rand = (\<lambda>_ _. ok), to_asn1_integer = (\<lambda>_. fresh_handle),
       set_serial_number = (\<lambda>_ _. ok), set_issuer_name = (\<lambda>_ _. ok), set_subject_name = (\<lambda>_ _. ok),
       set_pubkey = (\<lambda>_ _. ok), Asn1Time_days_from_now = (\<lambda>_. fresh_handle), set_not_before = (\<lambda>_ _. ok),
       set_not_after = (\<lambda>_ _. ok), X509Builder_sign = (\<lambda>_ _ _. ok), X509Builder_build = (\<lambda>b _. b),
       X509_digest = X509_digest sample_openssl\<rparr>)"

definition certificate_generate_ecdsa_and_rsa_have_distinct_fingerprints :: bool where
  "certificate_generate_ecdsa_and_rsa_have_distinct_fingerprints \<longleftrightarrow>
     (let (ec, w) = Certificate_generate_ecdsa numbered_openssl ''rtc'' 0; (rsa, w) = Certificate_generate_rsa numbered_openssl ''rtc'' w in
      unwrap_then ec (\<lambda>ec. unwrap_then rsa (\<lambda>rsa.
      expect_then (Certificate_fingerprint numbered_openssl ec FingerprintAlgorithm_Sha256) (\<lambda>r. unwrap_then r (\<lambda>f_ec.
      expect_then (Certificate_fingerprint numbered_openssl rsa FingerprintAlgorithm_Sha256) (\<lambda>r. unwrap_then r (\<lambda>f_rsa.
        fp_value f_ec \<noteq> fp_value f_rsa \<and> length (fp_value f_ec) = 95 \<and> length (fp_value f_rsa) = 95)))))))"

lemma certificate_generate_ecdsa_and_rsa_have_distinct_fingerprints_holds: "certificate_generate_ecdsa_and_rsa_have_distinct_fingerprints"
  by code_simp

definition certificate_two_generated_certs_have_different_fingerprints :: bool where
  "certificate_two_generated_certs_have_different_fingerprints \<longleftrightarrow>
     (let (a, w) = Certificate_generate_ecdsa numbered_openssl ''rtc'' 0; (b, w) = Certificate_generate_ecdsa numbered_openssl ''rtc'' w in
      unwrap_then a (\<lambda>a. unwrap_then b (\<lambda>b.
      expect_then (Certificate_fingerprint numbered_openssl a FingerprintAlgorithm_Sha256) (\<lambda>r. unwrap_then r (\<lambda>fa.
      expect_then (Certificate_fingerprint numbered_openssl b FingerprintAlgorithm_Sha256) (\<lambda>r. unwrap_then r (\<lambda>fb.
        fp_value fa \<noteq> fp_value fb)))))))"

lemma certificate_two_generated_certs_have_different_fingerprints_holds: "certificate_two_generated_certs_have_different_fingerprints"
  by code_simp

end
