(* ===== verification/Transport_Tests.thy ===== *)
theory Transport_Tests
  imports Unit_Tests Sctp_Transport Dtls_Flow
begin

text \<open>
  The unit tests of the three transports that need no network, run on the model over the
  sample agent and the sample OpenSSL. A callback of a test that records what it is called with is the
  recording of the environment, with the handle it was invoked through; a default callback is one that
  is not looked at. \<open>expect\<close> on an operation that fails or does not return makes the test false.
\<close>

definition call_then :: "(('e + 'a) \<times> 's) option \<Rightarrow> ('s \<Rightarrow> bool) \<Rightarrow> bool" where
  "call_then r P = (case r of Some (Inr x, w) \<Rightarrow> P w | _ \<Rightarrow> False)"

definition call_err_then :: "(('e + 'a) \<times> 's) option \<Rightarrow> ('e \<Rightarrow> 's \<Rightarrow> bool) \<Rightarrow> bool" where
  "call_err_then r P = (case r of Some (Inl e, w) \<Rightarrow> P e w | _ \<Rightarrow> False)"

section \<open>ICE\<close>

record ('c, 'j) recorded_ice = "('c, 'j) ice" +
  rec_states :: "('c \<times> ice_state) list"
  rec_gatherings :: "('c \<times> gathering_state) list"

text \<open>An agent that is not connected: it refuses to send and knows no pair.\<close>

datatype juice_error = NotAvailable

definition idle_agent :: "(nat, nat, juice_error, (nat, nat) recorded_ice) ice_env" where
  "idle_agent = \<lparr>
     call_state_change = (\<lambda>c s w. Some (w\<lparr>rec_states := rec_states w @ [(c, s)]\<rparr>)),
     call_gathering_state_change = (\<lambda>c g w. Some (w\<lparr>rec_gatherings := rec_gatherings w @ [(c, g)]\<rparr>)),
     call_candidate = (\<lambda>_ _. Some), call_data = (\<lambda>_ _. Some),
     juice_gather_candidates = (\<lambda>j. (Inr (), j + 1)),
     juice_get_local_description = (\<lambda>j. (Inr (''a=ice-ufrag:uf'' @ crlf @ ''a=ice-pwd:pw'' @ crlf), j)),
     juice_set_remote_description = (\<lambda>j _. (Inr (), j)), juice_add_remote_candidate = (\<lambda>j _. (Inr (), j)),
     juice_set_remote_gathering_done = (\<lambda>j. (Inr (), j)), juice_send = (\<lambda>j _. (Inl NotAvailable, j)),
     juice_get_selected_candidates = (\<lambda>j. (Inl NotAvailable, j)),
     juice_get_selected_addresses = (\<lambda>j. (Inl NotAvailable, j))\<rparr>"

definition idle_builder :: "'j \<Rightarrow> (unit, 'j, 'e) juice_builder" where
  "idle_builder agent = \<lparr>jb_builder = (), jb_with_stun = (\<lambda>b _ _. b), jb_with_bind_address = (\<lambda>b _. b),
     jb_with_port_range = (\<lambda>b _ _. b), jb_add_turn_server = (\<lambda>b _ _ _ _. Inr b), jb_build = (\<lambda>_. Inr agent)\<rparr>"

definition numbered_callbacks :: "nat \<Rightarrow> nat ice_callbacks" where
  "numbered_callbacks n = \<lparr>on_state_change = n, on_gathering_state_change = n, on_candidate = n, on_data = n\<rparr>"

definition ice_construct :: "configuration \<Rightarrow> role \<Rightarrow> juice_error ice_error + (nat, nat) recorded_ice" where
  "ice_construct cfg rl =
     try_res (IceTransport_new (idle_builder 0) cfg rl (numbered_callbacks 0))
       (\<lambda>w. Inr (ice.extend w \<lparr>rec_states = [], rec_gatherings = []\<rparr>))"

definition loopback :: configuration where
  "loopback = Configuration_new\<lparr>cfg_bind_address := Some ''127.0.0.1''\<rparr>"

definition ice_construct_ok_with_minimal_config :: bool where
  "ice_construct_ok_with_minimal_config \<longleftrightarrow>
     (unwrap_then (ice_construct Configuration_new Role_ActPass) (\<lambda>t.
        IceTransport_state t = State_New \<and> IceTransport_gathering_state t = GatheringState_New \<and>
        IceTransport_role t = Role_ActPass))"

lemma ice_construct_ok_with_minimal_config_holds: "ice_construct_ok_with_minimal_config"
  by code_simp

definition ice_construct_with_stun_server :: bool where
  "ice_construct_with_stun_server \<longleftrightarrow>
     (let (r, cfg) = Configuration_add_ice_server Configuration_new ''stun:stun.example.com:3478'';
          cfg = cfg\<lparr>cfg_bind_address := Some ''127.0.0.1''\<rparr>
      in unwrap_then r (\<lambda>_. unwrap_then (ice_construct cfg Role_ActPass) (\<lambda>t. IceTransport_state t = State_New)))"

lemma ice_construct_with_stun_server_holds: "ice_construct_with_stun_server"
  by code_simp

definition ice_bind_address_bad_string_errors :: bool where
  "ice_bind_address_bad_string_errors \<longleftrightarrow>
     (let cfg = Configuration_new\<lparr>cfg_bind_address := Some ''not-an-ip''\<rparr>
      in unwrap_err_then (ice_construct cfg Role_ActPass) (\<lambda>err. err = IceTransportError_BadBindAddress ''not-an-ip''))"

lemma ice_bind_address_bad_string_errors_holds: "ice_bind_address_bad_string_errors"
  by code_simp

definition ice_gather_is_idempotent :: bool where
  "ice_gather_is_idempotent \<longleftrightarrow>
     (unwrap_then (ice_construct loopback Role_ActPass) (\<lambda>t.
        IceTransport_gathering_state t = GatheringState_New \<and>
        call_then (IceTransport_gather idle_agent t) (\<lambda>t.
          IceTransport_gathering_state t = GatheringState_InProgress \<and>
          call_then (IceTransport_gather idle_agent t) (\<lambda>t.
            IceTransport_gathering_state t = GatheringState_InProgress))))"

lemma ice_gather_is_idempotent_holds: "ice_gather_is_idempotent"
  by code_simp

definition ice_get_selected_pair_returns_err_before_connected :: bool where
  "ice_get_selected_pair_returns_err_before_connected \<longleftrightarrow>
     (unwrap_then (ice_construct Configuration_new Role_ActPass) (\<lambda>t.
        call_err_then (Some (IceTransport_get_selected_pair idle_agent t)) (\<lambda>err t. err = IceTransportError_NoSelectedPair)))"

lemma ice_get_selected_pair_returns_err_before_connected_holds: "ice_get_selected_pair_returns_err_before_connected"
  by code_simp

definition ice_send_before_connected_errors :: bool where
  "ice_send_before_connected_errors \<longleftrightarrow>
     (unwrap_then (ice_construct Configuration_new Role_ActPass) (\<lambda>t.
        call_err_then (Some (IceTransport_send idle_agent [104, 101, 108, 108, 111] t))
          (\<lambda>err t. err = IceTransportError_Juice NotAvailable)))"

lemma ice_send_before_connected_errors_holds: "ice_send_before_connected_errors"
  by code_simp

definition ice_restart_ice_resets_state_flags :: bool where
  "ice_restart_ice_resets_state_flags \<longleftrightarrow>
     (unwrap_then (ice_construct loopback Role_ActPass) (\<lambda>t.
        call_then (IceTransport_gather idle_agent t) (\<lambda>t.
          IceTransport_gathering_state t = GatheringState_InProgress \<and>
          GatheringState_InProgress \<in> snd ` set (rec_gatherings t) \<and>
          call_then (IceTransport_restart_ice idle_agent t) (\<lambda>t.
            IceTransport_gathering_state t = GatheringState_New \<and>
            GatheringState_New \<in> snd ` set (rec_gatherings t)))))"

lemma ice_restart_ice_resets_state_flags_holds: "ice_restart_ice_resets_state_flags"
  by code_simp

definition ice_close_transitions_to_closed_state :: bool where
  "ice_close_transitions_to_closed_state \<longleftrightarrow>
     (unwrap_then (ice_construct Configuration_new Role_ActPass) (\<lambda>t.
        call_then (IceTransport_close idle_agent t) (\<lambda>t.
          IceTransport_state t = State_Closed \<and> State_Closed \<in> snd ` set (rec_states t))))"

lemma ice_close_transitions_to_closed_state_holds: "ice_close_transitions_to_closed_state"
  by code_simp

definition ice_close_is_idempotent :: bool where
  "ice_close_is_idempotent \<longleftrightarrow>
     (unwrap_then (ice_construct Configuration_new Role_ActPass) (\<lambda>t.
        call_then (IceTransport_close idle_agent t) (\<lambda>t.
        call_then (IceTransport_close idle_agent t) (\<lambda>t.
          length (filter (\<lambda>(c, s). s = State_Closed) (rec_states t)) = 1 \<and> IceTransport_state t = State_Closed))))"

lemma ice_close_is_idempotent_holds: "ice_close_is_idempotent"
  by code_simp

definition ice_send_after_close_errors :: bool where
  "ice_send_after_close_errors \<longleftrightarrow>
     (unwrap_then (ice_construct Configuration_new Role_ActPass) (\<lambda>t.
        call_then (IceTransport_close idle_agent t) (\<lambda>t.
        call_err_then (Some (IceTransport_send idle_agent [104, 105] t)) (\<lambda>err t. err = IceTransportError_Closed))))"

lemma ice_send_after_close_errors_holds: "ice_send_after_close_errors"
  by code_simp

definition ice_add_remote_candidate_after_close_errors :: bool where
  "ice_add_remote_candidate_after_close_errors \<longleftrightarrow>
     (unwrap_then (ice_construct Configuration_new Role_ActPass) (\<lambda>t.
        call_then (IceTransport_close idle_agent t) (\<lambda>t.
        unwrap_then (Candidate_parse ''candidate:1 1 UDP 2122252543 127.0.0.1 54321 typ host'' ''0'') (\<lambda>cand.
        call_err_then (Some (IceTransport_add_remote_candidate idle_agent cand t)) (\<lambda>err t. err = IceTransportError_Closed)))))"

lemma ice_add_remote_candidate_after_close_errors_holds: "ice_add_remote_candidate_after_close_errors"
  by code_simp

definition ice_set_callbacks_replaces_existing :: bool where
  "ice_set_callbacks_replaces_existing \<longleftrightarrow>
     (unwrap_then (ice_construct Configuration_new Role_ActPass) (\<lambda>t.
        let t = IceTransport_set_callbacks (numbered_callbacks 1) t in
        call_then (IceTransport_close idle_agent t) (\<lambda>t.
          length (filter (\<lambda>(c, s). c = 0) (rec_states t)) = 0 \<and> length (filter (\<lambda>(c, s). c = 1) (rec_states t)) = 1)))"

lemma ice_set_callbacks_replaces_existing_holds: "ice_set_callbacks_replaces_existing"
  by code_simp

definition ice_callbacks_getter_round_trips :: bool where
  "ice_callbacks_getter_round_trips \<longleftrightarrow>
     (unwrap_then (ice_construct Configuration_new Role_ActPass) (\<lambda>t.
        let snapshot = IceTransport_callbacks t; t = IceTransport_set_callbacks (numbered_callbacks 1) t in
        expect_then (call_state_change idle_agent (on_state_change snapshot) State_Connected t) (\<lambda>t.
          length (filter (\<lambda>(c, s). c = 0) (rec_states t)) = 1 \<and> length (filter (\<lambda>(c, s). c = 1) (rec_states t)) = 0 \<and>
          call_then (IceTransport_close idle_agent t) (\<lambda>t. length (filter (\<lambda>(c, s). c = 1) (rec_states t)) = 1))))"

lemma ice_callbacks_getter_round_trips_holds: "ice_callbacks_getter_round_trips"
  by code_simp

definition ice_callbacks_default_are_safe_noops :: bool where
  "ice_callbacks_default_are_safe_noops \<longleftrightarrow>
     (unwrap_then (ice_construct Configuration_new Role_ActPass) (\<lambda>t.
        let t = IceTransport_set_callbacks (numbered_callbacks 1) t in
        call_then (IceTransport_close idle_agent t) (\<lambda>t. IceTransport_state t = State_Closed)))"

lemma ice_callbacks_default_are_safe_noops_holds: "ice_callbacks_default_are_safe_noops"
  by code_simp

section \<open>DTLS\<close>

text \<open>
  A fingerprint and a handshake over the sample OpenSSL, and an agent that is not connected. The transport
  is made by the three constructors, as in the tests.
\<close>

record ('u, 'j, 'd, 'l) recorded_dtls = "('u, 'j, 'd, 'l) dtls" +
  rec_dtls_states :: "('d \<times> dtls_state) list"
  rec_dtls_data :: "('d \<times> bytes) list"

definition recording_env :: "(nat, toy_agent, unit, nat, toy_ssl, unit, unit, nat, (nat, toy_agent, nat, toy_ssl) recorded_dtls) dtls_env" where
  "recording_env = toy_env\<lparr>
     call_dtls_state_change := (\<lambda>d s w. Some (w\<lparr>rec_dtls_states := rec_dtls_states w @ [(d, s)]\<rparr>)),
     call_dtls_data := (\<lambda>d data w. Some (w\<lparr>rec_dtls_data := rec_dtls_data w @ [(d, data)]\<rparr>))\<rparr>"

definition make_ice :: "role \<Rightarrow> unit ice_error + (nat ice_closure, toy_agent) ice" where
  "make_ice rl = IceTransport_new (idle_builder \<lparr>agent_connected = False, agent_sent = []\<rparr>) loopback rl
     \<lparr>on_state_change = IceUser 0, on_gathering_state_change = IceUser 0, on_candidate = IceUser 0, on_data = IceUser 0\<rparr>"

definition numbered_dtls_callbacks :: "nat \<Rightarrow> nat dtls_callbacks" where
  "numbered_dtls_callbacks n = \<lparr>dc_on_state_change = n, dc_on_data = n\<rparr>"

definition with_dtls :: "role \<Rightarrow> ((nat, toy_agent, nat, toy_ssl) recorded_dtls \<Rightarrow> bool) \<Rightarrow> bool" where
  "with_dtls rl P =
     unwrap_then (make_ice rl) (\<lambda>ice.
     unwrap_then (fst (Certificate_generate_default sample_openssl ())) (\<lambda>cert.
     unwrap_then (DtlsTransport_new toy_builder cert (numbered_dtls_callbacks 0) ice :: (unit, unit) dtls_error + _) (\<lambda>w.
       P (dtls.extend w \<lparr>rec_dtls_states = [], rec_dtls_data = []\<rparr>))))"

lemma make_ice_eq:
  "make_ice rl = Inr (initial_ice \<lparr>agent_connected = False, agent_sent = []\<rparr> rl
     \<lparr>on_state_change = IceUser 0, on_gathering_state_change = IceUser 0, on_candidate = IceUser 0, on_data = IceUser 0\<rparr>)"
  by (cases rl) code_simp+

lemma sample_certificate:
  "fst (Certificate_generate_default sample_openssl ()) = Inr \<lparr>cert_x509 = 7, cert_pkey = 3\<rparr>"
  by code_simp

lemma with_dtls_world:
  "with_dtls rl P = P \<lparr>ice_agent = \<lparr>agent_connected = False, agent_sent = []\<rparr>, ice_role = rl, ice_state = State_New,
     ice_gathering = GatheringState_New, ice_mid = ''0'',
     ice_callbacks = \<lparr>on_state_change = DtlsAutoStart (IceUser 0), on_gathering_state_change = IceUser 0,
       on_candidate = IceUser 0, on_data = IceUser 0\<rparr>, ice_closed = False,
     dtls_ssl = toy_new, dtls_handshake_done = False, dtls_locked = False, dtls_state = DtlsState_New,
     dtls_callbacks = numbered_dtls_callbacks 0, dtls_closed = False, dtls_is_client = (rl = Role_Active),
     dtls_expected = None, dtls_started = False, rec_dtls_states = [], rec_dtls_data = []\<rparr>"
  by (simp add: with_dtls_def make_ice_eq sample_certificate unwrap_then_def DtlsTransport_new_def build_ssl_context_def
      toy_builder_def ossl_err_def ok_or_def Let_def initial_ice_def IceTransport_set_callbacks_def ice.defs dtls.defs)

lemma recording_ssl [simp]:
  "de_openssl recording_env = sample_openssl" "de_ice recording_env = toy_ice" "SSL_do_handshake recording_env = toy_handshake"
  "SSL_get_error recording_env l ret = (if ret = 1 then SSL_ERROR_NONE else if ret = -1 then SSL_ERROR_WANT_READ else SSL_ERROR_OTHER 1)"
  "SSL_set_mtu recording_env k l = l"
  "BIO_read_out recording_env k l = (if toy_out l = [] then (None, l)
     else (Some (take k (toy_out l)), l\<lparr>toy_out := drop k (toy_out l)\<rparr>))"
  "call_dtls_state_change recording_env d s w = Some (w\<lparr>rec_dtls_states := rec_dtls_states w @ [(d, s)]\<rparr>)"
  by (simp_all add: recording_env_def)

lemmas dtls_eval = with_dtls_world call_then_def expect_then_def DtlsTransport_state_def numbered_dtls_callbacks_def
  ice_op_defs dtls_op_defs loop_rules map_juice_err_def Let_def toy_eval

definition dtls_tested_construct_active_is_client :: bool where
  "dtls_tested_construct_active_is_client \<longleftrightarrow>
     (with_dtls Role_Active (\<lambda>dtls. DtlsTransport_is_client dtls \<and> DtlsTransport_state dtls = DtlsState_New))"

lemma dtls_tested_construct_active_is_client_holds: "dtls_tested_construct_active_is_client"
  by code_simp

definition dtls_tested_construct_passive_is_server :: bool where
  "dtls_tested_construct_passive_is_server \<longleftrightarrow>
     (with_dtls Role_Passive (\<lambda>dtls. \<not> DtlsTransport_is_client dtls \<and> DtlsTransport_state dtls = DtlsState_New))"

lemma dtls_tested_construct_passive_is_server_holds: "dtls_tested_construct_passive_is_server"
  by code_simp

definition dtls_tested_start_transitions_to_connecting :: bool where
  "dtls_tested_start_transitions_to_connecting \<longleftrightarrow>
     (with_dtls Role_Active (\<lambda>dtls. DtlsTransport_state dtls = DtlsState_New \<and>
         call_then (DtlsTransport_start recording_env dtls) (\<lambda>dtls.
           DtlsTransport_state dtls = DtlsState_Connecting \<and> DtlsState_Connecting \<in> snd ` set (rec_dtls_states dtls))))"

lemma dtls_tested_start_transitions_to_connecting_holds: "dtls_tested_start_transitions_to_connecting"
  by (simp add: dtls_tested_start_transitions_to_connecting_def dtls_eval)

definition dtls_tested_start_is_idempotent :: bool where
  "dtls_tested_start_is_idempotent \<longleftrightarrow>
     (with_dtls Role_Active (\<lambda>dtls.
         call_then (DtlsTransport_start recording_env dtls) (\<lambda>dtls.
         call_then (DtlsTransport_start recording_env dtls) (\<lambda>dtls.
           length (filter (\<lambda>(c, s). s = DtlsState_Connecting) (rec_dtls_states dtls)) = 1))))"

lemma dtls_tested_start_is_idempotent_holds: "dtls_tested_start_is_idempotent"
  by (simp add: dtls_tested_start_is_idempotent_def dtls_eval)

definition dtls_tested_send_before_connected_errors :: bool where
  "dtls_tested_send_before_connected_errors \<longleftrightarrow>
     (with_dtls Role_Active (\<lambda>dtls.
         call_err_then (DtlsTransport_send recording_env [104, 101, 108, 108, 111] dtls)
           (\<lambda>err dtls. err = DtlsTransportError_NotConnected)))"

lemma dtls_tested_send_before_connected_errors_holds: "dtls_tested_send_before_connected_errors"
  by code_simp

definition dtls_tested_close_transitions_to_closed_and_is_idempotent :: bool where
  "dtls_tested_close_transitions_to_closed_and_is_idempotent \<longleftrightarrow>
     (with_dtls Role_Active (\<lambda>dtls.
         call_then (DtlsTransport_close recording_env dtls) (\<lambda>dtls.
         call_then (DtlsTransport_close recording_env dtls) (\<lambda>dtls.
           DtlsTransport_state dtls = DtlsState_Closed \<and>
           length (filter (\<lambda>(c, s). s = DtlsState_Closed) (rec_dtls_states dtls)) = 1 \<and>
           call_err_then (DtlsTransport_send recording_env [104, 105] dtls) (\<lambda>err dtls. err = DtlsTransportError_Closed)))))"

lemma dtls_tested_close_transitions_to_closed_and_is_idempotent_holds: "dtls_tested_close_transitions_to_closed_and_is_idempotent"
  by code_simp

definition dtls_tested_client_start_emits_client_hello_into_outbound_bio :: bool where
  "dtls_tested_client_start_emits_client_hello_into_outbound_bio \<longleftrightarrow>
     (with_dtls Role_Active (\<lambda>dtls.
         expect_then (DtlsTransport_start recording_env dtls) (\<lambda>(res, dtls).
           isl res \<or> DtlsTransport_state dtls = DtlsState_Connecting)))"

lemma dtls_tested_client_start_emits_client_hello_into_outbound_bio_holds: "dtls_tested_client_start_emits_client_hello_into_outbound_bio"
  by (simp add: dtls_tested_client_start_emits_client_hello_into_outbound_bio_def dtls_eval)

definition dtls_tested_set_callbacks_replaces_existing :: bool where
  "dtls_tested_set_callbacks_replaces_existing \<longleftrightarrow>
     (with_dtls Role_Active (\<lambda>dtls.
         let dtls = DtlsTransport_set_callbacks (numbered_dtls_callbacks 1) dtls in
         call_then (DtlsTransport_close recording_env dtls) (\<lambda>dtls.
           length (filter (\<lambda>(c, s). c = 0) (rec_dtls_states dtls)) = 0 \<and>
           length (filter (\<lambda>(c, s). c = 1) (rec_dtls_states dtls)) = 1)))"

lemma dtls_tested_set_callbacks_replaces_existing_holds: "dtls_tested_set_callbacks_replaces_existing"
  by code_simp

definition dtls_tested_set_remote_fingerprint_getter_round_trips :: bool where
  "dtls_tested_set_remote_fingerprint_getter_round_trips \<longleftrightarrow>
     (with_dtls Role_Active (\<lambda>dtls. DtlsTransport_remote_fingerprint dtls = None \<and>
         unwrap_then (fst (Certificate_generate_default sample_openssl ())) (\<lambda>other.
         expect_then (Certificate_fingerprint sample_openssl other FingerprintAlgorithm_Sha256) (\<lambda>r.
         unwrap_then r (\<lambda>fp.
           let dtls = DtlsTransport_set_remote_fingerprint fp dtls in
           expect_then (DtlsTransport_remote_fingerprint dtls) (\<lambda>round.
             fp_algorithm round = fp_algorithm fp \<and> fp_value round = fp_value fp))))))"

lemma dtls_tested_set_remote_fingerprint_getter_round_trips_holds: "dtls_tested_set_remote_fingerprint_getter_round_trips"
  by code_simp

definition dtls_tested_dtls_callbacks_getter_round_trips :: bool where
  "dtls_tested_dtls_callbacks_getter_round_trips \<longleftrightarrow>
     (with_dtls Role_Active (\<lambda>dtls.
         let snap = DtlsTransport_callbacks dtls in
         expect_then (call_dtls_state_change recording_env (dc_on_state_change snap) DtlsState_Connecting dtls) (\<lambda>dtls.
         expect_then (call_dtls_data recording_env (dc_on_data snap) [104, 101, 108, 108, 111] dtls) (\<lambda>dtls.
           length (filter (\<lambda>(c, s). c = 0) (rec_dtls_states dtls)) = 1 \<and>
           length (concat (map snd (filter (\<lambda>(c, d). c = 0) (rec_dtls_data dtls)))) = 5))))"

lemma dtls_tested_dtls_callbacks_getter_round_trips_holds: "dtls_tested_dtls_callbacks_getter_round_trips"
  by code_simp

section \<open>SCTP\<close>

record ('u, 'j, 'v, 'l, 'k) recorded_sctp = "('u, 'j, 'v, 'l, 'k) sctp" +
  rec_sctp_states :: "('k \<times> sctp_state) list"

definition recording_stack ::
    "(nat, toy_agent, unit, nat, toy_ssl, unit, unit, nat, nat, (nat, toy_agent, nat, toy_ssl, nat) recorded_sctp) sctp_env" where
  "recording_stack = \<lparr>se_dtls = toy_env,
     call_sctp_state_change = (\<lambda>k s w. Some (w\<lparr>rec_sctp_states := rec_sctp_states w @ [(k, s)]\<rparr>))\<rparr>"

definition with_sctp :: "((nat, toy_agent, nat, toy_ssl, nat) recorded_sctp \<Rightarrow> bool) \<Rightarrow> bool" where
  "with_sctp P =
     unwrap_then (make_ice Role_Active) (\<lambda>ice.
     unwrap_then (fst (Certificate_generate_default sample_openssl ())) (\<lambda>cert.
     unwrap_then (DtlsTransport_new toy_builder cert \<lparr>dc_on_state_change = DtlsUser 0, dc_on_data = DtlsUser 0\<rparr> ice
       :: (unit, unit) dtls_error + _) (\<lambda>dtls.
       P (sctp.extend (SctpTransport_new dtls
         \<lparr>sc_on_state_change = 0, sc_on_message = 0, sc_on_buffered_amount_low = 0\<rparr>) \<lparr>rec_sctp_states = []\<rparr>))))"

definition sample_message :: sctp_message where
  "sample_message = \<lparr>sm_stream = 0, sm_ppid = PayloadProtocolId_String, sm_data = [104, 101, 108, 108, 111]\<rparr>"

definition sctp_tested_new_starts_in_new_state :: bool where
  "sctp_tested_new_starts_in_new_state \<longleftrightarrow>
     (with_sctp (\<lambda>sctp. SctpTransport_state sctp = SctpState_New \<and>
         SctpTransport_local_port sctp = 5000 \<and> SctpTransport_remote_port sctp = 5000))"

lemma sctp_tested_new_starts_in_new_state_holds: "sctp_tested_new_starts_in_new_state"
  by code_simp

definition sctp_tested_connect_transitions_to_connecting :: bool where
  "sctp_tested_connect_transitions_to_connecting \<longleftrightarrow>
     (with_sctp (\<lambda>sctp. SctpTransport_state sctp = SctpState_New \<and>
         expect_then (SctpTransport_connect recording_stack sctp) (\<lambda>sctp.
           SctpTransport_state sctp = SctpState_Connecting \<and> SctpState_Connecting \<in> snd ` set (rec_sctp_states sctp))))"

lemma sctp_tested_connect_transitions_to_connecting_holds: "sctp_tested_connect_transitions_to_connecting"
  by code_simp

definition sctp_tested_connect_is_idempotent :: bool where
  "sctp_tested_connect_is_idempotent \<longleftrightarrow>
     (with_sctp (\<lambda>sctp.
         expect_then (SctpTransport_connect recording_stack sctp) (\<lambda>sctp.
         expect_then (SctpTransport_connect recording_stack sctp) (\<lambda>sctp.
           length (filter (\<lambda>(k, s). s = SctpState_Connecting) (rec_sctp_states sctp)) = 1 \<and>
           SctpTransport_state sctp = SctpState_Connecting))))"

lemma sctp_tested_connect_is_idempotent_holds: "sctp_tested_connect_is_idempotent"
  by code_simp

definition sctp_tested_send_before_connected_errors_not_connected :: bool where
  "sctp_tested_send_before_connected_errors_not_connected \<longleftrightarrow>
     (with_sctp (\<lambda>sctp.
         unwrap_err_then (SctpTransport_send sample_message Reliability_reliable sctp :: (unit, unit) sctp_error + unit)
           (\<lambda>err. err = SctpTransportError_NotConnected SctpState_New) \<and>
         expect_then (SctpTransport_connect recording_stack sctp) (\<lambda>sctp.
           unwrap_err_then (SctpTransport_send sample_message Reliability_reliable sctp :: (unit, unit) sctp_error + unit)
             (\<lambda>err. err = SctpTransportError_NotConnected SctpState_Connecting))))"

lemma sctp_tested_send_before_connected_errors_not_connected_holds: "sctp_tested_send_before_connected_errors_not_connected"
  by code_simp

definition sctp_tested_close_transitions_to_closed_and_is_idempotent :: bool where
  "sctp_tested_close_transitions_to_closed_and_is_idempotent \<longleftrightarrow>
     (with_sctp (\<lambda>sctp.
         call_then (SctpTransport_close recording_stack sctp :: (((unit, unit) sctp_error + unit) \<times> _) option) (\<lambda>sctp.
         call_then (SctpTransport_close recording_stack sctp :: (((unit, unit) sctp_error + unit) \<times> _) option) (\<lambda>sctp.
           SctpTransport_state sctp = SctpState_Closed \<and>
           length (filter (\<lambda>(k, s). s = SctpState_Closed) (rec_sctp_states sctp)) = 1))))"

lemma sctp_tested_close_transitions_to_closed_and_is_idempotent_holds: "sctp_tested_close_transitions_to_closed_and_is_idempotent"
  by code_simp

definition sctp_tested_send_after_close_errors_closed :: bool where
  "sctp_tested_send_after_close_errors_closed \<longleftrightarrow>
     (with_sctp (\<lambda>sctp.
         call_then (SctpTransport_close recording_stack sctp :: (((unit, unit) sctp_error + unit) \<times> _) option) (\<lambda>sctp.
           unwrap_err_then (SctpTransport_send sample_message Reliability_reliable sctp :: (unit, unit) sctp_error + unit)
             (\<lambda>err. err = SctpTransportError_Closed))))"

lemma sctp_tested_send_after_close_errors_closed_holds: "sctp_tested_send_after_close_errors_closed"
  by code_simp

definition sctp_tested_connect_after_close_is_noop :: bool where
  "sctp_tested_connect_after_close_is_noop \<longleftrightarrow>
     (with_sctp (\<lambda>sctp.
         call_then (SctpTransport_close recording_stack sctp :: (((unit, unit) sctp_error + unit) \<times> _) option) (\<lambda>sctp.
         expect_then (SctpTransport_connect recording_stack sctp) (\<lambda>sctp. SctpTransport_state sctp = SctpState_Closed))))"

lemma sctp_tested_connect_after_close_is_noop_holds: "sctp_tested_connect_after_close_is_noop"
  by code_simp

definition sctp_tested_payload_protocol_id_round_trips :: bool where
  "sctp_tested_payload_protocol_id_round_trips \<longleftrightarrow>
     (list_all (\<lambda>ppid. let raw = PayloadProtocolId_value ppid in PayloadProtocolId_from_u32 raw = Some ppid)
        [PayloadProtocolId_Control, PayloadProtocolId_String, PayloadProtocolId_Binary, PayloadProtocolId_StringEmpty,
         PayloadProtocolId_BinaryEmpty, PayloadProtocolId_StringPartial, PayloadProtocolId_BinaryPartial] \<and>
      PayloadProtocolId_value PayloadProtocolId_Control = 50 \<and>
      PayloadProtocolId_value PayloadProtocolId_Binary = 53 \<and>
      PayloadProtocolId_from_u32 99 = None)"

lemma sctp_tested_payload_protocol_id_round_trips_holds: "sctp_tested_payload_protocol_id_round_trips"
  by code_simp

section \<open>Reliability\<close>

definition reliability_default_is_fully_reliable :: bool where
  "reliability_default_is_fully_reliable \<longleftrightarrow>
     (let r = Reliability_default in
      r_typ r = ReliabilityType_Reliable \<and> r_rexmit r = 0 \<and> \<not> r_unordered r \<and>
      r = Reliability_new \<and> r = Reliability_reliable)"

lemma reliability_default_is_fully_reliable_holds: "reliability_default_is_fully_reliable"
  by code_simp

definition reliability_unreliable_retransmits_sets_rexmit_type_and_value :: bool where
  "reliability_unreliable_retransmits_sets_rexmit_type_and_value \<longleftrightarrow>
     (let r = Reliability_unreliable_retransmits 5 in
      r_typ r = ReliabilityType_Rexmit \<and> r_rexmit r = 5 \<and> \<not> r_unordered r)"

lemma reliability_unreliable_retransmits_sets_rexmit_type_and_value_holds: "reliability_unreliable_retransmits_sets_rexmit_type_and_value"
  by code_simp

definition reliability_unreliable_timed_sets_timed_type_and_lifetime :: bool where
  "reliability_unreliable_timed_sets_timed_type_and_lifetime \<longleftrightarrow>
     (let r = Reliability_unreliable_timed 2500 in
      r_typ r = ReliabilityType_Timed \<and> r_rexmit r = 2500 \<and> \<not> r_unordered r)"

lemma reliability_unreliable_timed_sets_timed_type_and_lifetime_holds: "reliability_unreliable_timed_sets_timed_type_and_lifetime"
  by code_simp

definition reliability_unordered_flag_is_independent_of_type :: bool where
  "reliability_unordered_flag_is_independent_of_type \<longleftrightarrow>
     ((let r = (Reliability_unreliable_retransmits 3)\<lparr>r_unordered := True\<rparr> in
       r_unordered r \<and> r_typ r = ReliabilityType_Rexmit) \<and>
      (let r = Reliability_reliable\<lparr>r_unordered := True\<rparr> in
       r_unordered r \<and> r_typ r = ReliabilityType_Reliable))"

lemma reliability_unordered_flag_is_independent_of_type_holds: "reliability_unordered_flag_is_independent_of_type"
  by code_simp

definition reliability_clone_eq :: bool where
  "reliability_clone_eq \<longleftrightarrow>
     (let r = Reliability_unreliable_timed 1000; copy = r in r = copy \<and> r = r)"

lemma reliability_clone_eq_holds: "reliability_clone_eq"
  by code_simp

definition reliability_reliable_resets_to_defaults :: bool where
  "reliability_reliable_resets_to_defaults \<longleftrightarrow>
     (let r = (Reliability_unreliable_retransmits 10)\<lparr>r_unordered := True\<rparr>; r = Reliability_reliable in
      r_typ r = ReliabilityType_Reliable \<and> r_rexmit r = 0 \<and> \<not> r_unordered r)"

lemma reliability_reliable_resets_to_defaults_holds: "reliability_reliable_resets_to_defaults"
  by code_simp

definition reliability_type_as_str_tokens :: bool where
  "reliability_type_as_str_tokens \<longleftrightarrow>
     (ReliabilityType_as_str ReliabilityType_Reliable = ''reliable'' \<and>
      ReliabilityType_as_str ReliabilityType_Rexmit = ''rexmit'' \<and>
      ReliabilityType_as_str ReliabilityType_Timed = ''timed'')"

lemma reliability_type_as_str_tokens_holds: "reliability_type_as_str_tokens"
  by code_simp

end
