(* ===== verification/Loopback_Tests.thy ===== *)
theory Loopback_Tests
  imports Transport_Tests Certificate_Tests Handshake
begin

text \<open>
  The loopback tests of the transports: two peers in one process, from gathering to data. The agents and their
  driver tasks are a sample: an agent that is asked to gather finds one host candidate, and two agents that know each
  other's description and a candidate get connected. Where a test sleeps until something has happened the driver is
  run, and a flag that a callback sets is looked up in the record of the events. DTLS is the sample of \<open>Handshake\<close>
  and the datagrams are carried by \<open>shuttle\<close>; the server is told of ICE before the client.
\<close>

section \<open>The agents\<close>

record loop_agent =
  la_name :: str
  la_port :: str
  la_gathered :: bool
  la_remote :: "str option"
  la_remote_candidates :: "str list"
  la_remote_done :: bool
  la_up :: bool
  la_sent :: "bytes list"

definition loop_agent_new :: "str \<Rightarrow> str \<Rightarrow> loop_agent" where
  "loop_agent_new name port = \<lparr>la_name = name, la_port = port, la_gathered = False, la_remote = None,
     la_remote_candidates = [], la_remote_done = False, la_up = False, la_sent = []\<rparr>"

definition loop_candidate :: "loop_agent \<Rightarrow> str" where
  "loop_candidate j = ''a=candidate:1 1 UDP 2122252543 127.0.0.1 '' @ la_port j @ '' typ host''"

definition loop_description :: "loop_agent \<Rightarrow> str" where
  "loop_description j = ''a=ice-ufrag:'' @ la_name j @ crlf @ ''a=ice-pwd:'' @ la_name j @ crlf @
     (if la_gathered j then loop_candidate j @ crlf @ ''a=end-of-candidates'' @ crlf else [])"

definition loop_juice :: "('c, loop_agent, juice_error, 's) ice_env" where
  "loop_juice = \<lparr>call_state_change = (\<lambda>_ _. Some), call_gathering_state_change = (\<lambda>_ _. Some),
     call_candidate = (\<lambda>_ _. Some), call_data = (\<lambda>_ _. Some),
     juice_gather_candidates = (\<lambda>j. (Inr (), j\<lparr>la_gathered := True\<rparr>)),
     juice_get_local_description = (\<lambda>j. (Inr (loop_description j), j)),
     juice_set_remote_description = (\<lambda>j d. (Inr (), j\<lparr>la_remote := Some d\<rparr>)),
     juice_add_remote_candidate = (\<lambda>j c. (Inr (), j\<lparr>la_remote_candidates := la_remote_candidates j @ [c]\<rparr>)),
     juice_set_remote_gathering_done = (\<lambda>j. (Inr (), j\<lparr>la_remote_done := True\<rparr>)),
     juice_send = (\<lambda>j data. if la_up j then (Inr (), j\<lparr>la_sent := la_sent j @ [data]\<rparr>) else (Inl NotAvailable, j)),
     juice_get_selected_candidates = (\<lambda>j. (if la_up j then Inr (loop_candidate j, hd (la_remote_candidates j)) else Inl NotAvailable, j)),
     juice_get_selected_addresses = (\<lambda>j. (if la_up j then Inr (''127.0.0.1'', ''127.0.0.1'') else Inl NotAvailable, j))\<rparr>"

text \<open>The driver tasks: of one agent that gathers, and of two that try each other's candidates.\<close>

definition loop_gathers ::
    "('c, loop_agent, 'e, ('c, loop_agent, 'z) ice_scheme) ice_env \<Rightarrow> ('c, loop_agent, 'z) ice_scheme \<Rightarrow> ('c, loop_agent, 'z) ice_scheme option" where
  "loop_gathers env w =
     (if la_gathered (ice_agent w)
      then run_all (run_ice env) [Op_on_juice_state Juice_Gathering, Op_on_juice_candidate (loop_candidate (ice_agent w)),
             Op_on_juice_gathering_done] w
      else Some w)"

definition loop_ready :: "loop_agent \<Rightarrow> bool" where
  "loop_ready j \<longleftrightarrow> la_gathered j \<and> la_remote j \<noteq> None \<and> la_remote_candidates j \<noteq> []"

definition loop_connects ::
    "('c, loop_agent, 'e, ('c, loop_agent, 'z) ice_scheme) ice_env \<Rightarrow> ('c, loop_agent, 'z) ice_scheme \<Rightarrow> ('c, loop_agent, 'z) ice_scheme option" where
  "loop_connects env w = run_all (run_ice env) (map Op_on_juice_state [Juice_Connecting, Juice_Connected, Juice_Completed])
     (w\<lparr>ice_agent := (ice_agent w)\<lparr>la_up := True\<rparr>\<rparr>)"

section \<open>Pairing\<close>

definition fetch_then :: "('e + 'a) \<times> 's \<Rightarrow> ('a \<Rightarrow> 's \<Rightarrow> bool) \<Rightarrow> bool" where
  "fetch_then r P = (case r of (Inr x, w) \<Rightarrow> P x w | _ \<Rightarrow> False)"

fun each_then :: "('x \<Rightarrow> 's \<Rightarrow> ('e + 'a) \<times> 's) \<Rightarrow> 'x list \<Rightarrow> 's \<Rightarrow> ('s \<Rightarrow> bool) \<Rightarrow> bool" where
  "each_then f [] w P = P w"
| "each_then f (x # xs) w P = fetch_then (f x w) (\<lambda>_ w. each_then f xs w P)"

text \<open>
  The steps that every loopback test goes through: \<open>complete\<close> is what the test waits for after \<open>gather\<close>, \<open>seen\<close> the
  candidates that \<open>on_candidate\<close> has pushed.
\<close>

definition paired_then ::
    "('c, loop_agent, juice_error, ('c, loop_agent, 'z) ice_scheme) ice_env \<Rightarrow> (('c, loop_agent, 'z) ice_scheme \<Rightarrow> bool) \<Rightarrow>
       (('c, loop_agent, 'z) ice_scheme \<Rightarrow> candidate list) \<Rightarrow> ('c, loop_agent, 'z) ice_scheme \<Rightarrow> ('c, loop_agent, 'z) ice_scheme \<Rightarrow>
       (('c, loop_agent, 'z) ice_scheme \<Rightarrow> ('c, loop_agent, 'z) ice_scheme \<Rightarrow> bool) \<Rightarrow> bool" where
  "paired_then env complete seen a b P =
     call_then (IceTransport_gather env a) (\<lambda>a. expect_then (loop_gathers env a) (\<lambda>a. complete a \<and>
     fetch_then (IceTransport_get_local_description env None Type_Offer a) (\<lambda>desc_a a.
     fetch_then (IceTransport_set_remote_description env desc_a b) (\<lambda>_ b.
     call_then (IceTransport_gather env b) (\<lambda>b. expect_then (loop_gathers env b) (\<lambda>b. complete b \<and>
     fetch_then (IceTransport_get_local_description env None Type_Answer b) (\<lambda>desc_b b.
     fetch_then (IceTransport_set_remote_description env desc_b a) (\<lambda>_ a.
     each_then (IceTransport_add_remote_candidate env) (seen a) b (\<lambda>b.
     each_then (IceTransport_add_remote_candidate env) (seen b) a (\<lambda>a.
     fetch_then (IceTransport_set_remote_end_of_candidates env a) (\<lambda>_ a.
     fetch_then (IceTransport_set_remote_end_of_candidates env b) (\<lambda>_ b.
     loop_ready (ice_agent a) \<and> loop_ready (ice_agent b) \<and>
     expect_then (loop_connects env a) (\<lambda>a. expect_then (loop_connects env b) (\<lambda>b. P a b))))))))))))))"

section \<open>ICE\<close>

abbreviation loop_ice :: "(nat, loop_agent, juice_error, (nat, loop_agent) ice_logged) ice_env" where
  "loop_ice \<equiv> scripted loop_juice (\<lambda>_ _ _. []) (Suc 0)"

definition loop_construct :: "loop_agent \<Rightarrow> role \<Rightarrow> juice_error ice_error + (nat, loop_agent) ice_logged" where
  "loop_construct agent rl =
     try_res (IceTransport_new (idle_builder agent) loopback rl (numbered_callbacks 0)) (\<lambda>w. Inr (ice.extend w \<lparr>ice_log = []\<rparr>))"

fun seen_states :: "ice_event list \<Rightarrow> ice_state list" where
  "seen_states [] = []"
| "seen_states (Ev_state s # es) = s # seen_states es"
| "seen_states (e # es) = seen_states es"

fun seen_candidates :: "ice_event list \<Rightarrow> candidate list" where
  "seen_candidates [] = []"
| "seen_candidates (Ev_candidate c # es) = c # seen_candidates es"
| "seen_candidates (e # es) = seen_candidates es"

definition ice_state_callback_fires_on_gather :: bool where
  "ice_state_callback_fires_on_gather \<longleftrightarrow>
     (unwrap_then (loop_construct (loop_agent_new ''a'' ''5001'') Role_ActPass) (\<lambda>t.
        call_then (IceTransport_gather loop_ice t) (\<lambda>t.
          expect_then (loop_gathers loop_ice t) (\<lambda>t. seen_states (ice_log t) \<noteq> []))))"

lemma ice_state_callback_fires_on_gather_holds: "ice_state_callback_fires_on_gather"
  by code_simp

definition ice_gather_emits_at_least_one_local_candidate :: bool where
  "ice_gather_emits_at_least_one_local_candidate \<longleftrightarrow>
     (unwrap_then (loop_construct (loop_agent_new ''a'' ''5001'') Role_ActPass) (\<lambda>t.
        call_then (IceTransport_gather loop_ice t) (\<lambda>t.
          expect_then (loop_gathers loop_ice t) (\<lambda>t. length (seen_candidates (ice_log t)) > 0))))"

lemma ice_gather_emits_at_least_one_local_candidate_holds: "ice_gather_emits_at_least_one_local_candidate"
  by code_simp

definition ice_two_transports_handshake_to_connected :: bool where
  "ice_two_transports_handshake_to_connected \<longleftrightarrow>
     (unwrap_then (loop_construct (loop_agent_new ''a'' ''5001'') Role_ActPass) (\<lambda>a.
      unwrap_then (loop_construct (loop_agent_new ''b'' ''5002'') Role_Active) (\<lambda>b.
      paired_then loop_ice
        (\<lambda>w. case juice_get_local_description loop_ice (ice_agent w) of
           (Inr s, j) \<Rightarrow> str_contains s ''end-of-candidates'' | _ \<Rightarrow> False)
        (\<lambda>w. seen_candidates (ice_log w)) a b (\<lambda>a b.
          list_ex (\<lambda>s. s \<in> {State_Connected, State_Completed}) (seen_states (ice_log a)) \<and>
          list_ex (\<lambda>s. s \<in> {State_Connected, State_Completed}) (seen_states (ice_log b)) \<and>
          fetch_then (IceTransport_get_selected_pair loop_ice a) (\<lambda>_ a.
          fetch_then (IceTransport_get_selected_pair loop_ice b) (\<lambda>_ b. True))))))"

lemma ice_two_transports_handshake_to_connected_holds: "ice_two_transports_handshake_to_connected"
  by code_simp

text \<open>The helper of the DTLS tests, which waits for \<open>Complete\<close> but does not insist on it.\<close>

definition pair_ice_loopback :: "((nat, loop_agent) ice_logged \<Rightarrow> (nat, loop_agent) ice_logged \<Rightarrow> bool) \<Rightarrow> bool" where
  "pair_ice_loopback P =
     unwrap_then (loop_construct (loop_agent_new ''a'' ''5001'') Role_ActPass) (\<lambda>a.
     unwrap_then (loop_construct (loop_agent_new ''b'' ''5002'') Role_Active) (\<lambda>b.
     paired_then loop_ice (\<lambda>_. True) (\<lambda>w. seen_candidates (ice_log w)) a b (\<lambda>a b.
       list_ex (\<lambda>s. s \<in> {State_Connected, State_Completed}) (seen_states (ice_log a)) \<and>
       list_ex (\<lambda>s. s \<in> {State_Connected, State_Completed}) (seen_states (ice_log b)) \<and> P a b)))"

lemma pair_ice_loopback_holds: "pair_ice_loopback (\<lambda>a b. IceTransport_role a = Role_Passive \<and> IceTransport_role b = Role_Active)"
  by code_simp

section \<open>DTLS over ICE\<close>

text \<open>
  The context of a side is the number of its certificate, the handle that the sample OpenSSL makes it under; the
  callbacks of the tests push what they are called with, which is the record of the events.
\<close>

definition pair_builder :: "(nat, pair_ssl, nat, unit) ssl_builder" where
  "pair_builder = \<lparr>SslContextBuilder_new_dtls = Inr 0, ctx_set_options = (\<lambda>_ x. x), ctx_set_cipher_list = (\<lambda>_ x. Inr x),
     ctx_set_verify = (\<lambda>_ x. x), ctx_set_certificate = (\<lambda>c _. Inr c), ctx_set_private_key = (\<lambda>_ x. Inr x),
     ctx_check_private_key = (\<lambda>_. Inr ()), Ssl_new = (\<lambda>c. Inr (pair_new False c)),
     SSL_set_connect_state = (\<lambda>l. l\<lparr>ps_server := False\<rparr>), SSL_set_accept_state = (\<lambda>l. l\<lparr>ps_server := True\<rparr>),
     BIO_new_in = Some (), BIO_new_out = Some (), SSL_set_bio = (\<lambda>_ l. l)\<rparr>"

type_synonym loop_dtls = "(nat, loop_agent, nat, pair_ssl) dtls_logged"

abbreviation loop_env :: "(nat, loop_agent, juice_error, nat, pair_ssl, nat, unit, nat, loop_dtls) dtls_env" where
  "loop_env \<equiv> quiet (pair_env numbered_openssl loop_juice)"

definition construct_loop_dtls :: "loop_agent \<Rightarrow> role \<Rightarrow> nat certificate \<Rightarrow> (loop_dtls \<Rightarrow> bool) \<Rightarrow> bool" where
  "construct_loop_dtls agent rl cert P =
     unwrap_then (IceTransport_new (idle_builder agent) loopback rl
       \<lparr>on_state_change = IceUser 0, on_gathering_state_change = IceUser 0, on_candidate = IceUser 0, on_data = IceUser 0\<rparr>
       :: juice_error ice_error + _) (\<lambda>ice.
     unwrap_then (DtlsTransport_new pair_builder cert (numbered_dtls_callbacks 0) ice :: (unit, juice_error) dtls_error + _) (\<lambda>w.
       P (dtls.extend w \<lparr>dtls_log = []\<rparr>)))"

definition generated_then :: "nat \<Rightarrow> (nat certificate \<Rightarrow> fingerprint \<Rightarrow> nat \<Rightarrow> bool) \<Rightarrow> bool" where
  "generated_then w P = fetch_then (Certificate_generate_default numbered_openssl w) (\<lambda>cert w.
     expect_then (Certificate_fingerprint numbered_openssl cert FingerprintAlgorithm_Sha256) (\<lambda>r.
     unwrap_then r (\<lambda>fp. P cert fp w)))"

text \<open>Two sides with their certificates, the fingerprints of these and of a third one, not yet paired.\<close>

definition loop_pair :: "(loop_dtls \<Rightarrow> loop_dtls \<Rightarrow> fingerprint \<Rightarrow> fingerprint \<Rightarrow> fingerprint \<Rightarrow> bool) \<Rightarrow> bool" where
  "loop_pair P =
     generated_then 0 (\<lambda>cert_a fp_a w. generated_then w (\<lambda>cert_b fp_b w. generated_then w (\<lambda>cert_decoy fp_decoy w.
     construct_loop_dtls (loop_agent_new ''a'' ''5001'') Role_ActPass cert_a (\<lambda>a.
     construct_loop_dtls (loop_agent_new ''b'' ''5002'') Role_Active cert_b (\<lambda>b. P a b fp_a fp_b fp_decoy)))))"

fun logged_candidates :: "dtls_event list \<Rightarrow> candidate list" where
  "logged_candidates [] = []"
| "logged_candidates (Ev_ice (Ev_candidate c) # es) = c # logged_candidates es"
| "logged_candidates (e # es) = logged_candidates es"

fun logged_data :: "dtls_event list \<Rightarrow> bytes" where
  "logged_data [] = []"
| "logged_data (Ev_dtls_data d # es) = d @ logged_data es"
| "logged_data (e # es) = logged_data es"

text \<open>ICE is driven to Connected on both sides, then the network carries the datagrams until nobody has sent anything new.\<close>

definition drive_loop :: "loop_dtls \<Rightarrow> loop_dtls \<Rightarrow> (loop_dtls \<Rightarrow> loop_dtls \<Rightarrow> bool) \<Rightarrow> bool" where
  "drive_loop a b P =
     paired_then (stack_ice loop_env) (\<lambda>w. IceTransport_gathering_state w = GatheringState_Complete)
       (\<lambda>w. logged_candidates (dtls_log w)) a b (\<lambda>a b.
     expect_then (shuttle loop_env la_sent 9 b a 0) (\<lambda>(b, a). P a b))"

definition sent_then :: "loop_dtls \<Rightarrow> loop_dtls \<Rightarrow> bytes \<Rightarrow> (loop_dtls \<Rightarrow> loop_dtls \<Rightarrow> bool) \<Rightarrow> bool" where
  "sent_then x y data P =
     call_then (DtlsTransport_send loop_env data x) (\<lambda>x'.
     expect_then (shuttle loop_env la_sent 9 x' y (length (la_sent (ice_agent x)))) (\<lambda>(x, y). P x y))"

section \<open>How they run\<close>

text \<open>The certificates are the handles 4, 13 and 22.\<close>

lemma generate_numbered:
  "Certificate_generate_default numbered_openssl w = (Inr \<lparr>cert_x509 = w + 4, cert_pkey = w + 2\<rparr>, w + 9)"
  by (simp add: Certificate_generate_default_def Certificate_generate_def Certificate_generate_ecdsa_def build_self_signed_def
      numbered_openssl_def fresh_handle_def ossl_bind_def ossl_return_def Let_def)

lemma numbered_digest: "X509_digest numbered_openssl = X509_digest sample_openssl"
  by (simp add: numbered_openssl_def Let_def)

lemma numbered_fingerprint:
  "Certificate_fingerprint numbered_openssl \<lparr>cert_x509 = c, cert_pkey = k\<rparr> FingerprintAlgorithm_Sha256 = Some (Inr (pair_pin c))"
  using sample_digest [of c FingerprintAlgorithm_Sha256] by (auto simp: Certificate_fingerprint_eq pair_pin_def numbered_digest)

lemma generated_pin: "generated_then w P = P \<lparr>cert_x509 = w + 4, cert_pkey = w + 2\<rparr> (pair_pin (w + 4)) (w + 9)"
  by (simp only: generated_then_def generate_numbered fetch_then_def expect_then_def unwrap_then_def numbered_fingerprint
      prod.case sum.case option.case)

lemma numbered_verify:
  "verify_callback numbered_openssl None ok x = Some False"
  "verify_callback numbered_openssl (Some (pair_pin d)) ok (Some c) = Some ((of_nat c :: 8 word) = of_nat d)"
  using sample_digest [of c FingerprintAlgorithm_Sha256]
  by (auto simp: verify_callback_eq pair_pin_def fingerprint_str_upper numbered_digest fingerprint_str_inj)

definition loop_side :: "loop_agent \<Rightarrow> role \<Rightarrow> nat \<Rightarrow> loop_dtls" where
  "loop_side agent rl cert = \<lparr>ice_agent = agent, ice_role = rl, ice_state = State_New,
     ice_gathering = GatheringState_New, ice_mid = ''0'',
     ice_callbacks = \<lparr>on_state_change = DtlsAutoStart (IceUser 0), on_gathering_state_change = IceUser 0,
       on_candidate = IceUser 0, on_data = IceUser 0\<rparr>, ice_closed = False,
     dtls_ssl = pair_new (rl \<noteq> Role_Active) cert, dtls_handshake_done = False, dtls_locked = False, dtls_state = DtlsState_New,
     dtls_callbacks = numbered_dtls_callbacks 0, dtls_closed = False, dtls_is_client = (rl = Role_Active),
     dtls_expected = None, dtls_started = False, dtls_log = []\<rparr>"

lemma bound_ice:
  "IceTransport_new (idle_builder agent) loopback rl cs = Inr (initial_ice agent rl cs)"
proof -
  have ip: "isl (ok_or (map_option Some (parse_ip ''127.0.0.1'')) ()) = False" by code_simp
  then obtain i where "parse_ip ''127.0.0.1'' = Some i" by (auto simp: ok_or_def split: option.splits)
  then show ?thesis
    by (simp add: IceTransport_new_def loopback_def Configuration_new_def idle_builder_def ok_or_def initial_ice_def map_juice_err_def Let_def)
qed

lemma construct_side:
  "construct_loop_dtls agent rl \<lparr>cert_x509 = c, cert_pkey = k\<rparr> P = P (loop_side agent rl c)"
  by (simp add: construct_loop_dtls_def bound_ice unwrap_then_def DtlsTransport_new_def build_ssl_context_def
      pair_builder_def ossl_err_def ok_or_def Let_def initial_ice_def IceTransport_set_callbacks_def ice.defs dtls.defs loop_side_def pair_new_def)

text \<open>Evaluation stops at a continuation until its argument is a value.\<close>

lemma eval_congs:
  "r = r' \<Longrightarrow> expect_then r P = expect_then r' P" "q = q' \<Longrightarrow> call_then q Q = call_then q' Q"
  "s = s' \<Longrightarrow> fetch_then s R = fetch_then s' R" "t = t' \<Longrightarrow> Option.bind t f = Option.bind t' f"
  "u = u' \<Longrightarrow> Let u g = Let u' g"
  by simp_all

lemma eval_thens:
  "expect_then (Some x) P = P x" "call_then (Some (Inr y, w)) Q = Q w" "fetch_then (Inr z, v) R = R z v"
  by (simp_all add: expect_then_def call_then_def fetch_then_def)

definition host_a :: candidate where
  "host_a = projr (Candidate_parse (loop_candidate (loop_agent_new ''a'' ''5001'')) ''0'')"

definition host_b :: candidate where
  "host_b = projr (Candidate_parse (loop_candidate (loop_agent_new ''b'' ''5002'')) ''0'')"

lemma host_parsed:
  "Candidate_parse (loop_candidate (loop_agent_new ''a'' ''5001'')) ''0'' = Inr host_a"
  "Candidate_parse (loop_candidate (loop_agent_new ''b'' ''5002'')) ''0'' = Inr host_b"
proof -
  have "\<not> isl (Candidate_parse (loop_candidate (loop_agent_new ''a'' ''5001'')) ''0'')"
    "\<not> isl (Candidate_parse (loop_candidate (loop_agent_new ''b'' ''5002'')) ''0'')" by code_simp+
  then show "Candidate_parse (loop_candidate (loop_agent_new ''a'' ''5001'')) ''0'' = Inr host_a"
  "Candidate_parse (loop_candidate (loop_agent_new ''b'' ''5002'')) ''0'' = Inr host_b"
    by (simp_all add: host_a_def host_b_def)
qed

lemma host_resolved: "Candidate_is_resolved host_a" "Candidate_is_resolved host_b"
  by code_simp+

lemma loop_candidate_port: "loop_candidate j = loop_candidate (loop_agent_new (la_name j) (la_port j))"
  by (simp add: loop_candidate_def loop_agent_new_def)

lemma creds:
  "extract_ice_creds (loop_description ((loop_agent_new ''a'' ''5001'')\<lparr>la_gathered := True\<rparr>)) = (Some ''a'', Some ''a'')"
  "extract_ice_creds (loop_description ((loop_agent_new ''b'' ''5002'')\<lparr>la_gathered := True\<rparr>)) = (Some ''b'', Some ''b'')"
  by code_simp+

lemma loop_description_gathered:
  "la_gathered j \<Longrightarrow> loop_description j = loop_description ((loop_agent_new (la_name j) (la_port j))\<lparr>la_gathered := True\<rparr>)"
  by (simp add: loop_description_def loop_agent_new_def loop_candidate_def)

definition loop_desc :: "sdp_type \<Rightarrow> role \<Rightarrow> str \<Rightarrow> description" where
  "loop_desc typ rl s = Description_add_ice_option (Description_set_application (Description_set_ice_pwd
     (Description_set_ice_ufrag (Description_new None typ rl) s) s) (Application_new ''0'')) ''trickle''"

lemma loop_desc_fields: "d_role (loop_desc typ rl s) = rl" "Description_bundle_mid (loop_desc typ rl s) = ''0''"
  by (simp_all add: loop_desc_def Description_new_def Description_set_ice_ufrag_def Description_set_ice_pwd_def
      Description_set_application_def Application_new_def Description_add_ice_option_def Description_bundle_mid_def Let_def)

abbreviation loop_stack :: "(nat ice_closure, loop_agent, juice_error, loop_dtls) ice_env" where
  "loop_stack \<equiv> stack_ice loop_env"

lemma loop_stack_calls [simp]:
  "juice_gather_candidates loop_stack j = (Inr (), j\<lparr>la_gathered := True\<rparr>)"
  "juice_get_local_description loop_stack j = (Inr (loop_description j), j)"
  "juice_set_remote_description loop_stack j d = (Inr (), j\<lparr>la_remote := Some d\<rparr>)"
  "juice_add_remote_candidate loop_stack j sdp = (Inr (), j\<lparr>la_remote_candidates := la_remote_candidates j @ [sdp]\<rparr>)"
  "juice_set_remote_gathering_done loop_stack j = (Inr (), j\<lparr>la_remote_done := True\<rparr>)"
  "call_gathering_state_change loop_stack c g w = Some (log_dtls (Ev_ice (Ev_gathering g)) w)"
  "call_candidate loop_stack c cand w = Some (log_dtls (Ev_ice (Ev_candidate cand)) w)"
  "call_state_change loop_stack c s w = run_ice_state loop_env c s w"
  "call_data loop_stack c bs w = run_ice_data loop_env c bs w"
  by (simp_all only: stack_ice_def ice_env.simps ice_env.update_convs ice_env.select_convs) (simp_all add: scripted_dtls.simps pair_env_def Let_def loop_juice_def)

lemma local_description:
  assumes "la_gathered (ice_agent w)" "ice_mid w = ''0''"
    and "(la_name (ice_agent w), la_port (ice_agent w)) \<in> {(''a'', ''5001''), (''b'', ''5002'')}"
  shows "IceTransport_get_local_description loop_stack None typ w =
    (Inr (loop_desc typ (if typ = Type_Offer then Role_ActPass else ice_role w) (la_name (ice_agent w))), w)"
proof -
  have "extract_ice_creds (loop_description (ice_agent w)) = (Some (la_name (ice_agent w)), Some (la_name (ice_agent w)))"
    using assms(3) creds by (auto simp: loop_description_gathered [OF assms(1)])
  with assms(2) show ?thesis
    by (simp add: IceTransport_get_local_description_def map_juice_err_def loop_desc_def)
qed

lemma gathers:
  assumes "\<not> ice_closed w" "ice_gathering w = GatheringState_New" "ice_mid w = ''0''"
    and "(la_name (ice_agent w), la_port (ice_agent w), c) \<in> {(''a'', ''5001'', host_a), (''b'', ''5002'', host_b)}"
    and "ice_state w = State_New" "on_state_change (ice_callbacks w) = DtlsAutoStart (IceUser 0)"
  shows "call_then (IceTransport_gather loop_stack w) (\<lambda>w. expect_then (loop_gathers loop_stack w) P) =
    P (w\<lparr>ice_agent := (ice_agent w)\<lparr>la_gathered := True\<rparr>, ice_state := State_Checking, ice_gathering := GatheringState_Complete,
      dtls_log := dtls_log w @ [Ev_ice (Ev_gathering GatheringState_InProgress), Ev_ice (Ev_state State_Checking), Ev_ice (Ev_candidate c),
        Ev_ice (Ev_gathering GatheringState_Complete)]\<rparr>)"
proof -
  have "Candidate_parse (loop_candidate ((ice_agent w)\<lparr>la_gathered := True\<rparr>)) ''0'' = Inr c"
    using assms(4) host_parsed by (auto simp: loop_candidate_port [of "(ice_agent w)\<lparr>la_gathered := True\<rparr>"])
  with assms show ?thesis
    by (simp add: IceTransport_gather_def fire_gathering_state_change_def call_then_def expect_then_def loop_gathers_def log_dtls_def
        map_juice_err_def Bridge_on_juice_state_def fire_state_change_def auto_start_def Bridge_on_juice_candidate_def
        Bridge_on_juice_gathering_done_def run_script_def Let_def)
qed

text \<open>The side that \<open>paired_then\<close> makes ready, and the same after ICE has come up.\<close>

definition loop_ready_side :: "str \<Rightarrow> str \<Rightarrow> role \<Rightarrow> candidate \<Rightarrow> description \<Rightarrow> candidate \<Rightarrow> loop_dtls \<Rightarrow> loop_dtls" where
  "loop_ready_side name port rl own desc host w = w\<lparr>
     ice_agent := \<lparr>la_name = name, la_port = port, la_gathered = True, la_remote = Some (Description_to_sdp desc),
       la_remote_candidates = [Candidate_to_sdp host], la_remote_done = True, la_up = False, la_sent = []\<rparr>,
     ice_role := rl, ice_state := State_Checking, ice_gathering := GatheringState_Complete,
     dtls_log := [Ev_ice (Ev_gathering GatheringState_InProgress), Ev_ice (Ev_state State_Checking), Ev_ice (Ev_candidate own),
       Ev_ice (Ev_gathering GatheringState_Complete)]\<rparr>"

abbreviation side_a :: "fingerprint option \<Rightarrow> loop_dtls" where
  "side_a pin \<equiv> (loop_side (loop_agent_new ''a'' ''5001'') Role_ActPass 4)\<lparr>dtls_expected := pin\<rparr>"

abbreviation side_b :: "fingerprint option \<Rightarrow> loop_dtls" where
  "side_b pin \<equiv> (loop_side (loop_agent_new ''b'' ''5002'') Role_Active 13)\<lparr>dtls_expected := pin\<rparr>"

lemma drive_loop_ready:
  "drive_loop (side_a p) (side_b q) P =
     (let a = loop_ready_side ''a'' ''5001'' Role_Passive host_a (loop_desc Type_Answer Role_Active ''b'') host_b (side_a p);
          b = loop_ready_side ''b'' ''5002'' Role_Active host_b (loop_desc Type_Offer Role_ActPass ''a'') host_a (side_b q)
      in expect_then (loop_connects loop_stack a) (\<lambda>a. expect_then (loop_connects loop_stack b) (\<lambda>b.
         expect_then (shuttle loop_env la_sent 9 b a 0) (\<lambda>(b, a). P a b))))"
  by (simp add: drive_loop_def paired_then_def eval_thens gathers [where c = host_a] gathers [where c = host_b] local_description
      loop_ready_side_def loop_side_def loop_agent_new_def IceTransport_gathering_state_def
      IceTransport_set_remote_description_def loop_desc_fields resolve_role_def IceTransport_add_remote_candidate_def
      host_resolved IceTransport_set_remote_end_of_candidates_def map_juice_err_def loop_ready_def Let_def cong: eval_congs)

lemma loop_send [simp]:
  "juice_send loop_juice j data = (if la_up j then (Inr (), j\<lparr>la_sent := la_sent j @ [data]\<rparr>) else (Inl NotAvailable, j))"
  by (simp add: loop_juice_def)

lemma loop_recv: "\<not> ice_closed w \<Longrightarrow> Bridge_on_juice_recv loop_stack d w = run_ice_data loop_env (on_data (ice_callbacks w)) d w"
  by (simp add: Bridge_on_juice_recv_def)

lemma pair_steps:
  "pair_handshake v \<lparr>ps_server = False, ps_cert = c, ps_stage = Idle, ps_in = [], ps_out = []\<rparr> =
    (-1, \<lparr>ps_server = False, ps_cert = c, ps_stage = Hello_sent, ps_in = [], ps_out = [1]\<rparr>)"
  "pair_handshake v \<lparr>ps_server = True, ps_cert = c, ps_stage = Idle, ps_in = [1], ps_out = []\<rparr> =
    (-1, \<lparr>ps_server = True, ps_cert = c, ps_stage = Hello_sent, ps_in = [], ps_out = [2, of_nat c]\<rparr>)"
  "pair_handshake v \<lparr>ps_server = False, ps_cert = c, ps_stage = Hello_sent, ps_in = [2, d], ps_out = []\<rparr> =
    (if v False (Some (unat d)) = Some True then (-1, \<lparr>ps_server = False, ps_cert = c, ps_stage = Certificate_sent, ps_in = [], ps_out = [3, of_nat c]\<rparr>)
     else (-2, \<lparr>ps_server = False, ps_cert = c, ps_stage = Broken, ps_in = [], ps_out = [21]\<rparr>))"
  "pair_handshake v \<lparr>ps_server = True, ps_cert = c, ps_stage = Hello_sent, ps_in = [3, d], ps_out = []\<rparr> =
    (if v False (Some (unat d)) = Some True then (1, \<lparr>ps_server = True, ps_cert = c, ps_stage = Established, ps_in = [], ps_out = [4]\<rparr>)
     else (-2, \<lparr>ps_server = True, ps_cert = c, ps_stage = Broken, ps_in = [], ps_out = [21]\<rparr>))"
  "pair_handshake v \<lparr>ps_server = False, ps_cert = c, ps_stage = Certificate_sent, ps_in = [4], ps_out = []\<rparr> =
    (1, \<lparr>ps_server = False, ps_cert = c, ps_stage = Established, ps_in = [], ps_out = []\<rparr>)"
  "pair_handshake v \<lparr>ps_server = s, ps_cert = c, ps_stage = st, ps_in = [21], ps_out = []\<rparr> =
    (if st = Established then (1, \<lparr>ps_server = s, ps_cert = c, ps_stage = st, ps_in = [21], ps_out = []\<rparr>)
     else (-2, \<lparr>ps_server = s, ps_cert = c, ps_stage = Broken, ps_in = [], ps_out = []\<rparr>))"
  by (simp_all add: pair_handshake_def Let_def)

lemma shuttle_numeral:
  "shuttle env wire (numeral k) a b n =
     (let datagrams = drop n (wire (ice_agent a)) in
      if datagrams = [] then Some (a, b)
      else Option.bind (run_all (Bridge_on_juice_recv (stack_ice env)) datagrams b) (\<lambda>b'.
             map_option prod.swap (shuttle env wire (pred_numeral k) b' a (length (wire (ice_agent b))))))"
  by (simp only: numeral_eq_Suc shuttle.simps)

lemmas loop_eval = Bridge_on_juice_state_def fire_state_change_def dtls_op_defs loop_rules
    run_script_def log_dtls_def pair_steps IceTransport_send_def IceTransport_set_callbacks_def map_juice_err_def 
    Let_def eval_thens loop_recv numbered_verify

definition loop_up :: "bool \<Rightarrow> loop_dtls \<Rightarrow> loop_dtls" where
  "loop_up client w = w\<lparr>ice_agent := (ice_agent w)\<lparr>la_up := True, la_sent := (if client then [[1]] else [])\<rparr>,
     ice_state := State_Completed, ice_callbacks := (ice_callbacks w)\<lparr>on_state_change := DtlsStateHook (DtlsAutoStart (IceUser 0)), on_data := DtlsPump\<rparr>,
     dtls_ssl := (if client then (dtls_ssl w)\<lparr>ps_stage := Hello_sent\<rparr> else dtls_ssl w), dtls_started := True, dtls_state := DtlsState_Connecting,
     dtls_log := dtls_log w @ [Ev_dtls_state DtlsState_Connecting, Ev_ice (Ev_state State_Connected), Ev_ice (Ev_state State_Completed)]\<rparr>"

lemma loop_connects_up:
  "rl' \<noteq> Role_Active \<Longrightarrow> loop_connects loop_stack (loop_ready_side n po rl own desc host ((loop_side agent rl' c)\<lparr>dtls_expected := p\<rparr>)) =
    Some (loop_up False (loop_ready_side n po rl own desc host ((loop_side agent rl' c)\<lparr>dtls_expected := p\<rparr>)))"
  by (simp add: loop_connects_def loop_ready_side_def loop_side_def pair_new_def loop_up_def loop_eval cong: eval_congs)

lemma loop_connects_up':
  "loop_connects loop_stack (loop_ready_side n po rl own desc host ((loop_side agent Role_Active c)\<lparr>dtls_expected := p\<rparr>)) =
    Some (loop_up True (loop_ready_side n po rl own desc host ((loop_side agent Role_Active c)\<lparr>dtls_expected := p\<rparr>)))"
  by (simp add: loop_connects_def loop_ready_side_def loop_side_def pair_new_def loop_up_def loop_eval cong: eval_congs)

lemma loop_ups:
  "drive_loop (side_a p) (side_b q) P =
     expect_then (shuttle loop_env la_sent 9
       (loop_up True (loop_ready_side ''b'' ''5002'' Role_Active host_b (loop_desc Type_Offer Role_ActPass ''a'') host_a (side_b q)))
       (loop_up False (loop_ready_side ''a'' ''5001'' Role_Passive host_a (loop_desc Type_Answer Role_Active ''b'') host_b (side_a p))) 0)
       (\<lambda>(b, a). P a b)"
  by (simp add: drive_loop_ready loop_connects_up loop_connects_up' eval_thens Let_def cong: eval_congs)

lemma loop_pair_eq: "loop_pair P = P (side_a None) (side_b None) (pair_pin 4) (pair_pin 13) (pair_pin 22)"
  by (simp add: loop_pair_def generated_pin construct_side loop_side_def eval_nat_numeral)

lemma side_pinned:
  "DtlsTransport_set_remote_fingerprint fp (side_a p) = side_a (Some fp)"
  "DtlsTransport_set_remote_fingerprint fp (side_b p) = side_b (Some fp)"
  by (simp_all add: DtlsTransport_set_remote_fingerprint_def)

lemmas loop_driven = loop_pair_eq Let_def side_pinned loop_ups

lemmas loop_flights = loop_up_def loop_ready_side_def loop_side_def pair_new_def loop_agent_new_def shuttle_numeral loop_eval

section \<open>The DTLS tests\<close>

definition dtls_handshake_completes_over_ice_loopback :: bool where
  "dtls_handshake_completes_over_ice_loopback \<longleftrightarrow>
     loop_pair (\<lambda>a b fp_a fp_b _.
     let a = DtlsTransport_set_remote_fingerprint fp_b a; b = DtlsTransport_set_remote_fingerprint fp_a b in
     drive_loop a b (\<lambda>a b.
       DtlsState_Connected \<in> set (dtls_states (dtls_log a)) \<and> DtlsState_Connected \<in> set (dtls_states (dtls_log b)) \<and>
       sent_then b a [112, 105, 110, 103] (\<lambda>b a. logged_data (dtls_log a) = [112, 105, 110, 103] \<and>
       sent_then a b [112, 111, 110, 103] (\<lambda>a b. logged_data (dtls_log b) = [112, 111, 110, 103]))))"

lemma dtls_handshake_completes_over_ice_loopback_holds: "dtls_handshake_completes_over_ice_loopback"
  by (simp only: dtls_handshake_completes_over_ice_loopback_def loop_driven) (simp add: sent_then_def loop_flights cong: eval_congs)

definition dtls_handshake_aborts_on_fingerprint_mismatch :: bool where
  "dtls_handshake_aborts_on_fingerprint_mismatch \<longleftrightarrow>
     loop_pair (\<lambda>a b fp_a fp_b fp_decoy.
     let a = DtlsTransport_set_remote_fingerprint fp_decoy a; b = DtlsTransport_set_remote_fingerprint fp_a b in
     drive_loop a b (\<lambda>a b. DtlsState_Failed \<in> set (dtls_states (dtls_log a))))"

lemma dtls_handshake_aborts_on_fingerprint_mismatch_holds: "dtls_handshake_aborts_on_fingerprint_mismatch"
  by (simp only: dtls_handshake_aborts_on_fingerprint_mismatch_def loop_driven) (simp add: loop_flights cong: eval_congs)

definition dtls_verify_callback_rejects_when_no_remote_fingerprint_set :: bool where
  "dtls_verify_callback_rejects_when_no_remote_fingerprint_set \<longleftrightarrow>
     loop_pair (\<lambda>a b fp_a fp_b fp_decoy.
     let b = DtlsTransport_set_remote_fingerprint fp_a b in
     drive_loop a b (\<lambda>a b. DtlsState_Failed \<in> set (dtls_states (dtls_log a))))"

lemma dtls_verify_callback_rejects_when_no_remote_fingerprint_set_holds: "dtls_verify_callback_rejects_when_no_remote_fingerprint_set"
  by (simp only: dtls_verify_callback_rejects_when_no_remote_fingerprint_set_def loop_driven) (simp add: loop_flights cong: eval_congs)

end
