(* ===== verification/Spec2Isabelle.thy ===== *)
theory Spec2Isabelle
  imports Candidate Configuration Reliability Sdp_Roundtrip Description_Build Certificate Ice_Transport Negotiation Handshake Sctp_Transport Stack_Races
    Candidate_Tests Configuration_Tests Description_Tests Certificate_Tests Transport_Tests Loopback_Tests
begin

text \<open>
  Verification library of libdatachannel-rs, a Rust port of the WebRTC data channel stack
  (\<open>src/src\<close>, one module for each part).

  The program. A peer connection is negotiated by exchanging descriptions in SDP
  (\<open>description.rs\<close>), which carry ICE credentials and candidates (\<open>candidate.rs\<close>) and the fingerprint
  of the local certificate (\<open>certificate.rs\<close>). A configuration (\<open>configuration.rs\<close>) lists the STUN and
  TURN servers. Three transports are stacked: ICE over the libjuice agent (\<open>ice_transport.rs\<close>),
  DTLS over ICE through OpenSSL with memory BIOs (\<open>dtls_transport.rs\<close>), SCTP over DTLS
  (\<open>sctp_transport.rs\<close>). An upper transport installs closures in the callbacks of the one below:
  what arrives travels up through \<open>on_data\<close>, a state change through \<open>on_state_change\<close>; what is sent travels
  down through \<open>send\<close>.

  The theories.
    \<^item> \<open>Prelude\<close>: machine integer types, the combinators of \<open>Result\<close>, the named collections, and the
      interfaces as locales: \<open>codec\<close>, \<open>exact_codec\<close> and \<open>normalizing\<close> (printers and parsers), \<open>equality\<close>,
      \<open>closable\<close> (what close promises), \<open>invariant\<close> (runs of operations).
    \<^item> \<open>Rust_Str\<close>, \<open>Rust_Num\<close>, \<open>Rust_Ip\<close>: the parts of Rust's standard library the sources use:
      \<open>str\<close> on its UTF-8 bytes, decimal and hexadecimal numbers with overflow, \<open>IpAddr\<close>.
    \<^item> \<open>Candidate\<close>: \<open>candidate.rs\<close>. \<open>Candidate_parse\<close> to \<open>Candidate_to_sdp\<close> carry the names of the methods.
    \<^item> \<open>Configuration\<close>: \<open>configuration.rs\<close>, with \<open>IceServer::parse\<close>, its URL parser and percent decoding.
    \<^item> \<open>Reliability\<close>: \<open>reliability.rs\<close> and \<open>error.rs\<close>.
    \<^item> \<open>Description\<close>, \<open>Sdp_Parser\<close>, \<open>Sdp_Roundtrip\<close>: \<open>description.rs\<close>: data, setters and serializer; the
      parser \<open>parse_into\<close> as a fold of \<open>parse_line\<close> over \<open>parser_state\<close>; the theorems that relate them.
    \<^item> \<open>Description_Build\<close>: descriptions built by any sequence of the mutators.
    \<^item> \<open>Certificate\<close>: \<open>certificate.rs\<close> and the verify callback of \<open>dtls_transport.rs\<close>.
    \<^item> \<open>Ice_Transport\<close>: \<open>ice_transport.rs\<close>. The record \<open>ice\<close> is \<open>IceTransport\<close> with its \<open>Bridge\<close>; one definition
      for each method and for each handler of the agent's events.
    \<^item> \<open>Dtls_Transport\<close>: \<open>dtls_transport.rs\<close>. The record \<open>dtls\<close> extends \<open>ice\<close>; \<open>ice_closure\<close> enumerates the closures
      installed on ICE and \<open>run_ice_state\<close>, \<open>run_ice_data\<close> are their bodies.
    \<^item> \<open>Dtls_Runs\<close>, \<open>Dtls_Flow\<close>: runs of the transport with callbacks as programs; its life cycle and
      authentication; what becomes of records, datagrams and locks.
    \<^item> \<open>Negotiation\<close>: from the offer to the connected transport; what becomes of one that is built too early.
    \<^item> \<open>Network\<close>: two peers, the datagrams between them and their loss.
    \<^item> \<open>Handshake\<close>: the conversation of the two OpenSSL objects, carried to and fro by \<open>shuttle\<close>, from the first ClientHello to
      two connected peers or to the one that refuses.
    \<^item> \<open>Sctp_Transport\<close>: \<open>sctp_transport.rs\<close>, the record \<open>sctp\<close> extends \<open>dtls\<close>, and the whole stack.
    \<^item> \<open>Interleaving\<close>, \<open>Races\<close>: threads that make one atomic access at a time and what holds under every
      schedule; the operations of the three transports that race with \<open>close\<close>.
    \<^item> \<open>Nesting\<close>, \<open>Nested_Races\<close>, \<open>Stack_Races\<close>: threads whose callbacks call back, as stacks of such places; the
      guarantees carried over to them, and the refinement that ties them to the sequential models.

    \<^item> \<open>Unit_Tests\<close>, \<open>Candidate_Tests\<close>, \<open>Configuration_Tests\<close>, \<open>Description_Tests\<close>, \<open>Certificate_Tests\<close>,
      \<open>Transport_Tests\<close>, \<open>Loopback_Tests\<close>: the unit tests of the sources as booleans over the model, each with the lemma that it
      holds, by evaluation. They are the check that the model computes what the code computes.

  Parameters. OpenSSL, the libjuice agent, the clock and the application's callbacks are not part of the
  sources. They are fields of the environments \<open>openssl\<close>, \<open>ice_env\<close>, \<open>dtls_env\<close>, \<open>sctp_env\<close> and of the builders.
  What a theorem needs of them is a named hypothesis: \<open>bio_contract\<close> (a memory BIO is a queue of bytes) and
  \<open>ssl_contract\<close> (a handshake ends without an error only if the verify callback accepted the certificate of the
  peer), \<open>agent_contract\<close> (an agent that is up takes every datagram) and \<open>record_contract\<close> (a message becomes one record
  that the peer's object can read, whether or not earlier ones arrived), \<open>bio_still\<close> (a queue without bytes is left as it is) and \<open>handshake_contract\<close> (two fresh objects exchange
  flights of one datagram each until both are done, or one rejects the certificate it is shown). \<open>Dtls_Runs\<close> and \<open>Handshake\<close> build sample
  instances that meet them, on which the witnesses run. \<open>shuttle\<close> takes a number of rounds and is \<open>None\<close> when they run out: the theorems say that some
  number is enough, and the tests give nine to a conversation of four flights.

  Results, errors, divergence. A \<open>Result\<close> is a sum with the error on the left. An operation that calls
  back may not return: its result is then \<open>None\<close>, also when a thread waits for a lock it holds
  itself. The two loops over OpenSSL (\<open>drain_outbound_locked\<close>, \<open>read_loop\<close>) are partial functions; that they
  return is proved where it holds (\<open>drain_in_order\<close>, \<open>pump_delivers\<close>). In a run the callbacks are scripts of
  operations: \<open>scripted\<close>, \<open>scripted_dtls\<close> and \<open>scripted_sctp\<close> nest them to a depth \<open>n\<close>, below which a callback does not
  return. The theorems hold for every \<open>n\<close>, so for every run whose nesting is finite; each witness
  exhibits a depth that is enough.

  What the lemmas show. Round trips of candidates, URLs, addresses, numbers and descriptions, and that
  descriptions the parser returns are well formed. That a fingerprint in an offer pins exactly the
  peer's certificates, and that in every run a connected DTLS transport has such a peer; that two transports which pin each other get
  connected, and that without the pin nobody does; between two connected peers, that messages whose record fits the drain's buffer
  arrive whole and in order. These three are about callbacks that only take note. For each
  transport: the states that are reachable, with the events that are reported, and that close gates every
  operation. Under every schedule of threads with nested callbacks, that each event is reported once, and what close does and does not
  guarantee; that every sequential run is one of a single such thread. Several theorems state where the code departs from its comments: a ClientHello
  refused by ICE is lost, sending from a callback of the pump deadlocks, a closed transport may end in
  Connected, a ClientHello that comes before the server knows of ICE goes to the application and both sides wait for ever, and a transport built before the offer is applied waits for ever. A record that
  exceeds the buffer of the drain is cut into several datagrams (\<open>long_record_split\<close>).

  Not modelled. Logging; \<open>Debug\<close> and the empty \<open>Default\<close> callbacks; raw pointers and the \<open>unsafe\<close> blocks around OpenSSL but
  for the calls they make; \<open>lib.rs\<close> (re-exports, two empty functions); sleeping and timeouts, in the tests as in OpenSSL (the code
  drives no timer of it): where a test polls, the model runs what it waits for. In \<open>Network\<close> datagrams may be
  lost but are not reordered, and in \<open>Handshake\<close> they are lost only where the code drops them. Reference counts are modelled only where the code asks for them (the weak pointers of the SCTP closures); that DTLS and ICE
  own each other through the closures, and are so never freed, is not. The lengths that the code casts to \<open>c_int\<close> and the
  \<open>i32\<close> counter of media lines are not bounded: the models agree with the code below 2^31. \<open>on_message\<close> and \<open>on_buffered_amount_low\<close> are stored and never invoked, in the
  code as in the model.
\<close>

end
